(* ===== verification/Lab_Prelude.thy ===== *)
theory Lab_Prelude
  imports Main
begin

text \<open>
  What the component theories share: the string operations of the two languages of the
  repository (JavaScript in the browser pages, Go in the server and the operator), with
  the facts about splitting and joining that path, token and JWT handling rest on, and
  the locale of machines whose guarded steps keep an invariant.

  A string is a list of code units below 256. Case mapping and white space are those of
  ASCII; the model says nothing about names outside it.
\<close>

section \<open>Collections of hints\<close>

named_theorems split_simps \<open>rewriting of split and join\<close>
named_theorems step_defs \<open>definitions of the handlers of a step function\<close>

section \<open>String operations\<close>

text \<open>\<^verbatim>\<open>s.split(c)\<close> of JavaScript and \<^verbatim>\<open>strings.Split(s, c)\<close> of Go, for a separator of one character.\<close>

fun split_on :: "'a \<Rightarrow> 'a list \<Rightarrow> 'a list list" where
  "split_on c [] = [[]]"
| "split_on c (x # xs) =
     (if x = c then [] # split_on c xs
      else (case split_on c xs of [] \<Rightarrow> [[x]] | y # ys \<Rightarrow> (x # y) # ys))"

text \<open>\<^verbatim>\<open>strings.SplitN(s, c, n)\<close>: at most \<open>n\<close> parts, the last one unsplit.\<close>

fun split_n :: "nat \<Rightarrow> 'a \<Rightarrow> 'a list \<Rightarrow> 'a list list" where
  "split_n 0 c s = []"
| "split_n (Suc 0) c s = [s]"
| "split_n (Suc (Suc n)) c s =
     (case dropWhile (\<lambda>x. x \<noteq> c) s of
        [] \<Rightarrow> [s]
      | _ # r \<Rightarrow> takeWhile (\<lambda>x. x \<noteq> c) s # split_n (Suc n) c r)"

text \<open>\<^verbatim>\<open>parts.join(sep)\<close> and \<^verbatim>\<open>strings.Join(parts, sep)\<close>.\<close>

fun join :: "'a list \<Rightarrow> 'a list list \<Rightarrow> 'a list" where
  "join sep [] = []"
| "join sep [x] = x"
| "join sep (x # y # ys) = x @ sep @ join sep (y # ys)"

definition starts_with :: "string \<Rightarrow> string \<Rightarrow> bool" where
  "starts_with p s \<longleftrightarrow> take (length p) s = p"

text \<open>\<^verbatim>\<open>strings.TrimPrefix(s, p)\<close>.\<close>

definition trim_prefix :: "string \<Rightarrow> string \<Rightarrow> string" where
  "trim_prefix p s = (if starts_with p s then drop (length p) s else s)"

definition char_code :: "char \<Rightarrow> nat" where
  "char_code c = of_char c"

definition lower_char :: "char \<Rightarrow> char" where
  "lower_char c = (if 65 \<le> char_code c \<and> char_code c \<le> 90 then char_of (char_code c + 32) else c)"

definition upper_char :: "char \<Rightarrow> char" where
  "upper_char c = (if 97 \<le> char_code c \<and> char_code c \<le> 122 then char_of (char_code c - 32) else c)"

definition lower :: "string \<Rightarrow> string" where
  "lower s = map lower_char s"

definition upper :: "string \<Rightarrow> string" where
  "upper s = map upper_char s"

definition is_space :: "char \<Rightarrow> bool" where
  "is_space c \<longleftrightarrow> char_code c \<in> {9, 10, 11, 12, 13, 32}"

definition trim :: "string \<Rightarrow> string" where
  "trim s = rev (dropWhile is_space (rev (dropWhile is_space s)))"

text \<open>Case-insensitive equality, \<^verbatim>\<open>strings.EqualFold\<close>.\<close>

definition equal_fold :: "string \<Rightarrow> string \<Rightarrow> bool" where
  "equal_fold s t \<longleftrightarrow> lower s = lower t"

text \<open>Decimal numerals, as \<^verbatim>\<open>strconv.FormatInt(n, 10)\<close> and template literals print them.\<close>

definition digit_char :: "nat \<Rightarrow> char" where
  "digit_char d = char_of (48 + d)"

fun nat_str :: "nat \<Rightarrow> string" where
  "nat_str n = (if n < 10 then [digit_char n] else nat_str (n div 10) @ [digit_char (n mod 10)])"

declare nat_str.simps [simp del]

definition int_str :: "int \<Rightarrow> string" where
  "int_str i = (if i < 0 then CHR ''-'' # nat_str (nat (- i)) else nat_str (nat i))"

text \<open>Reading a numeral back.\<close>

definition digit_val :: "char \<Rightarrow> nat option" where
  "digit_val c = (if 48 \<le> char_code c \<and> char_code c \<le> 57 then Some (char_code c - 48) else None)"

fun parse_digits :: "nat \<Rightarrow> string \<Rightarrow> nat option" where
  "parse_digits n [] = Some n"
| "parse_digits n (c # cs) =
     (case digit_val c of None \<Rightarrow> None | Some d \<Rightarrow> parse_digits (n * 10 + d) cs)"

definition parse_nat :: "string \<Rightarrow> nat option" where
  "parse_nat s = (if s = [] then None else parse_digits 0 s)"

section \<open>Runs of a machine\<close>

text \<open>Every event of the list is admitted by \<open>guard\<close> in the state it meets.\<close>

fun admitted :: "('s \<Rightarrow> 'e \<Rightarrow> 's) \<Rightarrow> ('s \<Rightarrow> 'e \<Rightarrow> bool) \<Rightarrow> 's \<Rightarrow> 'e list \<Rightarrow> bool" where
  "admitted step guard s [] = True"
| "admitted step guard s (e # es) = (guard s e \<and> admitted step guard (step s e) es)"

section \<open>Lists of what is open\<close>

text \<open>\<^verbatim>\<open>splice(i, 1)\<close>: also how an answer leaves the list of requests in flight.\<close>

definition remove_at :: "nat \<Rightarrow> 'a list \<Rightarrow> 'a list" where
  "remove_at i xs = take i xs @ drop (Suc i) xs"

lemma remove_single [simp]: "remove_at 0 [x] = []"
  by (simp add: remove_at_def)

lemma set_remove_at: "set (remove_at i xs) \<subseteq> set xs"
  by (auto simp: remove_at_def dest: in_set_takeD in_set_dropD)

lemma length_remove_at: "i < length xs \<Longrightarrow> length (remove_at i xs) = length xs - 1"
  by (simp add: remove_at_def)

lemma hd_remove_at: "0 < i \<Longrightarrow> xs \<noteq> [] \<Longrightarrow> hd (remove_at i xs) = hd xs"
  by (cases xs; cases i) (auto simp: remove_at_def)

section \<open>Facts about splitting and joining\<close>

lemma split_on_not_Nil [simp]: "split_on c s \<noteq> []"
  by (induction s) (auto split: list.splits)

lemma split_on_free [split_simps]: "c \<notin> set s \<Longrightarrow> split_on c s = [s]"
  by (induction s) auto

lemma split_on_append_sep [split_simps]:
  "split_on c (s @ c # t) = split_on c s @ split_on c t"
  by (induction s) (auto split: list.splits)

lemma split_on_parts_free: "p \<in> set (split_on c s) \<Longrightarrow> c \<notin> set p"
proof (induction s arbitrary: p)
  case Nil
  then show ?case by simp
next
  case (Cons x s)
  obtain y ys where y: "split_on c s = y # ys"
    using split_on_not_Nil [of c s] by (cases "split_on c s") auto
  show ?case
    using Cons y by (auto split: if_splits)
qed

lemma join_Cons: "xs \<noteq> [] \<Longrightarrow> join sep (x # xs) = x @ sep @ join sep xs"
  by (cases xs) auto

lemma join_split_on [split_simps]: "join [c] (split_on c s) = s"
proof (induction s)
  case Nil
  then show ?case by simp
next
  case (Cons x s)
  obtain y ys where y: "split_on c s = y # ys"
    using split_on_not_Nil [of c s] by (cases "split_on c s") auto
  show ?case
    using Cons y by (cases ys) auto
qed

lemma split_on_join [split_simps]:
  "xs \<noteq> [] \<Longrightarrow> (\<And>x. x \<in> set xs \<Longrightarrow> c \<notin> set x) \<Longrightarrow> split_on c (join [c] xs) = xs"
proof (induction xs rule: induct_list012)
  case (3 x y ys)
  then show ?case
    by (simp add: split_on_append_sep split_on_free)
qed (auto simp: split_on_free)

lemma last_split_on_dir [split_simps]: "last (split_on c (s @ c # t)) = last (split_on c t)"
  by (simp add: split_on_append_sep)

text \<open>Splitting what was joined gives the parts back, the last one whatever it contains.\<close>

lemma dropWhile_to: "c \<notin> set s \<Longrightarrow> dropWhile (\<lambda>z. z \<noteq> c) (s @ c # t) = c # t"
  by (induction s) auto

lemma takeWhile_to: "c \<notin> set s \<Longrightarrow> takeWhile (\<lambda>z. z \<noteq> c) (s @ c # t) = s"
  by (induction s) auto

lemma dropWhile_free: "c \<notin> set s \<Longrightarrow> dropWhile (\<lambda>z. z \<noteq> c) s = []"
  by (induction s) auto

lemma split_n_Cons:
  "c \<notin> set x \<Longrightarrow> split_n (Suc (Suc n)) c (x @ c # r) = x # split_n (Suc n) c r"
  by (simp add: dropWhile_to takeWhile_to)

lemma split_n_join [split_simps]:
  "(\<And>x. x \<in> set xs \<Longrightarrow> c \<notin> set x) \<Longrightarrow>
   split_n (Suc (length xs)) c (join [c] (xs @ [r])) = xs @ [r]"
proof (induction xs)
  case Nil
  then show ?case by simp
next
  case (Cons x xs)
  have "join [c] ((x # xs) @ [r]) = x @ c # join [c] (xs @ [r])"
    by (simp add: join_Cons)
  then show ?case
    using Cons split_n_Cons [of c x "length xs" "join [c] (xs @ [r])"] by simp
qed

lemma join_split_n [split_simps]: "join [c] (split_n (Suc n) c s) = s"
proof (induction n arbitrary: s)
  case 0
  then show ?case by simp
next
  case (Suc n)
  show ?case
  proof (cases "dropWhile (\<lambda>x. x \<noteq> c) s")
    case Nil
    then have "split_n (Suc (Suc n)) c s = [s]" by (simp only: split_n.simps list.case)
    then show ?thesis by simp
  next
    case (Cons d r)
    have "d = c" using Cons by (metis (mono_tags, lifting) dropWhile_eq_Cons_conv)
    moreover have "s = takeWhile (\<lambda>x. x \<noteq> c) s @ d # r"
      using Cons takeWhile_dropWhile_id [of "\<lambda>x. x \<noteq> c" s] by simp
    moreover have "split_n (Suc n) c r \<noteq> []"
      by (cases n) (auto split: list.splits)
    ultimately show ?thesis
      using Cons Suc [of r] by (simp add: join_Cons)
  qed
qed

lemma length_split_n: "length (split_n n c s) \<le> n"
  by (induction n c s rule: split_n.induct) (auto split: list.splits)

section \<open>Facts about case mapping and numerals\<close>

lemma char_code_bound: "char_code c < 256"
  by (simp add: char_code_def)

lemma char_code_char_of [simp]: "n < 256 \<Longrightarrow> char_code (char_of n) = n"
  by (simp add: char_code_def)

lemma char_of_char_code [simp]: "char_of (char_code c) = c"
  by (simp add: char_code_def)

lemma char_code_inject: "char_code c = char_code d \<longleftrightarrow> c = d"
  by (simp add: char_code_def)

lemma lower_char_idem [simp]: "lower_char (lower_char c) = lower_char c"
  by (auto simp: lower_char_def)

lemma lower_upper_char [simp]: "lower_char (upper_char c) = lower_char c"
  by (auto simp: lower_char_def upper_char_def)

lemma lower_idem [simp]: "lower (lower s) = lower s"
  by (simp add: lower_def)

lemma lower_upper [simp]: "lower (upper s) = lower s"
  by (simp add: lower_def upper_def)

lemma length_lower [simp]: "length (lower s) = length s"
  by (simp add: lower_def)

lemma length_upper [simp]: "length (upper s) = length s"
  by (simp add: upper_def)

lemma equal_fold_refl [simp]: "equal_fold s s"
  by (simp add: equal_fold_def)

lemma starts_with_append [simp]: "starts_with p (p @ s)"
  by (simp add: starts_with_def)

lemma trim_prefix_append [simp]: "trim_prefix p (p @ s) = s"
  by (simp add: trim_prefix_def)

lemma nat_str_not_Nil [simp]: "nat_str n \<noteq> []"
  by (subst nat_str.simps) simp

lemma nat_str_digits: "x \<in> set (nat_str n) \<Longrightarrow> 48 \<le> char_code x \<and> char_code x \<le> 57"
proof (induction n rule: nat_str.induct)
  case (1 n)
  show ?case
  proof (cases "n < 10")
    case True
    then show ?thesis
      using "1.prems" by (subst (asm) nat_str.simps) (auto simp: digit_char_def)
  next
    case False
    then have "x \<in> set (nat_str (n div 10)) \<or> x = digit_char (n mod 10)"
      using "1.prems" by (subst (asm) nat_str.simps) auto
    then show ?thesis
      using "1.IH" [OF False] by (auto simp: digit_char_def)
  qed
qed

lemma digit_val_char [simp]: "d < 10 \<Longrightarrow> digit_val (digit_char d) = Some d"
  by (simp add: digit_val_def digit_char_def)

lemma parse_digits_append:
  "parse_digits n (s @ t) = (case parse_digits n s of None \<Rightarrow> None | Some m \<Rightarrow> parse_digits m t)"
  by (induction s arbitrary: n) (auto split: option.split)

lemma parse_digits_nat_str: "parse_digits 0 (nat_str n) = Some n"
proof (induction n rule: nat_str.induct)
  case (1 n)
  then show ?case
    by (subst nat_str.simps) (auto simp: parse_digits_append)
qed

lemma parse_nat_str [simp]: "parse_nat (nat_str n) = Some n"
  by (simp add: parse_nat_def parse_digits_nat_str)

section \<open>Operations that may fail\<close>

text \<open>
  An operation on a state gives an error or a value, and the state it leaves, errors
  included. \<open>andthen\<close> is Go's \<^verbatim>\<open>if err != nil { return err }\<close> between two calls.
\<close>

type_synonym ('s, 'e, 'a) op = "'s \<Rightarrow> ('e + 'a) \<times> 's"

definition give :: "'a \<Rightarrow> ('s, 'e, 'a) op" where
  "give a s = (Inr a, s)"

definition fail :: "'e \<Rightarrow> ('s, 'e, 'a) op" where
  "fail e s = (Inl e, s)"

definition andthen :: "('s, 'e, 'a) op \<Rightarrow> ('a \<Rightarrow> ('s, 'e, 'b) op) \<Rightarrow> ('s, 'e, 'b) op" where
  "andthen m f s = (case m s of (Inl e, s1) \<Rightarrow> (Inl e, s1) | (Inr a, s1) \<Rightarrow> f a s1)"

text \<open>An error of \<open>m\<close> is not passed on: the result is then \<open>b\<close>.\<close>

definition recovering :: "('s, 'e, 'a) op \<Rightarrow> 'b \<Rightarrow> ('a \<Rightarrow> ('s, 'e, 'b) op) \<Rightarrow> ('s, 'e, 'b) op" where
  "recovering m b f s = (case m s of (Inl _, s1) \<Rightarrow> (Inr b, s1) | (Inr a, s1) \<Rightarrow> f a s1)"

text \<open>An operation keeps \<open>P\<close> whether it succeeds or not.\<close>

definition keeps :: "('s \<Rightarrow> bool) \<Rightarrow> ('s, 'e, 'a) op \<Rightarrow> bool" where
  "keeps P m \<longleftrightarrow> (\<forall>s. P s \<longrightarrow> P (snd (m s)))"

lemma keepsD: "keeps P m \<Longrightarrow> P s \<Longrightarrow> P (snd (m s))"
  by (simp add: keeps_def)

lemma keepsI: "(\<And>s. P s \<Longrightarrow> P (snd (m s))) \<Longrightarrow> keeps P m"
  by (simp add: keeps_def)

lemma keeps_give [intro]: "keeps P (give a)"
  by (simp add: keeps_def give_def)

lemma keeps_fail [intro]: "keeps P (fail e)"
  by (simp add: keeps_def fail_def)

lemma keeps_andthen [intro]: "keeps P m \<Longrightarrow> (\<And>a. keeps P (f a)) \<Longrightarrow> keeps P (andthen m f)"
  unfolding keeps_def andthen_def by (auto split: prod.split sum.split)

lemma keeps_recovering [intro]: "keeps P m \<Longrightarrow> (\<And>a. keeps P (f a)) \<Longrightarrow> keeps P (recovering m b f)"
  unfolding keeps_def recovering_def by (auto split: prod.split sum.split)

lemma keeps_if [intro]: "(b \<Longrightarrow> keeps P m) \<Longrightarrow> (\<not> b \<Longrightarrow> keeps P m') \<Longrightarrow> keeps P (if b then m else m')"
  by simp

text \<open>
  A triple: from \<open>P\<close>, a success leaves \<open>Q\<close> for its value and an error leaves \<open>E\<close>.
\<close>

definition triple :: "('s \<Rightarrow> bool) \<Rightarrow> ('s, 'e, 'a) op \<Rightarrow> ('a \<Rightarrow> 's \<Rightarrow> bool) \<Rightarrow> ('s \<Rightarrow> bool) \<Rightarrow> bool" where
  "triple P m Q E \<longleftrightarrow> (\<forall>s. P s \<longrightarrow> (case m s of (Inl _, t) \<Rightarrow> E t | (Inr a, t) \<Rightarrow> Q a t))"

lemma triple_give: "(\<And>s. P s \<Longrightarrow> Q a s) \<Longrightarrow> triple P (give a) Q E"
  by (simp add: triple_def give_def)

lemma triple_fail: "(\<And>s. P s \<Longrightarrow> E s) \<Longrightarrow> triple P (fail e) Q E"
  by (simp add: triple_def fail_def)

lemma triple_case:
  assumes "triple P m R E" "P s"
  obtains a t where "m s = (Inr a, t)" "R a t" | e t where "m s = (Inl e, t)" "E t"
  using assms unfolding triple_def by (cases "m s"; cases "fst (m s)") fastforce+

lemma tripleI:
  assumes "\<And>s. P s \<Longrightarrow> (\<exists>a t. m s = (Inr a, t) \<and> Q a t) \<or> (\<exists>e t. m s = (Inl e, t) \<and> E t)"
  shows "triple P m Q E"
  using assms unfolding triple_def by (fastforce split: prod.split sum.split)

lemma triple_andthen:
  assumes "triple P m R E" "\<And>a. triple (R a) (f a) Q E"
  shows "triple P (andthen m f) Q E"
proof (rule tripleI)
  fix s assume "P s"
  from assms(1) this show "(\<exists>a t. andthen m f s = (Inr a, t) \<and> Q a t) \<or> (\<exists>e t. andthen m f s = (Inl e, t) \<and> E t)"
  proof (cases rule: triple_case)
    case (1 a t)
    from assms(2) 1(2) show ?thesis by (cases rule: triple_case) (simp_all add: andthen_def 1(1))
  qed (simp add: andthen_def)
qed

lemma triple_recovering:
  assumes "triple P m R (Q b)" "\<And>a. triple (R a) (f a) Q E"
  shows "triple P (recovering m b f) Q E"
proof (rule tripleI)
  fix s assume "P s"
  from assms(1) this show "(\<exists>a t. recovering m b f s = (Inr a, t) \<and> Q a t) \<or> (\<exists>e t. recovering m b f s = (Inl e, t) \<and> E t)"
  proof (cases rule: triple_case)
    case (1 a t)
    from assms(2) 1(2) show ?thesis by (cases rule: triple_case) (simp_all add: recovering_def 1(1))
  qed (simp add: recovering_def)
qed

lemma triple_if: "(b \<Longrightarrow> triple P m Q E) \<Longrightarrow> (\<not> b \<Longrightarrow> triple P m' Q E) \<Longrightarrow> triple P (if b then m else m') Q E"
  by simp

lemma triple_weaken:
  "triple P m Q E \<Longrightarrow> (\<And>s. P' s \<Longrightarrow> P s) \<Longrightarrow> (\<And>a s. Q a s \<Longrightarrow> Q' a s) \<Longrightarrow> (\<And>s. E s \<Longrightarrow> E' s) \<Longrightarrow>
   triple P' m Q' E'"
  unfolding triple_def by (fastforce split: prod.splits sum.splits)

lemma triple_state: "triple P m (\<lambda>_. R) R \<Longrightarrow> P s \<Longrightarrow> R (snd (m s))"
  unfolding triple_def by (fastforce split: prod.splits sum.splits)

lemma keeps_triple: "keeps P m \<Longrightarrow> triple P m (\<lambda>_. P) P"
  unfolding triple_def keeps_def by (fastforce split: prod.splits sum.splits)

text \<open>A sequence succeeded: both parts did.\<close>

lemma andthen_InrE:
  assumes "andthen m f s = (Inr b, t)"
  obtains a s1 where "m s = (Inr a, s1)" "f a s1 = (Inr b, t)"
  using assms by (auto simp: andthen_def split: prod.splits sum.splits)

lemma andthen_Inr: "m s = (Inr a, s1) \<Longrightarrow> andthen m f s = f a s1"
  by (simp add: andthen_def)

section \<open>Machines that keep an invariant\<close>

text \<open>
  The interface a component offers to the theorems about its runs: a step function, the
  events that may happen in a state, and a predicate that admitted steps keep.
\<close>

locale guarded_machine =
  fixes step :: "'s \<Rightarrow> 'e \<Rightarrow> 's"
    and guard :: "'s \<Rightarrow> 'e \<Rightarrow> bool"
    and inv :: "'s \<Rightarrow> bool"
  assumes step_inv: "inv s \<Longrightarrow> guard s e \<Longrightarrow> inv (step s e)"
begin

lemma run_inv: "inv s \<Longrightarrow> admitted step guard s es \<Longrightarrow> inv (foldl step s es)"
  by (induction es arbitrary: s) (auto intro: step_inv)

lemma run_inv_from:
  "inv s \<Longrightarrow> admitted step guard s (es @ fs) \<Longrightarrow> inv (foldl step s es)"
  by (induction es arbitrary: s) (auto intro: step_inv)

end

lemma admitted_True [simp]: "admitted step (\<lambda>_ _. True) s es"
  by (induction es arbitrary: s) auto

lemma admitted_append:
  "admitted step guard s (es @ fs) \<longleftrightarrow>
     admitted step guard s es \<and> admitted step guard (foldl step s es) fs"
  by (induction es arbitrary: s) auto

end
