(* ===== verification/File_Kinds.thy ===== *)
theory File_Kinds
  imports Lab_Prelude
begin

text \<open>
  How the web IDE chooses the badge and the highlighting language of a file
  (\<^verbatim>\<open>fileIcon\<close> and \<^verbatim>\<open>getLang\<close> of \<^verbatim>\<open>web/ide-src/src/main.js\<close>). Both look the
  extension up in an object literal. Such an object answers for the names it inherits from
  \<^verbatim>\<open>Object.prototype\<close> too, so a lookup has three outcomes.
\<close>

section \<open>Property lookup in an object literal\<close>

datatype 'v js_prop = Own 'v | Inherited | Missing

definition object_prototype_keys :: "string list" where
  "object_prototype_keys =
     [''constructor'', ''__proto__'', ''hasOwnProperty'', ''isPrototypeOf'',
      ''propertyIsEnumerable'', ''toLocaleString'', ''toString'', ''valueOf'',
      ''__defineGetter__'', ''__defineSetter__'', ''__lookupGetter__'', ''__lookupSetter__'']"

definition js_get :: "(string \<times> 'v) list \<Rightarrow> string \<Rightarrow> 'v js_prop" where
  "js_get obj k =
     (case map_of obj k of
        Some v \<Rightarrow> Own v
      | None \<Rightarrow> if k \<in> set object_prototype_keys then Inherited else Missing)"

section \<open>The badge of a file\<close>

text \<open>A field that the code reads from an object without it is \<open>None\<close> (\<^verbatim>\<open>undefined\<close>).\<close>

record icon =
  icon_text :: "string option"
  icon_cls :: "string option"

definition badge :: "string \<Rightarrow> string \<Rightarrow> icon" where
  "badge t c = \<lparr>icon_text = Some t, icon_cls = Some c\<rparr>"

definition file_ext :: "string \<Rightarrow> string" where
  "file_ext name =
     (if CHR ''.'' \<in> set name then lower (last (split_on (CHR ''.'') name)) else lower name)"

definition icon_map :: "(string \<times> icon) list" where
  "icon_map =
     [(''go'', badge ''GO'' ''fb-go''),
      (''js'', badge ''JS'' ''fb-js''),
      (''jsx'', badge ''JSX'' ''fb-js''),
      (''ts'', badge ''TS'' ''fb-ts''),
      (''tsx'', badge ''TSX'' ''fb-ts''),
      (''py'', badge ''PY'' ''fb-py''),
      (''sh'', badge ''SH'' ''fb-sh''),
      (''bash'', badge ''SH'' ''fb-sh''),
      (''yaml'', badge ''YAML'' ''fb-yaml''),
      (''yml'', badge ''YAML'' ''fb-yaml''),
      (''json'', badge ''JSON'' ''fb-json''),
      (''md'', badge ''MD'' ''fb-md''),
      (''html'', badge ''HTML'' ''fb-html''),
      (''css'', badge ''CSS'' ''fb-css''),
      (''tf'', badge ''TF'' ''fb-tf''),
      (''hcl'', badge ''HCL'' ''fb-tf''),
      (''rs'', badge ''RS'' ''fb-rs''),
      (''toml'', badge ''TOML'' ''fb-json''),
      (''dockerfile'', badge ''DF'' ''fb-sh''),
      (''c'', badge ''C'' ''fb-rs''),
      (''cpp'', badge ''C++'' ''fb-rs'')]"

definition icon_by_name :: "(string \<times> icon) list" where
  "icon_by_name =
     [(''dockerfile'', badge ''DF'' ''fb-sh''),
      (''makefile'', badge ''MK'' ''fb-sh''),
      (''.gitignore'', badge ''GIT'' ''fb-md''),
      (''.env'', badge ''ENV'' ''fb-yaml'')]"

text \<open>
  The fallback text is the first four characters of the extension in capitals, or a middle
  dot (code unit \<open>0xB7\<close>) when there is none. Reading \<^verbatim>\<open>text\<close> and \<^verbatim>\<open>cls\<close> of an inherited
  value gives \<^verbatim>\<open>undefined\<close> twice.
\<close>

definition icon_fallback :: "string \<Rightarrow> icon" where
  "icon_fallback ext =
     (let t = upper (take 4 ext) in badge (if t = [] then [CHR 0xB7] else t) ''fb-file'')"

definition no_fields :: icon where
  "no_fields = \<lparr>icon_text = None, icon_cls = None\<rparr>"

definition fileIcon :: "string \<Rightarrow> icon" where
  "fileIcon name =
     (case js_get icon_map (file_ext name) of
        Own i \<Rightarrow> i
      | Inherited \<Rightarrow> no_fields
      | Missing \<Rightarrow>
          (case js_get icon_by_name (lower name) of
             Own i \<Rightarrow> i
           | Inherited \<Rightarrow> no_fields
           | Missing \<Rightarrow> icon_fallback (file_ext name)))"

section \<open>The language of a file\<close>

text \<open>
  \<open>Lang_object\<close> is an inherited function or object in the place of a language id.
\<close>

datatype lang = Lang string | Lang_object

definition lang_map :: "(string \<times> string) list" where
  "lang_map =
     [(''go'', ''go''), (''js'', ''javascript''), (''ts'', ''typescript''),
      (''jsx'', ''javascript''), (''tsx'', ''typescript''),
      (''py'', ''python''), (''sh'', ''shell''), (''bash'', ''shell''), (''yaml'', ''yaml''),
      (''yml'', ''yaml''), (''json'', ''json''), (''md'', ''markdown''), (''html'', ''html''),
      (''css'', ''css''), (''toml'', ''ini''), (''tf'', ''hcl''), (''hcl'', ''hcl''),
      (''rs'', ''rust''), (''c'', ''c''), (''cpp'', ''cpp''), (''java'', ''java''),
      (''rb'', ''ruby''), (''sql'', ''sql''), (''dockerfile'', ''dockerfile'')]"

definition base_name :: "string \<Rightarrow> string" where
  "base_name path = last (split_on (CHR ''/'') path)"

definition getLang :: "string \<Rightarrow> lang" where
  "getLang path =
     (case js_get lang_map (file_ext (base_name path)) of
        Own l \<Rightarrow> Lang l
      | Inherited \<Rightarrow> Lang_object
      | Missing \<Rightarrow> Lang ''plaintext'')"

text \<open>What the tree needs of a badge: a short text and a class of the style sheet.\<close>

definition badge_ok :: "icon \<Rightarrow> bool" where
  "badge_ok i \<longleftrightarrow>
     (\<exists>t c. icon_text i = Some t \<and> icon_cls i = Some c \<and>
        t \<noteq> [] \<and> length t \<le> 4 \<and> starts_with ''fb-'' c)"

section \<open>Facts about lookups\<close>

lemma js_get_Own_mem: "js_get obj k = Own v \<Longrightarrow> (k, v) \<in> set obj"
  by (auto simp: js_get_def map_of_SomeD split: option.splits if_splits)

lemma js_get_Inherited: "js_get obj k = Inherited \<Longrightarrow> k \<in> set object_prototype_keys"
  by (auto simp: js_get_def split: option.splits if_splits)

lemma file_ext_lower [simp]: "lower (file_ext name) = file_ext name"
  by (simp add: file_ext_def)

text \<open>An extension is in lower case, so only two inherited names can be met.\<close>

lemma lower_prototype_keys:
  "k \<in> set object_prototype_keys \<Longrightarrow> lower k = k \<Longrightarrow> k \<in> {''constructor'', ''__proto__''}"
proof -
  have "\<forall>k \<in> set object_prototype_keys. lower k = k \<longrightarrow> k \<in> {''constructor'', ''__proto__''}"
    by code_simp
  then show "k \<in> set object_prototype_keys \<Longrightarrow> lower k = k \<Longrightarrow> k \<in> {''constructor'', ''__proto__''}"
    by blast
qed

lemma tables_have_no_inherited_key:
  "\<forall>k \<in> {''constructor'', ''__proto__''}.
     js_get icon_map k = Inherited \<and> js_get icon_by_name k = Inherited \<and> js_get lang_map k = Inherited"
  by (simp add: js_get_def icon_map_def icon_by_name_def lang_map_def object_prototype_keys_def)

lemma icon_tables_ok: "(k, i) \<in> set icon_map \<union> set icon_by_name \<Longrightarrow> badge_ok i"
  by (auto simp: icon_map_def icon_by_name_def badge_def badge_ok_def starts_with_def)

lemma icon_fallback_ok: "badge_ok (icon_fallback ext)"
  by (auto simp: icon_fallback_def badge_ok_def badge_def Let_def starts_with_def upper_def)

text \<open>A name that is itself an inherited key has that key as its extension.\<close>

lemma by_name_inherited:
  assumes "js_get icon_by_name (lower name) = Inherited"
  shows "file_ext name \<in> {''constructor'', ''__proto__''}"
proof -
  have k: "lower name \<in> {''constructor'', ''__proto__''}"
    using js_get_Inherited [OF assms] by (rule lower_prototype_keys) simp
  have "CHR ''.'' \<notin> set name"
  proof
    assume "CHR ''.'' \<in> set name"
    then have "lower_char (CHR ''.'') \<in> set (lower name)"
      by (auto simp: lower_def)
    moreover have "lower_char (CHR ''.'') = CHR ''.''" by code_simp
    ultimately show False using k by auto
  qed
  then show ?thesis using k by (simp add: file_ext_def)
qed

lemma split_on_map:
  assumes "\<And>x. f x = c \<longleftrightarrow> x = c"
  shows "split_on c (map f s) = map (map f) (split_on c s)"
proof (induction s)
  case Nil
  then show ?case by simp
next
  case (Cons x s)
  obtain y ys where "split_on c s = y # ys"
    using split_on_not_Nil [of c s] by (cases "split_on c s") auto
  then show ?case using Cons assms by auto
qed

lemma upper_char_punct:
  "char_code c < 65 \<Longrightarrow> upper_char x = c \<longleftrightarrow> x = c"
  by (auto simp: upper_char_def)

lemma file_ext_upper [simp]: "file_ext (upper name) = file_ext name"
proof -
  have d: "upper_char x = CHR ''.'' \<longleftrightarrow> x = CHR ''.''" for x
    by (rule upper_char_punct) code_simp
  have "split_on (CHR ''.'') (upper name) = map upper (split_on (CHR ''.'') name)"
    unfolding upper_def by (subst split_on_map) (simp_all add: d upper_def [abs_def])
  moreover have "CHR ''.'' \<in> set (upper name) \<longleftrightarrow> CHR ''.'' \<in> set name"
    unfolding upper_def set_map image_iff by (metis d)
  ultimately show ?thesis
    by (simp add: file_ext_def last_map)
qed

lemma base_name_upper: "base_name (upper p) = upper (base_name p)"
proof -
  have d: "upper_char x = CHR ''/'' \<longleftrightarrow> x = CHR ''/''" for x
    by (rule upper_char_punct) code_simp
  show ?thesis
    unfolding base_name_def upper_def
    by (subst split_on_map) (simp_all add: d last_map upper_def [abs_def])
qed

text \<open>The entry \<^verbatim>\<open>dockerfile\<close> of the second table is never reached.\<close>

lemma by_name_dockerfile_unreachable: "lower name = ''dockerfile'' \<Longrightarrow> js_get icon_map (file_ext name) \<noteq> Missing"
proof -
  assume l: "lower name = ''dockerfile''"
  have "CHR ''.'' \<notin> set name"
  proof
    assume "CHR ''.'' \<in> set name"
    then have "lower_char (CHR ''.'') \<in> set (lower name)" by (auto simp: lower_def)
    moreover have "lower_char (CHR ''.'') = CHR ''.''" by code_simp
    ultimately show False using l by auto
  qed
  then show ?thesis using l by (simp add: file_ext_def icon_map_def js_get_def)
qed

section \<open>Properties\<close>

text \<open>
  every file gets a badge with a text of one to four characters and a class of the
  style sheet, except the files whose extension (or whole name) is \<^verbatim>\<open>constructor\<close> or
  \<^verbatim>\<open>__proto__\<close> in any capitals: for them the lookup finds an inherited value and the badge
  has neither text nor class.
\<close>

theorem fileIcon_badge:
  "if file_ext name \<in> {''constructor'', ''__proto__''}
   then fileIcon name = no_fields
   else badge_ok (fileIcon name)"
proof (cases "file_ext name \<in> {''constructor'', ''__proto__''}")
  case True
  then show ?thesis
    using tables_have_no_inherited_key by (auto simp: fileIcon_def)
next
  case False
  have "js_get icon_map (file_ext name) \<noteq> Inherited"
    using False lower_prototype_keys [OF js_get_Inherited] file_ext_lower by blast
  moreover have "js_get icon_by_name (lower name) \<noteq> Inherited"
    using False by_name_inherited by blast
  ultimately have "badge_ok (fileIcon name)"
    using icon_tables_ok icon_fallback_ok
    by (auto simp: fileIcon_def dest!: js_get_Own_mem split: js_prop.splits)
  then show ?thesis using False by simp
qed

text \<open>
  the highlighting language depends on the base name only, and on it without regard
  to capitals: a file keeps its language in whatever directory it lies.
\<close>

theorem getLang_base_name:
  "getLang (dir @ CHR ''/'' # name) = getLang name \<and> getLang (upper name) = getLang name"
  by (simp add: getLang_def base_name_def [of "dir @ CHR ''/'' # name"] last_split_on_dir
      base_name_def [of name, symmetric] base_name_upper)

end
