(* ===== verification/Ide_Client.thy ===== *)
theory Ide_Client
  imports File_Kinds
begin

text \<open>
  The editor of the web IDE: opening, editing and saving files
  (\<^verbatim>\<open>openFile\<close>, \<^verbatim>\<open>saveFile\<close>, \<^verbatim>\<open>updateBar\<close>, \<^verbatim>\<open>setStatus\<close>, \<^verbatim>\<open>highlightActive\<close> and the editor set-up
  of \<^verbatim>\<open>web/ide-src/src/main.js\<close>).

  The page is a machine. Its state holds the variables of the module (\<^verbatim>\<open>currentPath\<close>,
  \<^verbatim>\<open>dirty\<close>), the elements the code writes to, the editor's text models, the requests in
  flight and the files of the VM behind \<^verbatim>\<open>/ide-api\<close>. Every \<^verbatim>\<open>await\<close> splits its function in
  two: a request carries what the second half needs, and an event of the machine is a user
  action, an answer, or a timer. Between two events any other event may happen, as in the
  browser. The files change only through this page, and a text is loaded as it is (line
  end normalisation and decoding of bytes that are not UTF-8 are left out).
\<close>

section \<open>State\<close>

text \<open>
  Text models are registered under the URI of their path. The editor starts with an empty
  model of its own. \<^verbatim>\<open>createModel\<close> throws when the URI is registered already.
\<close>

datatype uri = Initial_uri | File_uri string

record text_model =
  m_text :: string
  m_lang :: lang

datatype save_status = Status_blank | Status_saving | Status_saved | Status_failed

datatype request =
    Open_wait string
  | Open_body string string
  | Put_wait string string bool

text \<open>
  \<open>Open_wait p\<close>: the first \<^verbatim>\<open>await\<close> of \<^verbatim>\<open>openFile\<close>. \<open>Open_body p t\<close>: the answer was good and
  carries text \<open>t\<close>; \<^verbatim>\<open>res.text()\<close> is awaited. \<open>Put_wait p c w\<close>: the \<^verbatim>\<open>await\<close> of \<^verbatim>\<open>saveFile\<close>,
  with the content sent; \<open>w\<close> once the VM has written it.
\<close>

record ide =
  models :: "uri \<Rightarrow> text_model option"
  attached :: uri
  currentPath :: "string option"
  dirty :: bool
  no_file_shown :: bool
  container_shown :: bool
  save_disabled :: bool
  bar_text :: string
  bar_dirty :: bool
  status_text :: save_status
  highlighted :: "string option"
  alerts :: nat
  clear_timers :: nat
  requests :: "request list"
  disk :: "string \<Rightarrow> string option"

datatype ide_event =
    Open_click string bool
  | Got_file nat
  | Got_refusal nat
  | Got_body nat
  | Got_network_error nat
  | Edit string
  | Save_key
  | Vm_writes nat
  | Got_put_ok nat
  | Got_put_refusal nat
  | Clear_status

definition boot :: "(string \<Rightarrow> string option) \<Rightarrow> ide" where
  "boot d =
     \<lparr>models = [Initial_uri \<mapsto> \<lparr>m_text = [], m_lang = Lang ''plaintext''\<rparr>],
      attached = Initial_uri, currentPath = None, dirty = False,
      no_file_shown = True, container_shown = False, save_disabled = True,
      bar_text = ''No file open'', bar_dirty = False, status_text = Status_blank,
      highlighted = None, alerts = 0, clear_timers = 0, requests = [], disk = d\<rparr>"

section \<open>Handlers\<close>

text \<open>\<^verbatim>\<open>s.replace(pat, rep)\<close> with a string pattern: the first occurrence only.\<close>

fun replace_first :: "string \<Rightarrow> string \<Rightarrow> string \<Rightarrow> string" where
  "replace_first pat rep [] = (if pat = [] then rep else [])"
| "replace_first pat rep (c # cs) =
     (if starts_with pat (c # cs) then rep @ drop (length pat) (c # cs)
      else c # replace_first pat rep cs)"

text \<open>\<^verbatim>\<open>null\<close> and the empty string are falsy.\<close>

definition truthy_path :: "string option \<Rightarrow> bool" where
  "truthy_path q = (case q of None \<Rightarrow> False | Some p \<Rightarrow> p \<noteq> [])"

definition updateBar :: "ide \<Rightarrow> ide" where
  "updateBar s =
     s\<lparr>bar_text := (if truthy_path (currentPath s)
                   then replace_first ''/root/'' ''~/'' (the (currentPath s))
                   else ''No file open''),
       bar_dirty := dirty s\<rparr>"

definition setStatus :: "save_status \<Rightarrow> ide \<Rightarrow> ide" where
  "setStatus msg s = s\<lparr>status_text := msg\<rparr>"

definition highlightActive :: "string \<Rightarrow> ide \<Rightarrow> ide" where
  "highlightActive path s = s\<lparr>highlighted := Some path\<rparr>"

definition shown_text :: "ide \<Rightarrow> string" where
  "shown_text s = (case models s (attached s) of None \<Rightarrow> [] | Some m \<Rightarrow> m_text m)"

text \<open>\<^verbatim>\<open>onDidChangeModelContent\<close>, after an edit gave the attached model the text \<open>t\<close>.\<close>

definition on_edit :: "string \<Rightarrow> ide \<Rightarrow> ide" where
  "on_edit t s =
     (let s1 = s\<lparr>models := (models s)(attached s := map_option (m_text_update (\<lambda>_. t)) (models s (attached s)))\<rparr>
      in if \<not> dirty s1 then updateBar (s1\<lparr>dirty := True\<rparr>) else s1)"

text \<open>\<^verbatim>\<open>openFile\<close> up to its first \<^verbatim>\<open>await\<close>; \<open>confirmed\<close> is the answer to the dialog.\<close>

definition openFile :: "string \<Rightarrow> bool \<Rightarrow> ide \<Rightarrow> ide" where
  "openFile path confirmed s =
     (if dirty s \<and> truthy_path (currentPath s) \<and> \<not> confirmed then s
      else s\<lparr>requests := requests s @ [Open_wait path]\<rparr>)"

text \<open>
  \<^verbatim>\<open>openFile\<close> after \<^verbatim>\<open>res.text()\<close>. If the URI is registered, \<^verbatim>\<open>createModel\<close> throws and the rest
  of the function does not run; the assignments before it stay.
\<close>

definition openFile_finish :: "string \<Rightarrow> string \<Rightarrow> ide \<Rightarrow> ide" where
  "openFile_finish path text s =
     (let s1 = s\<lparr>currentPath := Some path, dirty := False, no_file_shown := False,
                 container_shown := True, save_disabled := False\<rparr>;
          u = File_uri path
      in case models s1 u of
           Some _ \<Rightarrow> s1
         | None \<Rightarrow>
             (let old = attached s1;
                  s2 = s1\<lparr>models := (models s1)(u \<mapsto> \<lparr>m_text = text, m_lang = getLang path\<rparr>),
                          attached := u\<rparr>;
                  s3 = s2\<lparr>models := (models s2)(old := None)\<rparr>
              in highlightActive path (updateBar s3)))"

definition saveFile :: "ide \<Rightarrow> ide" where
  "saveFile s =
     (if \<not> truthy_path (currentPath s) then s
      else (let s1 = setStatus Status_saving (s\<lparr>save_disabled := True\<rparr>)
            in s1\<lparr>requests := requests s1 @ [Put_wait (the (currentPath s)) (shown_text s) False]\<rparr>))"

text \<open>\<^verbatim>\<open>saveFile\<close> after its \<^verbatim>\<open>await\<close>: a good answer, or a bad one or an exception.\<close>

definition saveFile_ok :: "ide \<Rightarrow> ide" where
  "saveFile_ok s =
     (let s1 = setStatus Status_saved (updateBar (s\<lparr>dirty := False\<rparr>))
      in s1\<lparr>clear_timers := Suc (clear_timers s1), save_disabled := False\<rparr>)"

definition saveFile_failed :: "ide \<Rightarrow> ide" where
  "saveFile_failed s = (setStatus Status_failed s)\<lparr>save_disabled := False\<rparr>"

section \<open>The machine\<close>

definition answered :: "nat \<Rightarrow> ide \<Rightarrow> ide" where
  "answered i s = s\<lparr>requests := remove_at i (requests s)\<rparr>"

text \<open>The request an answer is for, if there is one.\<close>

definition pending :: "ide \<Rightarrow> nat \<Rightarrow> request option" where
  "pending s i = (if i < length (requests s) then Some (requests s ! i) else None)"

text \<open>
  An event that cannot happen (an answer to no request) leaves the state as it is. The VM
  answers a read with what its disk holds, and refuses a path without a file. Reading the
  body or the network may fail at any time: \<^verbatim>\<open>openFile\<close> then ends with an unhandled
  rejection, \<^verbatim>\<open>saveFile\<close> in its \<^verbatim>\<open>catch\<close>.
\<close>

definition ide_step :: "ide \<Rightarrow> ide_event \<Rightarrow> ide" where
  "ide_step s e =
     (case e of
        Open_click p c \<Rightarrow> openFile p c s
      | Edit t \<Rightarrow> if container_shown s then on_edit t s else s
      | Save_key \<Rightarrow> saveFile s
      | Clear_status \<Rightarrow>
          (if clear_timers s = 0 then s
           else setStatus Status_blank (s\<lparr>clear_timers := clear_timers s - 1\<rparr>))
      | Got_file i \<Rightarrow>
          (case pending s i of
             Some (Open_wait p) \<Rightarrow>
               (case disk s p of
                  None \<Rightarrow> (answered i s)\<lparr>alerts := Suc (alerts s)\<rparr>
                | Some t \<Rightarrow> s\<lparr>requests := (requests s)[i := Open_body p t]\<rparr>)
           | _ \<Rightarrow> s)
      | Got_refusal i \<Rightarrow>
          (case pending s i of
             Some (Open_wait p) \<Rightarrow> (answered i s)\<lparr>alerts := Suc (alerts s)\<rparr>
           | _ \<Rightarrow> s)
      | Got_body i \<Rightarrow>
          (case pending s i of
             Some (Open_body p t) \<Rightarrow> openFile_finish p t (answered i s)
           | _ \<Rightarrow> s)
      | Vm_writes i \<Rightarrow>
          (case pending s i of
             Some (Put_wait p c False) \<Rightarrow>
               s\<lparr>disk := (disk s)(p \<mapsto> c), requests := (requests s)[i := Put_wait p c True]\<rparr>
           | _ \<Rightarrow> s)
      | Got_put_ok i \<Rightarrow>
          (case pending s i of
             Some (Put_wait p c True) \<Rightarrow> saveFile_ok (answered i s)
           | _ \<Rightarrow> s)
      | Got_put_refusal i \<Rightarrow>
          (case pending s i of
             Some (Put_wait p c w) \<Rightarrow> saveFile_failed (answered i s)
           | _ \<Rightarrow> s)
      | Got_network_error i \<Rightarrow>
          (case pending s i of
             Some (Put_wait p c w) \<Rightarrow> saveFile_failed (answered i s)
           | Some _ \<Rightarrow> answered i s
           | None \<Rightarrow> s))"

abbreviation ide_run :: "(string \<Rightarrow> string option) \<Rightarrow> ide_event list \<Rightarrow> ide" where
  "ide_run d es \<equiv> foldl ide_step (boot d) es"

lemmas ide_handlers =
  openFile_def saveFile_def saveFile_ok_def saveFile_failed_def answered_def
  setStatus_def updateBar_def highlightActive_def on_edit_def pending_def

section \<open>The registry of text models\<close>

definition registry_inv :: "ide \<Rightarrow> bool" where
  "registry_inv s \<longleftrightarrow>
     (\<exists>m. models s = [attached s \<mapsto> m]) \<and>
     attached s = (case currentPath s of None \<Rightarrow> Initial_uri | Some p \<Rightarrow> File_uri p)"

lemma registry_boot: "registry_inv (boot d)"
  by (auto simp: registry_inv_def boot_def)

text \<open>Handlers that touch neither models nor the path keep the invariant.\<close>

lemma registry_cong:
  "models t = models s \<Longrightarrow> attached t = attached s \<Longrightarrow> currentPath t = currentPath s \<Longrightarrow>
   registry_inv t \<longleftrightarrow> registry_inv s"
  by (simp add: registry_inv_def)

lemma registry_answered [simp]: "registry_inv (answered i s) \<longleftrightarrow> registry_inv s"
  by (rule registry_cong) (simp_all add: answered_def)

lemma registry_edit: "registry_inv s \<Longrightarrow> registry_inv (on_edit t s)"
  by (auto simp: registry_inv_def on_edit_def updateBar_def Let_def)

lemma registry_open: "registry_inv s \<Longrightarrow> registry_inv (openFile p c s)"
  by (auto simp: openFile_def elim: registry_cong [THEN iffD1, rotated -1])

lemma registry_finish: "registry_inv s \<Longrightarrow> registry_inv (openFile_finish p t s)"
  by (auto simp: registry_inv_def openFile_finish_def Let_def updateBar_def highlightActive_def
      split: option.splits if_splits)

lemma registry_save:
  "registry_inv s \<Longrightarrow> registry_inv (saveFile s)"
  "registry_inv s \<Longrightarrow> registry_inv (saveFile_ok s)"
  "registry_inv s \<Longrightarrow> registry_inv (saveFile_failed s)"
  by (erule registry_cong [THEN iffD1, rotated -1];
      simp add: saveFile_def saveFile_ok_def saveFile_failed_def setStatus_def updateBar_def Let_def)+

lemma registry_step: "registry_inv s \<Longrightarrow> registry_inv (ide_step s e)"
proof (cases e)
  case (Got_file i)
  then show "registry_inv s \<Longrightarrow> ?thesis"
    by (elim registry_cong [THEN iffD1, rotated -1])
      (auto simp: ide_step_def answered_def split: option.splits request.splits)
next
  case (Vm_writes i)
  then show "registry_inv s \<Longrightarrow> ?thesis"
    by (elim registry_cong [THEN iffD1, rotated -1])
      (auto simp: ide_step_def split: option.splits request.splits bool.splits)
next
  case (Got_refusal i)
  then show "registry_inv s \<Longrightarrow> ?thesis"
    by (elim registry_cong [THEN iffD1, rotated -1])
      (auto simp: ide_step_def answered_def split: option.splits request.splits)
next
  case Clear_status
  then show "registry_inv s \<Longrightarrow> ?thesis"
    by (elim registry_cong [THEN iffD1, rotated -1])
      (auto simp: ide_step_def setStatus_def)
qed (auto simp: ide_step_def registry_open registry_edit registry_finish registry_save
      split: option.splits request.splits bool.splits)

interpretation ide_registry: guarded_machine ide_step "\<lambda>_ _. True" registry_inv
  by unfold_locales (rule registry_step)

section \<open>Runs in which the user waits for the answers\<close>

text \<open>
  A calm user acts only while no request is in flight, and does not open the file that is
  already shown while it has unsaved edits. In such runs a clean editor shows what the disk
  holds.
\<close>

fun calm :: "ide \<Rightarrow> ide_event \<Rightarrow> bool" where
  "calm s (Open_click p c) = (requests s = [] \<and> \<not> (dirty s \<and> currentPath s = Some p))"
| "calm s (Edit t) = (requests s = [])"
| "calm s Save_key = (requests s = [])"
| "calm s e = True"

definition clean_is_saved :: "ide \<Rightarrow> bool" where
  "clean_is_saved s \<longleftrightarrow>
     (\<not> dirty s \<longrightarrow> (case currentPath s of None \<Rightarrow> True | Some p \<Rightarrow> disk s p = Some (shown_text s)))"

fun request_ok :: "ide \<Rightarrow> request \<Rightarrow> bool" where
  "request_ok s (Open_wait q) = (dirty s \<longrightarrow> currentPath s \<noteq> Some q)"
| "request_ok s (Open_body q t) = ((dirty s \<longrightarrow> currentPath s \<noteq> Some q) \<and> disk s q = Some t)"
| "request_ok s (Put_wait q c w) =
     (currentPath s = Some q \<and> c = shown_text s \<and> (w \<longrightarrow> disk s q = Some c))"

definition calm_inv :: "ide \<Rightarrow> bool" where
  "calm_inv s \<longleftrightarrow>
     registry_inv s \<and> clean_is_saved s \<and> (container_shown s \<longleftrightarrow> currentPath s \<noteq> None) \<and>
     (requests s = [] \<or> (\<exists>r. requests s = [r] \<and> request_ok s r))"

lemma calm_boot: "calm_inv (boot d)"
  using registry_boot [of d] by (simp add: calm_inv_def clean_is_saved_def) (simp add: boot_def)

lemma shown_text_registry: "models s = [attached s \<mapsto> m] \<Longrightarrow> shown_text s = m_text m"
  by (simp add: shown_text_def)

lemma shown_text_cong:
  "models t = models s \<Longrightarrow> attached t = attached s \<Longrightarrow> shown_text t = shown_text s"
  by (simp add: shown_text_def)

lemma pending_single:
  "calm_inv s \<Longrightarrow> pending s i = Some r \<Longrightarrow> i = 0 \<and> requests s = [r] \<and> request_ok s r"
  by (auto simp: calm_inv_def pending_def split: if_splits)

lemma request_ok_cong:
  "models t = models s \<Longrightarrow> attached t = attached s \<Longrightarrow> currentPath t = currentPath s \<Longrightarrow>
   dirty t = dirty s \<Longrightarrow> disk t = disk s \<Longrightarrow> request_ok t r \<longleftrightarrow> request_ok s r"
  by (cases r) (simp_all add: shown_text_def)

lemma calm_finish:
  assumes "calm_inv s" "requests s = [Open_body p t]" "request_ok s (Open_body p t)"
  shows "calm_inv (openFile_finish p t (answered 0 s))"
proof -
  have r: "registry_inv (openFile_finish p t (answered 0 s))"
    using assms(1) by (simp add: calm_inv_def registry_finish)
  show ?thesis
    using assms r
    by (auto simp: calm_inv_def clean_is_saved_def registry_inv_def openFile_finish_def answered_def
        Let_def updateBar_def highlightActive_def shown_text_def split: option.splits if_splits)
qed

lemma calm_edit:
  assumes "calm_inv s" "requests s = []" "container_shown s"
  shows "calm_inv (on_edit t s)"
proof -
  have "registry_inv (on_edit t s)"
    using assms(1) by (simp add: calm_inv_def registry_edit)
  then show ?thesis
    using assms by (auto simp: calm_inv_def clean_is_saved_def on_edit_def updateBar_def Let_def)
qed

lemma calm_save:
  assumes "calm_inv s" "requests s = []"
  shows "calm_inv (saveFile s)"
proof -
  have r: "registry_inv (saveFile s)"
    using assms(1) by (simp add: calm_inv_def registry_save)
  have sh: "shown_text (saveFile s) = shown_text s"
    by (rule shown_text_cong) (simp_all add: saveFile_def setStatus_def Let_def)
  show ?thesis
    using assms r sh
    by (auto simp: calm_inv_def clean_is_saved_def saveFile_def setStatus_def Let_def
        truthy_path_def split: option.splits if_splits)
qed

lemma calm_answers:
  assumes "calm_inv s" "requests s = [r]" "request_ok s r"
  shows "calm_inv ((answered 0 s)\<lparr>alerts := n\<rparr>)"
    and "calm_inv (answered 0 s)"
    and "r = Put_wait p c True \<Longrightarrow> calm_inv (saveFile_ok (answered 0 s))"
    and "calm_inv (saveFile_failed (answered 0 s))"
  using assms
  by (auto simp: calm_inv_def clean_is_saved_def registry_inv_def answered_def saveFile_ok_def
      saveFile_failed_def setStatus_def updateBar_def shown_text_def Let_def split: option.splits)

lemma calm_progress:
  assumes "calm_inv s"
  shows "requests s = [Open_wait p] \<Longrightarrow> request_ok s (Open_wait p) \<Longrightarrow> disk s p = Some t \<Longrightarrow>
           calm_inv (s\<lparr>requests := [Open_body p t]\<rparr>)"
    and "requests s = [Put_wait p c False] \<Longrightarrow> request_ok s (Put_wait p c False) \<Longrightarrow>
           calm_inv (s\<lparr>disk := (disk s)(p \<mapsto> c), requests := [Put_wait p c True]\<rparr>)"
    and "calm_inv (setStatus Status_blank (s\<lparr>clear_timers := n\<rparr>))"
  using assms request_ok_cong [of "setStatus Status_blank (s\<lparr>clear_timers := n\<rparr>)" s]
  by (auto simp: calm_inv_def clean_is_saved_def registry_inv_def shown_text_def setStatus_def
      split: option.splits)

lemma calm_open:
  assumes "calm_inv s" "requests s = []" "\<not> (dirty s \<and> currentPath s = Some p)"
  shows "calm_inv (openFile p c s)"
  using assms
  by (auto simp: calm_inv_def clean_is_saved_def registry_inv_def openFile_def shown_text_def
      split: option.splits)

text \<open>An answer in a calm state is for the one request in flight.\<close>

lemma calm_step_answer:
  assumes s: "calm_inv s" and r: "requests s = [r]" "request_ok s r"
  shows "calm_inv (ide_step s (Got_file 0))" "calm_inv (ide_step s (Got_refusal 0))"
    "calm_inv (ide_step s (Got_body 0))" "calm_inv (ide_step s (Got_network_error 0))"
    "calm_inv (ide_step s (Vm_writes 0))" "calm_inv (ide_step s (Got_put_ok 0))"
    "calm_inv (ide_step s (Got_put_refusal 0))"
  using r s calm_answers [OF s r] calm_finish [OF s] calm_progress [OF s]
  by (cases r; simp add: ide_step_def pending_def split: option.split bool.split)+

lemma calm_step:
  assumes s: "calm_inv s" and g: "calm s e"
  shows "calm_inv (ide_step s e)"
proof -
  have ans: "pending s i = None \<or> i = 0 \<and> (\<exists>r. requests s = [r] \<and> request_ok s r)" for i
    using pending_single [OF s, of i] by (cases "pending s i") auto
  show ?thesis
  proof (cases e)
    case (Got_file i)
    then show ?thesis using ans [of i] s calm_step_answer(1) [OF s] by (auto simp: ide_step_def)
  next
    case (Got_refusal i)
    then show ?thesis using ans [of i] s calm_step_answer(2) [OF s] by (auto simp: ide_step_def)
  next
    case (Got_body i)
    then show ?thesis using ans [of i] s calm_step_answer(3) [OF s] by (auto simp: ide_step_def)
  next
    case (Got_network_error i)
    then show ?thesis using ans [of i] s calm_step_answer(4) [OF s] by (auto simp: ide_step_def)
  next
    case (Vm_writes i)
    then show ?thesis using ans [of i] s calm_step_answer(5) [OF s] by (auto simp: ide_step_def)
  next
    case (Got_put_ok i)
    then show ?thesis using ans [of i] s calm_step_answer(6) [OF s] by (auto simp: ide_step_def)
  next
    case (Got_put_refusal i)
    then show ?thesis using ans [of i] s calm_step_answer(7) [OF s] by (auto simp: ide_step_def)
  qed (use s g in \<open>auto simp: ide_step_def calm_open calm_edit calm_save calm_progress(3)\<close>)
qed

interpretation calm_ide: guarded_machine ide_step calm calm_inv
  by unfold_locales (rule calm_step)

section \<open>Where the texts on the disk come from\<close>

text \<open>The user pressed save while \<open>c\<close> was the text shown for \<open>p\<close>.\<close>

definition saved_in :: "(string \<Rightarrow> string option) \<Rightarrow> ide_event list \<Rightarrow> string \<Rightarrow> string \<Rightarrow> bool" where
  "saved_in d es p c \<longleftrightarrow>
     (\<exists>es1 es2. es = es1 @ Save_key # es2 \<and> currentPath (ide_run d es1) = Some p \<and>
        shown_text (ide_run d es1) = c)"

definition provenance :: "(string \<Rightarrow> string option) \<Rightarrow> ide_event list \<Rightarrow> ide \<Rightarrow> bool" where
  "provenance d es s \<longleftrightarrow>
     (\<forall>p. disk s p = d p \<or> (\<exists>c. disk s p = Some c \<and> saved_in d es p c)) \<and>
     (\<forall>p c w. Put_wait p c w \<in> set (requests s) \<longrightarrow> saved_in d es p c)"

lemma saved_in_snoc: "saved_in d es p c \<Longrightarrow> saved_in d (es @ [e]) p c"
  by (force simp: saved_in_def)

lemma saved_in_now:
  "currentPath (ide_run d es) = Some p \<Longrightarrow> saved_in d (es @ [Save_key]) p (shown_text (ide_run d es))"
  by (force simp: saved_in_def)

lemma pending_mem: "pending s i = Some r \<Longrightarrow> r \<in> set (requests s)"
  by (auto simp: pending_def split: if_splits)

text \<open>A step that writes nothing and sends no new request keeps the provenance.\<close>

lemma provenance_frame:
  assumes "provenance d es s" "disk t = disk s"
    and "\<And>p c w. Put_wait p c w \<in> set (requests t) \<Longrightarrow> \<exists>w'. Put_wait p c w' \<in> set (requests s)"
  shows "provenance d (es @ [e]) t"
  using assms saved_in_snoc unfolding provenance_def by metis

lemma handler_frames [simp]:
  "disk (openFile p c s) = disk s" "disk (openFile_finish p t s) = disk s" "disk (saveFile s) = disk s"
  "disk (saveFile_ok s) = disk s" "disk (saveFile_failed s) = disk s" "disk (answered i s) = disk s"
  "disk (on_edit t s) = disk s" "disk (setStatus m s) = disk s"
  "requests (openFile_finish p t s) = requests s" "requests (saveFile_ok s) = requests s"
  "requests (saveFile_failed s) = requests s" "requests (on_edit t s) = requests s"
  "requests (setStatus m s) = requests s" "requests (answered i s) = remove_at i (requests s)"
  by (simp_all add: ide_handlers openFile_finish_def Let_def split: option.splits)

lemma requests_openFile: "Put_wait q t w \<in> set (requests (openFile p c s)) \<Longrightarrow> Put_wait q t w \<in> set (requests s)"
  by (auto simp: openFile_def split: if_splits)

lemma put_removed: "Put_wait p c w \<in> set (remove_at i xs) \<Longrightarrow> Put_wait p c w \<in> set xs"
  using set_remove_at by fast

lemma put_updated:
  "Put_wait p c w \<in> set (xs[i := Open_body q t]) \<Longrightarrow> Put_wait p c w \<in> set xs"
  using set_update_subset_insert [of xs i] by fastforce

lemma provenance_save:
  assumes "provenance d es (ide_run d es)"
  shows "provenance d (es @ [Save_key]) (saveFile (ide_run d es))"
proof -
  let ?s = "ide_run d es"
  have "saved_in d (es @ [Save_key]) p c" if "Put_wait p c w \<in> set (requests (saveFile ?s))" for p c w
  proof (cases "Put_wait p c w \<in> set (requests ?s)")
    case True
    then show ?thesis using assms saved_in_snoc unfolding provenance_def by metis
  next
    case False
    then have "currentPath ?s = Some p" "c = shown_text ?s"
      using that by (auto simp: saveFile_def truthy_path_def Let_def split: if_splits option.splits)
    then show ?thesis using saved_in_now by blast
  qed
  then show ?thesis
    using assms saved_in_snoc unfolding provenance_def handler_frames by metis
qed

lemma provenance_write:
  assumes "provenance d es s" "pending s i = Some (Put_wait p c False)"
  shows "provenance d (es @ [e]) (s\<lparr>disk := (disk s)(p \<mapsto> c), requests := (requests s)[i := Put_wait p c True]\<rparr>)"
proof -
  have pc: "saved_in d es p c"
    using assms(1) pending_mem [OF assms(2)] unfolding provenance_def by metis
  have "saved_in d es q t" if "Put_wait q t w \<in> set ((requests s)[i := Put_wait p c True])" for q t w
    using that assms(1) pc set_update_subset_insert [of "requests s" i "Put_wait p c True"]
    unfolding provenance_def by blast
  then show ?thesis
    using assms(1) pc saved_in_snoc unfolding provenance_def by auto
qed

lemma provenance_step:
  assumes "provenance d es (ide_run d es)"
  shows "provenance d (es @ [e]) (ide_run d (es @ [e]))"
  using assms
  by (cases e)
    ((auto simp: ide_step_def provenance_save provenance_write
       intro!: provenance_frame [OF assms]
       split: option.splits request.splits bool.splits)?,
     (blast dest: requests_openFile put_removed put_updated)+)

lemma provenance_run: "provenance d es (ide_run d es)"
proof (induction es rule: rev_induct)
  case Nil
  then show ?case by (simp add: provenance_def boot_def)
next
  case (snoc e es)
  then show ?case by (rule provenance_step)
qed

section \<open>Properties\<close>

text \<open>
  C4: whatever the user does and in whatever order the answers arrive, the disk of the VM
  only ever receives texts that the editor was showing for that very path when the user
  pressed save; every other file keeps its first content.
\<close>

theorem save_writes_shown_text:
  "disk (ide_run d es) p = d p \<or>
   (\<exists>es1 es2. es = es1 @ Save_key # es2 \<and> currentPath (ide_run d es1) = Some p \<and>
      disk (ide_run d es) p = Some (shown_text (ide_run d es1)))"
  using provenance_run [of d es] unfolding provenance_def saved_in_def by metis


definition sample_disk :: "string \<Rightarrow> string option" where
  "sample_disk = [''/root/a.py'' \<mapsto> ''x'', ''/root/b.py'' \<mapsto> ''y'']"

definition sample_run :: "ide_event list" where
  "sample_run =
     [Open_click ''/root/a.py'' True, Got_file 0, Got_body 0, Edit ''xx'', Save_key, Vm_writes 0, Got_put_ok 0]"

lemmas ide_eval =
  ide_step_def ide_handlers openFile_finish_def boot_def shown_text_def truthy_path_def Let_def
  sample_disk_def sample_run_def remove_at_def


text \<open>
  in every run exactly one text model is registered, the attached one, and it belongs
  to the path the page calls open: disposing the old model on each open leaks nothing and
  never disposes the shown one.
\<close>

theorem one_model_registered:
  "\<exists>m. models (ide_run d es) = [attached (ide_run d es) \<mapsto> m] \<and>
     attached (ide_run d es) =
       (case currentPath (ide_run d es) of None \<Rightarrow> Initial_uri | Some p \<Rightarrow> File_uri p)"
  using ide_registry.run_inv [OF registry_boot [of d], of es] by (auto simp: registry_inv_def)

text \<open>
  an edit made while a save is in flight is marked clean by the answer: the editor then
  shows a text the disk does not hold, nothing on the page says so, and opening another
  file discards the text without the question.
\<close>

theorem edit_during_save_marked_clean:
  assumes "registry_inv s" "container_shown s" "currentPath s = Some p"
    "pending s i = Some (Put_wait p c True)" "disk s p = Some c" "t \<noteq> c"
  shows "let s' = foldl ide_step s [Edit t, Got_put_ok i]
         in \<not> dirty s' \<and> \<not> bar_dirty s' \<and> status_text s' = Status_saved \<and>
            shown_text s' = t \<and> disk s' p \<noteq> Some (shown_text s') \<and>
            requests (ide_step s' (Open_click q False)) = requests s' @ [Open_wait q]"
  using assms
  by (auto simp: ide_step_def ide_handlers registry_inv_def shown_text_def Let_def split: if_splits)

definition sample_saving :: ide where
  "sample_saving = ide_run sample_disk (take 6 sample_run)"

theorem edit_during_save_marked_clean_witness:
  "let s' = foldl ide_step sample_saving [Edit ''xyz'', Got_put_ok 0]
   in \<not> dirty s' \<and> \<not> bar_dirty s' \<and> status_text s' = Status_saved \<and>
      shown_text s' = ''xyz'' \<and> disk s' ''/root/a.py'' \<noteq> Some (shown_text s') \<and>
      requests (ide_step s' (Open_click ''/root/b.py'' False)) = requests s' @ [Open_wait ''/root/b.py'']"
proof (rule edit_during_save_marked_clean)
  show "registry_inv sample_saving"
    unfolding sample_saving_def by (rule ide_registry.run_inv [OF registry_boot]) simp
  show "pending sample_saving 0 = Some (Put_wait ''/root/a.py'' ''xx'' True)"
    by (simp add: sample_saving_def ide_eval)
qed (simp_all add: sample_saving_def ide_eval)

text \<open>
  opening the file that is already shown never reloads it: \<^verbatim>\<open>createModel\<close> throws, the
  text stays, the bar stays as it was, and unsaved edits lose their dirty mark.
\<close>

theorem reopen_clears_dirty:
  assumes "registry_inv s" "currentPath s = Some p" "pending s i = Some (Open_body p t)"
  shows "let s' = ide_step s (Got_body i)
         in shown_text s' = shown_text s \<and> \<not> dirty s' \<and> bar_dirty s' = bar_dirty s \<and>
            disk s' = disk s \<and> models s' = models s"
  using assms
  by (auto simp: ide_step_def openFile_finish_def answered_def registry_inv_def shown_text_def Let_def)

definition sample_reopening :: ide where
  "sample_reopening =
     ide_run sample_disk (take 4 sample_run @ [Open_click ''/root/a.py'' True, Got_file 0])"

theorem reopen_clears_dirty_witness:
  "let s' = ide_step sample_reopening (Got_body 0)
   in shown_text s' = shown_text sample_reopening \<and> \<not> dirty s' \<and>
      bar_dirty s' = bar_dirty sample_reopening \<and> disk s' = disk sample_reopening \<and>
      models s' = models sample_reopening"
proof (rule reopen_clears_dirty)
  show "registry_inv sample_reopening"
    unfolding sample_reopening_def by (rule ide_registry.run_inv [OF registry_boot]) simp
  show "pending sample_reopening 0 = Some (Open_body ''/root/a.py'' ''x'')"
    by (simp add: sample_reopening_def ide_eval)
qed (simp add: sample_reopening_def ide_eval)

lemma save_answered:
  assumes "calm_inv s" "requests s = []" "currentPath s = Some p" "p \<noteq> []"
  shows "let s' = foldl ide_step s [Save_key, Vm_writes 0, Got_put_ok 0]
         in disk s' = (disk s)(p \<mapsto> shown_text s) \<and> \<not> dirty s' \<and> requests s' = [] \<and>
            currentPath s' = Some p \<and> models s' = models s \<and> attached s' = attached s \<and>
            \<not> save_disabled s'"
  using assms by (simp add: ide_step_def ide_handlers truthy_path_def Let_def)

lemma open_answered:
  assumes "registry_inv s" "requests s = []" "\<not> dirty s" "disk s q = Some u" "currentPath s \<noteq> Some q"
  shows "let s' = foldl ide_step s [Open_click q c, Got_file 0, Got_body 0]
         in shown_text s' = u \<and> currentPath s' = Some q \<and> \<not> dirty s' \<and> disk s' = disk s \<and>
            requests s' = [] \<and> registry_inv s' \<and> \<not> bar_dirty s' \<and> container_shown s'"
proof -
  obtain m where m: "models s = [attached s \<mapsto> m]" "attached s \<noteq> File_uri q"
    using assms(1,5) by (auto simp: registry_inv_def split: option.splits)
  show ?thesis
    using assms m
    by (auto simp: ide_step_def openFile_def pending_def answered_def openFile_finish_def
        updateBar_def highlightActive_def shown_text_def registry_inv_def Let_def)
qed

text \<open>
  saving and opening are inverse: after a save is answered, the disk holds the text
  shown and no other file changed; opening another file and then this one again shows the
  saved text, clean.
\<close>

theorem save_then_reopen:
  assumes "calm_inv s" "requests s = []" "currentPath s = Some p" "p \<noteq> []"
    "q \<noteq> p" "disk s q = Some u"
  shows "let s1 = foldl ide_step s [Save_key, Vm_writes 0, Got_put_ok 0];
             s2 = foldl ide_step s1 [Open_click q c, Got_file 0, Got_body 0];
             s3 = foldl ide_step s2 [Open_click p c', Got_file 0, Got_body 0]
         in disk s1 = (disk s)(p \<mapsto> shown_text s) \<and> shown_text s2 = u \<and>
            shown_text s3 = shown_text s \<and> currentPath s3 = Some p \<and> \<not> dirty s3 \<and> disk s3 = disk s1"
proof -
  define s1 where "s1 = foldl ide_step s [Save_key, Vm_writes 0, Got_put_ok 0]"
  define s2 where "s2 = foldl ide_step s1 [Open_click q c, Got_file 0, Got_body 0]"
  define s3 where "s3 = foldl ide_step s2 [Open_click p c', Got_file 0, Got_body 0]"
  have r: "registry_inv s1"
    unfolding s1_def using assms(1) by (intro ide_registry.run_inv) (simp_all add: calm_inv_def)
  have 1: "disk s1 = (disk s)(p \<mapsto> shown_text s)" "\<not> dirty s1" "requests s1 = []"
    "currentPath s1 = Some p"
    using save_answered [OF assms(1-4)]
    unfolding Let_def s1_def [symmetric] by blast+
  have q1: "disk s1 q = Some u" "currentPath s1 \<noteq> Some q" using 1 assms(5,6) by simp_all
  have 2: "shown_text s2 = u" "currentPath s2 = Some q" "\<not> dirty s2" "disk s2 = disk s1"
    "requests s2 = []" "registry_inv s2"
    using open_answered [OF r 1(3,2) q1, of c]
    unfolding Let_def s2_def [symmetric] by blast+
  have "disk s2 p = Some (shown_text s)" "currentPath s2 \<noteq> Some p" using 1 2 assms(5) by simp_all
  from open_answered [OF 2(6,5,3) this, of c']
  have 3: "shown_text s3 = shown_text s" "currentPath s3 = Some p" "\<not> dirty s3" "disk s3 = disk s2"
    unfolding Let_def s3_def [symmetric] by blast+
  show ?thesis
    unfolding Let_def s1_def [symmetric] s2_def [symmetric] s3_def [symmetric]
    using 1 2 3 by simp
qed

definition sample_edited :: ide where
  "sample_edited = ide_run sample_disk (take 4 sample_run)"

lemma sample_edited_calm: "calm_inv sample_edited"
  unfolding sample_edited_def by (rule calm_ide.run_inv [OF calm_boot]) (simp add: ide_eval)

theorem save_then_reopen_witness:
  "let s1 = foldl ide_step sample_edited [Save_key, Vm_writes 0, Got_put_ok 0];
       s2 = foldl ide_step s1 [Open_click ''/root/b.py'' True, Got_file 0, Got_body 0];
       s3 = foldl ide_step s2 [Open_click ''/root/a.py'' True, Got_file 0, Got_body 0]
   in disk s1 = (disk sample_edited)(''/root/a.py'' \<mapsto> shown_text sample_edited) \<and>
      shown_text s2 = ''y'' \<and> shown_text s3 = shown_text sample_edited \<and>
      currentPath s3 = Some ''/root/a.py'' \<and> \<not> dirty s3 \<and> disk s3 = disk s1"
  by (rule save_then_reopen [OF sample_edited_calm]) (simp_all add: sample_edited_def ide_eval)

text \<open>
  the save key is not held back while a save is in flight: of two saves of one file
  the VM may write the second first, and then the disk keeps the older text while the
  editor shows the newer one and is marked clean.
\<close>

theorem two_saves_out_of_order:
  assumes "calm_inv s" "requests s = []" "currentPath s = Some p" "p \<noteq> []" "t \<noteq> shown_text s"
  shows "let s' = foldl ide_step s
                    [Save_key, Edit t, Save_key, Vm_writes 1, Vm_writes 0, Got_put_ok 0, Got_put_ok 0]
         in disk s' p = Some (shown_text s) \<and> shown_text s' = t \<and> \<not> dirty s' \<and> \<not> bar_dirty s' \<and>
            requests s' = []"
proof -
  obtain m where "models s = [attached s \<mapsto> m]" "container_shown s"
    using assms(1,3) by (auto simp: calm_inv_def registry_inv_def)
  then show ?thesis
    using assms(2-5)
    by (cases "dirty s")
      (simp_all add: ide_step_def ide_handlers truthy_path_def shown_text_def remove_at_def Let_def
        del: replace_first.simps)
qed

theorem two_saves_out_of_order_witness:
  "let s' = foldl ide_step sample_edited
              [Save_key, Edit ''xyz'', Save_key, Vm_writes 1, Vm_writes 0, Got_put_ok 0, Got_put_ok 0]
   in disk s' ''/root/a.py'' = Some (shown_text sample_edited) \<and> shown_text s' = ''xyz'' \<and>
      \<not> dirty s' \<and> \<not> bar_dirty s' \<and> requests s' = []"
  by (rule two_saves_out_of_order [OF sample_edited_calm]) (simp_all add: sample_edited_def ide_eval)

end
