(* ===== verification/Ide_Tree.thy ===== *)
theory Ide_Tree
  imports File_Kinds
begin

text \<open>
  The file tree of the web IDE (\<^verbatim>\<open>navigateTo\<close>, \<^verbatim>\<open>loadTree\<close>, the click handlers it installs and
  \<^verbatim>\<open>highlightActive\<close> of \<^verbatim>\<open>web/ide-src/src/main.js\<close>).

  The elements the tree appends items to are numbered: \<open>0\<close> is \<^verbatim>\<open>#tree\<close>, every other number is
  the \<^verbatim>\<open>children\<close> element of a directory. The click handler of a directory is a closure
  over that element, the path and the depth; \<open>nodes\<close> keeps what it captured and whether the
  element has the class \<^verbatim>\<open>open\<close>. A call of \<^verbatim>\<open>loadTree\<close> is pending from its \<^verbatim>\<open>fetch\<close> to the
  answer, which the event carries. Emptying \<^verbatim>\<open>#tree\<close> detaches the elements below it; they
  stay in the state, where pending loads still write to them, but no page shows them.
\<close>

section \<open>Data\<close>

record entry =
  e_name :: string
  e_path :: string
  e_type :: string

datatype glyph = Folder_glyph | Text_glyph "string option"

datatype arrow = Arrow_right | Arrow_down

record item =
  it_name :: string
  it_path :: string
  it_type :: string
  it_padding :: nat
  it_badge_class :: string
  it_badge :: glyph
  it_active :: bool
  it_children :: "nat option"

record dir_node =
  d_path :: string
  d_depth :: nat
  d_open :: bool
  d_arrow :: arrow

datatype load = Load string nat nat

record tree =
  path_input :: string
  elements :: "nat \<Rightarrow> item list"
  nodes :: "nat \<Rightarrow> dir_node option"
  next_element :: nat
  loads :: "load list"

definition root_noise :: "string set" where
  "root_noise = {''snap'', ''proc'', ''sys'', ''dev'', ''run''}"

section \<open>Operations\<close>

definition loadTree :: "string \<Rightarrow> nat \<Rightarrow> nat \<Rightarrow> tree \<Rightarrow> tree" where
  "loadTree path k depth s = s\<lparr>loads := loads s @ [Load path k depth]\<rparr>"

definition navigateTo :: "string \<Rightarrow> tree \<Rightarrow> tree" where
  "navigateTo path s =
     (let p = (if trim path = [] then ''/root'' else trim path)
      in loadTree p 0 0 (s\<lparr>path_input := p, elements := (elements s)(0 := [])\<rparr>))"

text \<open>A template literal prints an \<^verbatim>\<open>undefined\<close> class as that word.\<close>

definition badge_class :: "icon \<Rightarrow> string" where
  "badge_class i = ''fbadge '' @ (case icon_cls i of None \<Rightarrow> ''undefined'' | Some c \<Rightarrow> c)"

definition dir_item :: "nat \<Rightarrow> nat \<Rightarrow> entry \<Rightarrow> item" where
  "dir_item depth k e =
     \<lparr>it_name = e_name e, it_path = e_path e, it_type = e_type e, it_padding = 8 + depth * 14,
      it_badge_class = ''fbadge fb-dir'', it_badge = Folder_glyph, it_active = False,
      it_children = Some k\<rparr>"

definition file_item :: "nat \<Rightarrow> entry \<Rightarrow> item" where
  "file_item depth e =
     \<lparr>it_name = e_name e, it_path = e_path e, it_type = e_type e, it_padding = 8 + depth * 14,
      it_badge_class = badge_class (fileIcon (e_name e)),
      it_badge = Text_glyph (icon_text (fileIcon (e_name e))), it_active = False,
      it_children = None\<rparr>"

text \<open>One round of the loop of \<^verbatim>\<open>loadTree\<close>: an entry is skipped, or gets an item.\<close>

definition add_entry :: "nat \<Rightarrow> nat \<Rightarrow> tree \<Rightarrow> entry \<Rightarrow> tree" where
  "add_entry k depth s e =
     (if depth = 0 \<and> e_name e \<in> root_noise then s
      else if e_type e = ''dir'' then
        (let j = next_element s
         in s\<lparr>elements := (elements s)(k := elements s k @ [dir_item depth j e]),
              nodes := (nodes s)(j \<mapsto> \<lparr>d_path = e_path e, d_depth = depth + 1, d_open = False,
                                   d_arrow = Arrow_right\<rparr>),
              next_element := j + 1\<rparr>)
      else s\<lparr>elements := (elements s)(k := elements s k @ [file_item depth e])\<rparr>)"

definition loadTree_finish :: "nat \<Rightarrow> nat \<Rightarrow> entry list \<Rightarrow> tree \<Rightarrow> tree" where
  "loadTree_finish k depth es s = foldl (add_entry k depth) s es"

text \<open>The click handler of the directory whose children element is \<open>j\<close>.\<close>

definition click_dir :: "nat \<Rightarrow> tree \<Rightarrow> tree" where
  "click_dir j s =
     (case nodes s j of
        None \<Rightarrow> s
      | Some n \<Rightarrow>
          (let opened = \<not> d_open n;
               s1 = s\<lparr>nodes := (nodes s)(j \<mapsto> n\<lparr>d_open := opened,
                                          d_arrow := (if opened then Arrow_down else Arrow_right)\<rparr>)\<rparr>
           in if opened \<and> elements s1 j = [] then loadTree (d_path n) j (d_depth n) s1 else s1))"

text \<open>\<^verbatim>\<open>highlightActive\<close>: the class \<^verbatim>\<open>active\<close> of every item is toggled to the test.\<close>

definition highlight_items :: "string \<Rightarrow> tree \<Rightarrow> tree" where
  "highlight_items path s =
     s\<lparr>elements := (\<lambda>k. map (\<lambda>i. i\<lparr>it_active := (it_path i = path)\<rparr>) (elements s k))\<rparr>"

section \<open>The machine\<close>

datatype tree_event =
    Navigate string
  | Click_dir nat
  | Got_entries nat "entry list"
  | Load_failed nat
  | Highlight string

definition blank_page :: tree where
  "blank_page =
     \<lparr>path_input = ''/root'', elements = (\<lambda>_. []), nodes = (\<lambda>_. None), next_element = 1, loads = []\<rparr>"

definition tree_boot :: tree where
  "tree_boot = navigateTo ''/root'' blank_page"

definition drop_load :: "nat \<Rightarrow> tree \<Rightarrow> tree" where
  "drop_load i s = s\<lparr>loads := take i (loads s) @ drop (Suc i) (loads s)\<rparr>"

definition tree_step :: "tree \<Rightarrow> tree_event \<Rightarrow> tree" where
  "tree_step s ev =
     (case ev of
        Navigate p \<Rightarrow> navigateTo p s
      | Click_dir j \<Rightarrow> click_dir j s
      | Highlight p \<Rightarrow> highlight_items p s
      | Got_entries i es \<Rightarrow>
          (if i < length (loads s)
           then (case loads s ! i of Load p k d \<Rightarrow> loadTree_finish k d es (drop_load i s))
           else s)
      | Load_failed i \<Rightarrow> if i < length (loads s) then drop_load i s else s)"

text \<open>What an item shows of its entry.\<close>

definition entry_of :: "item \<Rightarrow> entry" where
  "entry_of i = \<lparr>e_name = it_name i, e_path = it_path i, e_type = it_type i\<rparr>"

definition shown_entries :: "nat \<Rightarrow> entry list \<Rightarrow> entry list" where
  "shown_entries depth es = filter (\<lambda>e. \<not> (depth = 0 \<and> e_name e \<in> root_noise)) es"

definition depth_of :: "tree \<Rightarrow> nat \<Rightarrow> nat" where
  "depth_of s k = (case nodes s k of None \<Rightarrow> 0 | Some n \<Rightarrow> d_depth n)"

definition path_of :: "tree \<Rightarrow> nat \<Rightarrow> string" where
  "path_of s k = (case nodes s k of None \<Rightarrow> path_input s | Some n \<Rightarrow> d_path n)"

section \<open>The shape of the tree\<close>

text \<open>An item of element \<open>k\<close> and the closure of its directory agree.\<close>

definition item_ok :: "tree \<Rightarrow> nat \<Rightarrow> item \<Rightarrow> bool" where
  "item_ok s k i \<longleftrightarrow>
     it_padding i = 8 + depth_of s k * 14 \<and>
     (case it_children i of
        None \<Rightarrow> it_type i \<noteq> ''dir''
      | Some j \<Rightarrow> it_type i = ''dir'' \<and> nodes s j \<noteq> None \<and> path_of s j = it_path i \<and>
                  depth_of s j = depth_of s k + 1) \<and>
     (k = 0 \<longrightarrow> it_name i \<notin> root_noise)"

definition load_ok :: "tree \<Rightarrow> load \<Rightarrow> bool" where
  "load_ok s l =
     (case l of Load p k d \<Rightarrow> d = depth_of s k \<and> k < next_element s \<and> (k \<noteq> 0 \<longrightarrow> p = path_of s k))"

definition tree_wf :: "tree \<Rightarrow> bool" where
  "tree_wf s \<longleftrightarrow>
     0 < next_element s \<and>
     (\<forall>k. nodes s k \<noteq> None \<longleftrightarrow> 0 < k \<and> k < next_element s) \<and>
     (\<forall>k. 0 < k \<and> k < next_element s \<longrightarrow> 0 < depth_of s k) \<and>
     (\<forall>k. elements s k \<noteq> [] \<longrightarrow> k < next_element s) \<and>
     (\<forall>k. \<forall>i \<in> set (elements s k). item_ok s k i) \<and>
     (\<forall>l \<in> set (loads s). load_ok s l)"

lemma depth_of_root: "tree_wf s \<Longrightarrow> depth_of s k = 0 \<Longrightarrow> k < next_element s \<Longrightarrow> k = 0"
  unfolding tree_wf_def by (metis gr_zeroI less_irrefl)

text \<open>Handlers that keep the closures (up to the class \<^verbatim>\<open>open\<close>) keep what the shape talks about.\<close>

definition same_closures :: "tree \<Rightarrow> tree \<Rightarrow> bool" where
  "same_closures s t \<longleftrightarrow>
     next_element t = next_element s \<and>
     (\<forall>k. (nodes t k = None) = (nodes s k = None) \<and> depth_of t k = depth_of s k \<and>
          (nodes s k \<noteq> None \<longrightarrow> path_of t k = path_of s k))"

lemma same_closuresI: "nodes t = nodes s \<Longrightarrow> next_element t = next_element s \<Longrightarrow> same_closures s t"
  by (auto simp: same_closures_def depth_of_def path_of_def)

lemma depth_of_cong: "nodes t k = nodes s k \<Longrightarrow> depth_of t k = depth_of s k"
  by (simp add: depth_of_def)

lemma item_ok_cong: "same_closures s t \<Longrightarrow> item_ok t k i \<longleftrightarrow> item_ok s k i"
  by (auto simp: item_ok_def same_closures_def split: option.split)

lemma load_ok_cong:
  assumes "same_closures s t" "tree_wf s" shows "load_ok t l \<longleftrightarrow> load_ok s l"
  using assms by (auto simp: load_ok_def same_closures_def tree_wf_def split: load.split)

lemma same_closures_wf:
  assumes "same_closures s t" "tree_wf s"
    and "\<And>k. elements t k \<noteq> [] \<Longrightarrow> k < next_element s"
    and "\<And>k i. i \<in> set (elements t k) \<Longrightarrow> item_ok s k i"
    and "\<And>l. l \<in> set (loads t) \<Longrightarrow> load_ok s l"
  shows "tree_wf t"
  using assms item_ok_cong [OF assms(1)] load_ok_cong [OF assms(1,2)]
  by (auto simp: tree_wf_def same_closures_def)

lemma navigateTo_frame [simp]:
  "nodes (navigateTo p s) = nodes s" "next_element (navigateTo p s) = next_element s"
  "elements (navigateTo p s) = (elements s)(0 := [])"
  "loads (navigateTo p s) = loads s @ [Load (path_input (navigateTo p s)) 0 0]"
  by (simp_all add: navigateTo_def loadTree_def Let_def)

lemma wf_navigate:
  assumes s: "tree_wf s" shows "tree_wf (navigateTo p s)"
proof (rule same_closures_wf [OF _ s])
  fix l assume "l \<in> set (loads (navigateTo p s))"
  then show "load_ok s l"
    using s by (auto simp: tree_wf_def load_ok_def depth_of_def split: option.split)
qed (use s in \<open>auto simp: tree_wf_def split: if_splits intro: same_closuresI\<close>)

lemma wf_boot: "tree_wf tree_boot"
  unfolding tree_boot_def
  by (rule wf_navigate) (auto simp: tree_wf_def blank_page_def)

lemma highlight_frame [simp]:
  "nodes (highlight_items p s) = nodes s" "next_element (highlight_items p s) = next_element s"
  "loads (highlight_items p s) = loads s" "path_input (highlight_items p s) = path_input s"
  "elements (highlight_items p s) k =
     map (\<lambda>i. i\<lparr>it_active := (it_path i = p)\<rparr>) (elements s k)"
  by (simp_all add: highlight_items_def)

lemma item_ok_active [simp]: "item_ok s k (i\<lparr>it_active := b\<rparr>) \<longleftrightarrow> item_ok s k i"
  by (simp add: item_ok_def split: option.split)

lemma wf_highlight:
  assumes s: "tree_wf s" shows "tree_wf (highlight_items p s)"
  by (rule same_closures_wf [OF _ s]) (use s in \<open>auto simp: tree_wf_def intro: same_closuresI\<close>)

lemma drop_frame [simp]:
  "nodes (drop_load i s) = nodes s" "next_element (drop_load i s) = next_element s"
  "elements (drop_load i s) = elements s" "path_input (drop_load i s) = path_input s"
  by (simp_all add: drop_load_def)

lemma drop_loads: "l \<in> set (loads (drop_load i s)) \<Longrightarrow> l \<in> set (loads s)"
  by (auto simp: drop_load_def dest: in_set_takeD in_set_dropD)

lemma wf_drop:
  assumes s: "tree_wf s" shows "tree_wf (drop_load i s)"
  by (rule same_closures_wf [OF _ s])
    (use s in \<open>auto simp: tree_wf_def intro: same_closuresI dest: drop_loads\<close>)

lemma click_dir_same: "same_closures s (click_dir j s)"
  by (auto simp: same_closures_def click_dir_def loadTree_def depth_of_def path_of_def Let_def
      split: option.splits)

lemma click_dir_frame [simp]:
  "elements (click_dir j s) = elements s" "path_input (click_dir j s) = path_input s"
  by (auto simp: click_dir_def loadTree_def Let_def split: option.splits)

lemma click_dir_loads:
  "l \<in> set (loads (click_dir j s)) \<Longrightarrow>
   l \<in> set (loads s) \<or> nodes s j \<noteq> None \<and> elements s j = [] \<and> l = Load (path_of s j) j (depth_of s j)"
  by (auto simp: click_dir_def loadTree_def path_of_def depth_of_def Let_def
      split: option.splits if_splits)

lemma wf_click: "tree_wf s \<Longrightarrow> tree_wf (click_dir j s)"
  by (rule same_closures_wf [OF click_dir_same])
    (auto simp: tree_wf_def load_ok_def dest!: click_dir_loads)

text \<open>One round of the loop.\<close>

lemma add_entry_frame [simp]:
  "loads (add_entry k d s e) = loads s" "path_input (add_entry k d s e) = path_input s"
  "j < next_element s \<Longrightarrow> nodes (add_entry k d s e) j = nodes s j"
  "next_element s \<le> next_element (add_entry k d s e)"
  "j \<noteq> k \<Longrightarrow> elements (add_entry k d s e) j = elements s j"
  by (auto simp: add_entry_def Let_def)

lemma wf_add_entry:
  assumes "tree_wf s" "k < next_element s" "d = depth_of s k"
  shows "tree_wf (add_entry k d s e)"
proof -
  let ?t = "add_entry k d s e" and ?j = "next_element s"
  have nodes: "nodes ?t i = nodes s i" if "i < ?j" for i using that by simp
  have old: "item_ok ?t i x" if "x \<in> set (elements s i)" for i x
  proof -
    have "elements s i \<noteq> []" using that by auto
    then have "i < ?j" "item_ok s i x" using assms(1) that by (auto simp: tree_wf_def)
    moreover have "\<And>c. nodes s c \<noteq> None \<Longrightarrow> c < ?j" using assms(1) by (auto simp: tree_wf_def)
    ultimately show ?thesis
      using nodes by (fastforce simp: item_ok_def depth_of_def path_of_def split: option.splits)
  qed
  have loads: "load_ok ?t l" if "l \<in> set (loads s)" for l
  proof -
    have "load_ok s l" using assms(1) that by (auto simp: tree_wf_def)
    then show ?thesis
      using nodes order.strict_trans2 [OF _ add_entry_frame(4) [of s k d e]]
      by (auto simp: load_ok_def depth_of_def path_of_def split: load.splits option.splits)
  qed
  have k0: "k = 0 \<Longrightarrow> d = 0"
    using assms(1,3) by (auto simp: tree_wf_def depth_of_def)
  have dk: "depth_of ?t k = d"
    using assms(3) depth_of_cong [OF nodes [OF assms(2)]] by simp
  have shape: "x = dir_item d ?j e \<and> e_type e = ''dir'' \<or> x = file_item d e \<and> e_type e \<noteq> ''dir''"
    and noise: "\<not> (d = 0 \<and> e_name e \<in> root_noise)"
    if "x \<in> set (elements ?t k)" "x \<notin> set (elements s k)" for x
    using that by (auto simp: add_entry_def Let_def split: if_splits)
  have new: "item_ok ?t k x" if "x \<in> set (elements ?t k)" "x \<notin> set (elements s k)" for x
    using that(1) noise [OF that] shape [OF that] k0 dk
    by (auto simp: item_ok_def dir_item_def file_item_def add_entry_def depth_of_def path_of_def Let_def)
  have items: "\<forall>i. \<forall>x \<in> set (elements ?t i). item_ok ?t i x"
    using old new by (metis add_entry_frame(5))
  have closures: "\<forall>j. nodes ?t j \<noteq> None \<longleftrightarrow> 0 < j \<and> j < next_element ?t"
    using assms(1) unfolding tree_wf_def by (simp add: add_entry_def Let_def) (metis less_Suc_eq)
  have deep: "\<forall>j. 0 < j \<and> j < next_element ?t \<longrightarrow> 0 < depth_of ?t j"
    using assms(1) by (simp add: tree_wf_def add_entry_def depth_of_def Let_def)
  have "\<forall>j. elements ?t j \<noteq> [] \<longrightarrow> j < next_element ?t"
    using assms(1,2) by (simp add: tree_wf_def add_entry_def Let_def) (metis less_Suc_eq)
  moreover have "0 < next_element ?t"
    using assms(2) add_entry_frame(4) [of s k d e] by linarith
  ultimately show ?thesis
    unfolding tree_wf_def add_entry_frame(1) using closures deep items loads by blast
qed

lemma finish_Cons [simp]:
  "loadTree_finish k d [] s = s"
  "loadTree_finish k d (e # es) s = loadTree_finish k d es (add_entry k d s e)"
  by (simp_all add: loadTree_finish_def)

lemma wf_finish:
  "tree_wf s \<Longrightarrow> k < next_element s \<Longrightarrow> d = depth_of s k \<Longrightarrow> tree_wf (loadTree_finish k d es s)"
proof (induction es arbitrary: s)
  case (Cons e es)
  have "k < next_element (add_entry k d s e)"
    using Cons.prems(2) add_entry_frame(4) by (rule less_le_trans)
  moreover have "d = depth_of (add_entry k d s e) k"
    using Cons.prems(2,3) depth_of_cong [OF add_entry_frame(3)] by metis
  ultimately show ?case
    using Cons.IH [OF wf_add_entry [OF Cons.prems]] by simp
qed simp

lemma wf_step: "tree_wf s \<Longrightarrow> tree_wf (tree_step s ev)"
proof (cases ev)
  case (Got_entries i es)
  assume s: "tree_wf s"
  show ?thesis
  proof (cases "i < length (loads s)")
    case True
    obtain p k d where l: "loads s ! i = Load p k d" by (cases "loads s ! i")
    have "load_ok s (Load p k d)" using s True l nth_mem by (fastforce simp: tree_wf_def)
    then show ?thesis
      using wf_finish [OF wf_drop [OF s, of i], of k d es] depth_of_cong [of "drop_load i s" k s] True l
        Got_entries
      by (simp add: tree_step_def load_ok_def)
  qed (use s Got_entries in \<open>simp add: tree_step_def\<close>)
qed (auto simp: tree_step_def wf_navigate wf_click wf_highlight wf_drop)

interpretation tree_shape: guarded_machine tree_step "\<lambda>_ _. True" tree_wf
  by unfold_locales (rule wf_step)

section \<open>Each directory is listed once\<close>

definition load_target :: "load \<Rightarrow> nat" where
  "load_target l = (case l of Load p k d \<Rightarrow> k)"

text \<open>
  The user navigates only when the load of \<^verbatim>\<open>#tree\<close> was answered, and clicks a directory only
  when its load was; the VM answers with its listing \<open>fs\<close>.
\<close>

definition settled :: "(string \<Rightarrow> entry list option) \<Rightarrow> tree \<Rightarrow> tree_event \<Rightarrow> bool" where
  "settled fs s ev =
     (case ev of
        Navigate p \<Rightarrow> 0 \<notin> set (map load_target (loads s))
      | Click_dir j \<Rightarrow> j \<notin> set (map load_target (loads s))
      | Got_entries i es \<Rightarrow>
          (i < length (loads s) \<longrightarrow> (case loads s ! i of Load p k d \<Rightarrow> fs p = Some es))
      | _ \<Rightarrow> True)"

definition listed_once :: "(string \<Rightarrow> entry list option) \<Rightarrow> tree \<Rightarrow> nat \<Rightarrow> bool" where
  "listed_once fs s k \<longleftrightarrow>
     elements s k = [] \<or>
     (\<exists>es. fs (path_of s k) = Some es \<and>
        map entry_of (elements s k) = shown_entries (depth_of s k) es)"

text \<open>A pending load is for an empty element, with the path of its directory.\<close>

definition fresh_load :: "tree \<Rightarrow> load \<Rightarrow> bool" where
  "fresh_load s l = (case l of Load p k d \<Rightarrow> elements s k = [] \<and> p = path_of s k)"

definition listing_inv :: "(string \<Rightarrow> entry list option) \<Rightarrow> tree \<Rightarrow> bool" where
  "listing_inv fs s \<longleftrightarrow>
     tree_wf s \<and> distinct (map load_target (loads s)) \<and>
     (\<forall>l \<in> set (loads s). fresh_load s l) \<and>
     (\<forall>k. listed_once fs s k)"

lemma map_entry_highlight [simp]:
  "map entry_of (elements (highlight_items p s) k) = map entry_of (elements s k)"
  by (simp add: entry_of_def)

lemma entries_add_entry:
  "map entry_of (elements (add_entry k d s e) j) =
     map entry_of (elements s j) @ (if j = k then shown_entries d [e] else [])"
  by (simp add: add_entry_def shown_entries_def entry_of_def dir_item_def file_item_def Let_def)

lemma shown_entries_Cons: "shown_entries d (e # es) = shown_entries d [e] @ shown_entries d es"
  by (simp add: shown_entries_def)

lemma entries_finish:
  "map entry_of (elements (loadTree_finish k d es s) j) =
     map entry_of (elements s j) @ (if j = k then shown_entries d es else [])"
proof (induction es arbitrary: s)
  case Nil
  then show ?case by (simp add: shown_entries_def)
next
  case (Cons e es)
  show ?case
    unfolding finish_Cons Cons entries_add_entry shown_entries_Cons [of d e es] by simp
qed

lemma finish_frame [simp]:
  "loads (loadTree_finish k d es s) = loads s" "path_input (loadTree_finish k d es s) = path_input s"
  "j < next_element s \<Longrightarrow> nodes (loadTree_finish k d es s) j = nodes s j"
  by (induction es arbitrary: s) (simp_all add: less_le_trans [OF _ add_entry_frame(4)])

lemma path_of_cong:
  "nodes t k = nodes s k \<Longrightarrow> path_input t = path_input s \<Longrightarrow> path_of t k = path_of s k"
  by (simp add: path_of_def split: option.split)

lemma elements_Nil_entries: "elements s k = [] \<longleftrightarrow> map entry_of (elements s k) = []"
  by simp

lemma listing_frame:
  assumes "listing_inv fs s" "tree_wf t" "distinct (map load_target (loads t))"
    and "\<And>l. l \<in> set (loads t) \<Longrightarrow> l \<in> set (loads s)"
    and "\<And>k. map entry_of (elements t k) = map entry_of (elements s k)"
    and "\<And>k. path_of t k = path_of s k" "\<And>k. depth_of t k = depth_of s k"
  shows "listing_inv fs t"
proof -
  have "elements t k = [] \<longleftrightarrow> elements s k = []" for k
    using assms(5) [of k] by (metis map_is_Nil_conv)
  then have "fresh_load t l \<longleftrightarrow> fresh_load s l" "listed_once fs t k \<longleftrightarrow> listed_once fs s k" for l k
    using assms(5-7) by (simp_all add: fresh_load_def listed_once_def split: load.split)
  then show ?thesis using assms(1-4) by (auto simp: listing_inv_def)
qed

lemma distinct_drop:
  "distinct (map f xs) \<Longrightarrow> distinct (map f (take i xs @ drop (Suc i) xs))"
proof (cases "i < length xs")
  case True
  assume "distinct (map f xs)"
  then show ?thesis
    using True by (subst (asm) id_take_nth_drop [OF True]) auto
qed simp

lemma target_dropped:
  assumes "distinct (map load_target (loads s))" "i < length (loads s)" "loads s ! i = Load p k d"
  shows "k \<notin> set (map load_target (loads (drop_load i s)))"
proof -
  have "map load_target (loads s) =
      map load_target (take i (loads s)) @ k # map load_target (drop (Suc i) (loads s))"
    using assms by (subst id_take_nth_drop [OF assms(2)]) (simp add: load_target_def)
  then show ?thesis
    using assms(1) by (auto simp: drop_load_def)
qed

lemma listing_drop: "listing_inv fs s \<Longrightarrow> listing_inv fs (drop_load i s)"
  by (rule listing_frame [of fs s])
    (auto simp: listing_inv_def wf_drop drop_loads depth_of_def intro: path_of_cong,
     auto simp: drop_load_def distinct_drop simp del: map_append)

lemma listing_finish:
  assumes s: "listing_inv fs s" and i: "i < length (loads s)" "loads s ! i = Load p k d"
    and es: "fs p = Some es"
  shows "listing_inv fs (loadTree_finish k d es (drop_load i s))"
proof -
  let ?s = "drop_load i s"
  let ?t = "loadTree_finish k d es ?s"
  have d: "listing_inv fs ?s" using s by (rule listing_drop)
  have l: "Load p k d \<in> set (loads s)" using i nth_mem by metis
  have lk: "load_ok s (Load p k d)" "elements s k = []" "p = path_of s k"
    using s l by (auto simp: listing_inv_def tree_wf_def fresh_load_def)
  have k: "k < next_element ?s" "d = depth_of ?s k" "path_of ?s k = p" "elements ?s k = []"
    using lk path_of_cong [of ?s k s] depth_of_cong [of ?s k s] by (simp_all add: load_ok_def)
  have wf: "tree_wf ?t" using d k by (simp add: wf_finish listing_inv_def)
  have same: "path_of ?t j = path_of ?s j" "depth_of ?t j = depth_of ?s j" if "j < next_element ?s" for j
    using that by (auto intro!: path_of_cong depth_of_cong)
  have fresh: "elements ?t j = []" if "\<not> j < next_element ?s" "j \<noteq> k" for j
  proof -
    have "elements ?s j = []" using that d unfolding listing_inv_def tree_wf_def by blast
    then show ?thesis using that entries_finish [of k d es ?s j] by simp
  qed
  have "listed_once fs ?t j" for j
  proof (cases "j < next_element ?s")
    case True
    show ?thesis
    proof (cases "j = k")
      case True
      then show ?thesis
        using k es same [OF k(1)] entries_finish [of k d es ?s k] by (simp add: listed_once_def)
    next
      case False
      have "listed_once fs ?s j" using d by (simp add: listing_inv_def)
      then show ?thesis
        using False same [OF True] entries_finish [of k d es ?s j]
        by (simp add: listed_once_def elements_Nil_entries [of ?t] elements_Nil_entries [of ?s]
            del: map_is_Nil_conv)
    qed
  next
    case False
    then show ?thesis using k(1) fresh by (auto simp: listed_once_def)
  qed
  moreover have fresh_Load: "elements ?t j = [] \<and> q = path_of ?t j"
    if "Load q j c \<in> set (loads ?t)" for q j c
  proof -
    have m: "Load q j c \<in> set (loads ?s)" using that by simp
    then have "load_target (Load q j c) \<in> set (map load_target (loads ?s))" by (metis imageI set_map)
    then have "j \<noteq> k"
      using target_dropped [of s i p k d] s i by (auto simp: listing_inv_def load_target_def)
    moreover have "load_ok ?s (Load q j c)" "elements ?s j = []" "q = path_of ?s j"
      using d m by (auto simp: listing_inv_def tree_wf_def fresh_load_def)
    ultimately show ?thesis
      using entries_finish [of k d es ?s j] same(1) [of j] by (simp add: load_ok_def)
  qed
  moreover have "fresh_load ?t l" if "l \<in> set (loads ?t)" for l
    using that fresh_Load by (cases l rule: load.exhaust) (auto simp: fresh_load_def simp del: navigateTo_frame finish_frame)
  ultimately show ?thesis
    using wf d by (auto simp: listing_inv_def)
qed

lemma listing_navigate:
  assumes s: "listing_inv fs s" and q: "0 \<notin> set (map load_target (loads s))"
  shows "listing_inv fs (navigateTo p s)"
proof -
  let ?t = "navigateTo p s"
  have wf: "tree_wf ?t" using s by (simp add: listing_inv_def wf_navigate)
  have n0: "nodes s k \<noteq> None" if "k < next_element s" "k \<noteq> 0" for k
    using s that by (auto simp: listing_inv_def tree_wf_def)
  have same: "path_of ?t k = path_of s k" if "k < next_element s" "k \<noteq> 0" for k
    using n0 [OF that] by (auto simp: path_of_def)
  have dep: "depth_of ?t k = depth_of s k" for k by (simp add: depth_of_def)
  have "listed_once fs ?t k" for k
  proof (cases "k = 0 \<or> \<not> k < next_element s")
    case True
    then show ?thesis using s by (auto simp: listed_once_def listing_inv_def tree_wf_def)
  next
    case False
    then have "listed_once fs s k" using s by (simp add: listing_inv_def)
    then show ?thesis using False same [of k] dep by (simp add: listed_once_def)
  qed
  moreover have fresh_Load: "elements ?t k = [] \<and> r = path_of ?t k"
    if l: "Load r k c \<in> set (loads ?t)" for r k c
  proof (cases "Load r k c \<in> set (loads s)")
    case True
    then have "load_target (Load r k c) \<in> set (map load_target (loads s))" by (metis imageI set_map)
    then have "k \<noteq> 0" using q by (auto simp: load_target_def)
    moreover have "load_ok s (Load r k c)" "elements s k = []" "r = path_of s k"
      using s True by (auto simp: listing_inv_def tree_wf_def fresh_load_def)
    ultimately show ?thesis using same [of k] by (simp add: load_ok_def)
  next
    case False
    then have "k = 0" "r = path_input ?t" using l by auto
    then show ?thesis
      using wf by (auto simp: path_of_def tree_wf_def split: option.splits)
  qed
  moreover have "fresh_load ?t l" if "l \<in> set (loads ?t)" for l
    using that fresh_Load by (cases l rule: load.exhaust) (auto simp: fresh_load_def simp del: navigateTo_frame finish_frame)
  ultimately show ?thesis
    using wf s q by (auto simp: listing_inv_def load_target_def)
qed

lemma listing_highlight: "listing_inv fs s \<Longrightarrow> listing_inv fs (highlight_items p s)"
  by (rule listing_frame [of fs s])
    (auto simp: listing_inv_def wf_highlight depth_of_def entry_of_def intro: path_of_cong)

lemma listing_click:
  assumes s: "listing_inv fs s" and q: "j \<notin> set (map load_target (loads s))"
  shows "listing_inv fs (click_dir j s)"
proof -
  let ?t = "click_dir j s"
  have wf: "tree_wf ?t" using s by (simp add: listing_inv_def wf_click)
  have same: "path_of ?t k = path_of s k" "depth_of ?t k = depth_of s k" for k
    by (auto simp: click_dir_def loadTree_def path_of_def depth_of_def Let_def split: option.split)
  have "distinct (map load_target (loads ?t))"
    using s q by (auto simp: listing_inv_def click_dir_def loadTree_def load_target_def Let_def
        split: option.split)
  moreover have "fresh_load ?t l" if "l \<in> set (loads ?t)" for l
    using click_dir_loads [OF that] s same
    by (cases l) (auto simp: listing_inv_def fresh_load_def)
  ultimately show ?thesis
    using s wf same by (simp add: listing_inv_def listed_once_def)
qed

lemma listing_step:
  assumes s: "listing_inv fs s" and g: "settled fs s ev" shows "listing_inv fs (tree_step s ev)"
proof (cases ev)
  case (Got_entries i es)
  obtain p k d where "i < length (loads s) \<Longrightarrow> loads s ! i = Load p k d" by (cases "loads s ! i")
  then show ?thesis
    using s g listing_finish [OF s, of i p k d es] Got_entries
    by (cases "i < length (loads s)") (simp_all add: tree_step_def settled_def)
qed (use s g in \<open>auto simp: tree_step_def settled_def listing_navigate listing_click
       listing_highlight listing_drop\<close>)

interpretation tree_listing: guarded_machine tree_step "settled fs" "listing_inv fs" for fs
  by unfold_locales (rule listing_step)

lemma listing_boot: "listing_inv fs tree_boot"
  unfolding tree_boot_def
  by (rule listing_navigate)
    (auto simp: listing_inv_def listed_once_def blank_page_def tree_wf_def)

section \<open>Properties\<close>

text \<open>
  C16: whatever the user clicks and in whatever order the listings arrive, the tree is well
  formed: an item is indented by its nesting depth, it has a children element exactly if it
  is a directory, the click handler of that element loads the item's own path one level
  deeper, and the root level shows none of the names of \<^verbatim>\<open>ROOT_NOISE\<close>.
\<close>

theorem tree_well_formed:
  "let s = foldl tree_step tree_boot evs
   in \<forall>k. \<forall>i \<in> set (elements s k).
        it_padding i = 8 + depth_of s k * 14 \<and>
        (case it_children i of
           None \<Rightarrow> it_type i \<noteq> ''dir''
         | Some j \<Rightarrow> it_type i = ''dir'' \<and> nodes s j \<noteq> None \<and> path_of s j = it_path i \<and>
                     depth_of s j = depth_of s k + 1) \<and>
        (k = 0 \<longrightarrow> it_name i \<notin> root_noise)"
proof -
  have "tree_wf (foldl tree_step tree_boot evs)"
    by (rule tree_shape.run_inv [OF wf_boot]) simp
  then show ?thesis
    unfolding Let_def tree_wf_def item_ok_def by blast
qed

text \<open>
  as long as the user waits for the listing of a directory before navigating away or
  clicking it again, every directory element is empty or shows the entries of its own path
  once each, in the order of the listing; only the root level hides some.
\<close>

theorem directories_listed_once:
  assumes "admitted tree_step (settled fs) tree_boot evs"
  shows "let s = foldl tree_step tree_boot evs
         in elements s k = [] \<or>
            (\<exists>es. fs (path_of s k) = Some es \<and>
               map entry_of (elements s k) = shown_entries (depth_of s k) es)"
  using tree_listing.run_inv [OF listing_boot assms]
  unfolding Let_def listing_inv_def listed_once_def by blast

definition home_listing :: "entry list" where
  "home_listing =
     [\<lparr>e_name = ''dev'', e_path = ''/root/dev'', e_type = ''dir''\<rparr>,
      \<lparr>e_name = ''app'', e_path = ''/root/app'', e_type = ''dir''\<rparr>,
      \<lparr>e_name = ''a.py'', e_path = ''/root/a.py'', e_type = ''file''\<rparr>]"

definition app_listing :: "entry list" where
  "app_listing = [\<lparr>e_name = ''run'', e_path = ''/root/app/run'', e_type = ''file''\<rparr>]"

definition sample_fs :: "string \<Rightarrow> entry list option" where
  "sample_fs = [''/root'' \<mapsto> home_listing, ''/root/app'' \<mapsto> app_listing]"

definition sample_clicks :: "tree_event list" where
  "sample_clicks = [Got_entries 0 home_listing, Click_dir 1, Got_entries 0 app_listing]"

lemma trim_root [simp]: "trim ''/root'' = ''/root''"
  by code_simp

lemmas tree_eval =
  tree_step_def navigateTo_def loadTree_def add_entry_def dir_item_def file_item_def click_dir_def
  drop_load_def highlight_items_def tree_boot_def blank_page_def entry_of_def
  sample_clicks_def home_listing_def app_listing_def root_noise_def Let_def

theorem directories_listed_once_witness:
  "let s = foldl tree_step tree_boot sample_clicks
   in elements s 1 = [] \<or>
      (\<exists>es. sample_fs (path_of s 1) = Some es \<and>
         map entry_of (elements s 1) = shown_entries (depth_of s 1) es)"
  by (rule directories_listed_once) (simp add: settled_def load_target_def tree_eval sample_fs_def Let_def)

text \<open>
  a directory that is closed and opened again before its listing arrived is loaded
  twice and then shows every entry twice; the test for an empty element does not see the
  load in flight.
\<close>

theorem reopened_directory_listed_twice:
  assumes "tree_wf s" "nodes s j = Some n" "\<not> d_open n" "elements s j = []" "loads s = []"
  shows "let s' = foldl tree_step s
                    [Click_dir j, Click_dir j, Click_dir j, Got_entries 0 es, Got_entries 0 es]
         in map entry_of (elements s' j) = es @ es \<and> loads s' = []"
proof -
  let ?s = "foldl tree_step s [Click_dir j, Click_dir j, Click_dir j]"
  have "0 < j \<and> j < next_element s"
    using assms(1,2) unfolding tree_wf_def by (metis option.distinct(1))
  then have "0 < depth_of s j"
    using assms(1) unfolding tree_wf_def by blast
  then have d: "0 < d_depth n"
    using assms(2) by (simp add: depth_of_def)
  have s3: "loads ?s = [Load (d_path n) j (d_depth n), Load (d_path n) j (d_depth n)]"
    "elements ?s = elements s"
    using assms by (simp_all add: tree_step_def click_dir_def loadTree_def Let_def)
  have "map entry_of (elements (foldl tree_step ?s [Got_entries 0 es, Got_entries 0 es]) j) = es @ es \<and>
      loads (foldl tree_step ?s [Got_entries 0 es, Got_entries 0 es]) = []"
    unfolding foldl_Cons [of _ _ "Got_entries 0 es"] tree_step_def [of _ "Got_entries 0 es"] tree_event.case
    using s3 assms(4) d by (simp add: entries_finish drop_load_def shown_entries_def)
  then show ?thesis by simp
qed

definition sample_home :: tree where
  "sample_home = tree_step tree_boot (Got_entries 0 home_listing)"

theorem reopened_directory_listed_twice_witness:
  "let s' = foldl tree_step sample_home
              [Click_dir 1, Click_dir 1, Click_dir 1, Got_entries 0 app_listing, Got_entries 0 app_listing]
   in map entry_of (elements s' 1) = app_listing @ app_listing \<and> loads s' = []"
proof (rule reopened_directory_listed_twice)
  show "tree_wf sample_home"
    unfolding sample_home_def by (rule wf_step [OF wf_boot])
  show "nodes sample_home 1 =
      Some \<lparr>d_path = ''/root/app'', d_depth = 1, d_open = False, d_arrow = Arrow_right\<rparr>"
    by (simp add: sample_home_def tree_eval)
qed (simp_all add: sample_home_def tree_eval)

text \<open>
  the names of \<^verbatim>\<open>ROOT_NOISE\<close> are hidden in whatever directory the user navigates to,
  not only in the root of the file system: the listing of that directory loses its entries
  with such a name, files too, while expanding the same directory from its parent shows them.
\<close>

theorem noise_hidden_wherever_navigated:
  assumes "loads s = []" "trim p \<noteq> []"
  shows "let s' = foldl tree_step s [Navigate p, Got_entries 0 es]
         in map entry_of (elements s' 0) = filter (\<lambda>e. e_name e \<notin> root_noise) es \<and>
            path_input s' = trim p"
  using assms entries_finish
  by (simp add: tree_step_def navigateTo_def loadTree_def drop_load_def shown_entries_def Let_def)

theorem noise_hidden_wherever_navigated_witness:
  "let s' = foldl tree_step sample_home [Navigate ''/root/app'', Got_entries 0 app_listing]
   in map entry_of (elements s' 0) = filter (\<lambda>e. e_name e \<notin> root_noise) app_listing \<and>
      path_input s' = trim ''/root/app''"
  by (rule noise_hidden_wherever_navigated) (simp add: sample_home_def tree_eval, code_simp)

lemma sample_clicks_elements:
  "let s = foldl tree_step tree_boot sample_clicks
   in it_path (hd (elements s 1)) = ''/root/app/run'' \<and> hd (elements s 1) \<in> set (elements s 1) \<and>
      depth_of s 1 = 1"
  by (simp add: tree_eval depth_of_def)

theorem tree_well_formed_witness:
  "let s = foldl tree_step tree_boot sample_clicks
   in it_path (hd (elements s 1)) = ''/root/app/run'' \<and> it_padding (hd (elements s 1)) = 22"
  using tree_well_formed [of sample_clicks] sample_clicks_elements unfolding Let_def by fastforce

end
