(* ===== verification/Ide_Requests.thy ===== *)
theory Ide_Requests
  imports Lab_Prelude
begin

text \<open>
  How the IDE page addresses its session: the start of \<^verbatim>\<open>web/ide-src/src/main.js\<close> (workers, YAML
  options, \<^verbatim>\<open>SESSION\<close>, \<^verbatim>\<open>API\<close>, editor options), the URLs of its \<^verbatim>\<open>fetch\<close> calls, the asset names
  of \<^verbatim>\<open>web/ide-src/vite.config.js\<close>, and the two readers of such a URL: the proxy of the server,
  which strips the prefix of the session (\<^verbatim>\<open>internal/proxy\<close>), and the query parser of the VM's
  file service (\<^verbatim>\<open>urlparse\<close> and \<^verbatim>\<open>parse_qs\<close> in \<^verbatim>\<open>vm/lab-inject.py\<close>).
\<close>

section \<open>Set-up of the page\<close>

datatype worker = Yaml_worker | Editor_worker

definition getWorker :: "string \<Rightarrow> worker" where
  "getWorker label = (if label = ''yaml'' then Yaml_worker else Editor_worker)"

record yaml_options =
  enableSchemaRequest :: bool
  hover :: bool
  completion :: bool
  validate :: bool
  format_opt :: bool

definition yaml_config :: yaml_options where
  "yaml_config =
     \<lparr>enableSchemaRequest = True, hover = True, completion = True, validate = True, format_opt = True\<rparr>"

record quick_suggestions =
  qs_other :: bool
  qs_comments :: bool
  qs_strings :: bool

record editor_options =
  theme :: string
  minimap_enabled :: bool
  fontSize :: nat
  fontFamily :: string
  lineNumbers :: string
  scrollBeyondLastLine :: bool
  automaticLayout :: bool
  renderWhitespace :: string
  tabSize :: nat
  quickSuggestions :: quick_suggestions
  suggestOnTriggerCharacters :: bool
  acceptSuggestionOnEnter :: string

definition editor_config :: editor_options where
  "editor_config =
     \<lparr>theme = ''vs-dark'', minimap_enabled = False, fontSize = 13,
      fontFamily = [CHR 0x22] @ ''SFMono-Regular'' @ [CHR 0x22] @ '', Consolas, '' @ [CHR 0x22] @
        ''Liberation Mono'' @ [CHR 0x22] @ '', monospace'',
      lineNumbers = ''on'', scrollBeyondLastLine = False, automaticLayout = True,
      renderWhitespace = ''selection'', tabSize = 2,
      quickSuggestions = \<lparr>qs_other = True, qs_comments = False, qs_strings = True\<rparr>,
      suggestOnTriggerCharacters = True, acceptSuggestionOnEnter = ''on''\<rparr>"

text \<open>\<^verbatim>\<open>location.pathname.split('/')[2]\<close>; an index out of range gives \<^verbatim>\<open>undefined\<close>.\<close>

definition SESSION :: "string \<Rightarrow> string option" where
  "SESSION pathname =
     (let ps = split_on (CHR ''/'') pathname in if 2 < length ps then Some (ps ! 2) else None)"

definition API :: "string \<Rightarrow> string" where
  "API pathname =
     ''/ide-api/'' @ (case SESSION pathname of None \<Rightarrow> ''undefined'' | Some i \<Rightarrow> i)"

section \<open>Asset names\<close>

definition vite_base :: string where
  "vite_base = ''/ide-assets/''"

definition entryFileNames :: "string \<Rightarrow> string" where
  "entryFileNames name = name @ ''.js''"

definition chunkFileNames :: "string \<Rightarrow> string \<Rightarrow> string" where
  "chunkFileNames name hash = name @ ''-'' @ hash @ ''.js''"

text \<open>\<open>base_part\<close> and \<open>extname\<close> are what the bundler puts for \<^verbatim>\<open>[name]\<close> and \<^verbatim>\<open>[extname]\<close>.\<close>

definition assetFileNames :: "string \<Rightarrow> string \<Rightarrow> string \<Rightarrow> string \<Rightarrow> string" where
  "assetFileNames info_name base_part hash extname =
     (if info_name = ''main.css'' then ''main.css'' else base_part @ ''-'' @ hash @ extname)"

section \<open>The URLs of the file requests\<close>

definition utf8 :: "char \<Rightarrow> nat list" where
  "utf8 c = (let n = char_code c in if n < 128 then [n] else [192 + n div 64, 128 + n mod 64])"

definition unreserved :: "char \<Rightarrow> bool" where
  "unreserved c \<longleftrightarrow>
     (let n = char_code c
      in 48 \<le> n \<and> n \<le> 57 \<or> 65 \<le> n \<and> n \<le> 90 \<or> 97 \<le> n \<and> n \<le> 122 \<or>
         n \<in> {33, 39, 40, 41, 42, 45, 46, 95, 126})"

definition hex_digit :: "nat \<Rightarrow> char" where
  "hex_digit d = (if d < 10 then char_of (48 + d) else char_of (55 + d))"

definition percent :: "nat \<Rightarrow> string" where
  "percent b = [CHR ''%'', hex_digit (b div 16), hex_digit (b mod 16)]"

definition encodeURIComponent :: "string \<Rightarrow> string" where
  "encodeURIComponent s =
     concat (map (\<lambda>c. if unreserved c then [c] else concat (map percent (utf8 c))) s)"

definition files_url :: "string \<Rightarrow> string \<Rightarrow> string" where
  "files_url pathname path = API pathname @ ''/files?path='' @ encodeURIComponent path"

section \<open>Reading a URL on the server and in the VM\<close>

text \<open>
  \<^verbatim>\<open>proxy.Handler\<close>: the prefix of the session is stripped from the path; an empty rest
  becomes \<^verbatim>\<open>/\<close>.
\<close>

definition strip_path :: "string \<Rightarrow> string \<Rightarrow> string" where
  "strip_path prefix path =
     (let r = trim_prefix prefix path in if r = [] then ''/'' else r)"

definition url_path :: "string \<Rightarrow> string" where
  "url_path u = takeWhile (\<lambda>c. c \<noteq> CHR ''?'') u"

definition url_query :: "string \<Rightarrow> string" where
  "url_query u = tl (dropWhile (\<lambda>c. c \<noteq> CHR ''?'') u)"

definition hex_value :: "char \<Rightarrow> nat option" where
  "hex_value c =
     (let n = char_code c
      in if 48 \<le> n \<and> n \<le> 57 then Some (n - 48)
         else if 65 \<le> n \<and> n \<le> 70 then Some (n - 55)
         else if 97 \<le> n \<and> n \<le> 102 then Some (n - 87) else None)"

text \<open>\<^verbatim>\<open>unquote\<close> of Python: percent signs that start no pair of hex digits stay.\<close>

fun unquote_bytes :: "string \<Rightarrow> nat list" where
  "unquote_bytes [] = []"
| "unquote_bytes (c # cs) =
     (if c = CHR ''%'' then
        (case cs of
           a # b # r \<Rightarrow>
             (case (hex_value a, hex_value b) of
                (Some x, Some y) \<Rightarrow> (16 * x + y) # unquote_bytes r
              | _ \<Rightarrow> 37 # unquote_bytes cs)
         | _ \<Rightarrow> 37 # unquote_bytes cs)
      else utf8 c @ unquote_bytes cs)"

text \<open>Decoding of UTF-8, \<open>None\<close> for bytes that are not the encoding of characters of the model.\<close>

fun utf8_decode :: "nat list \<Rightarrow> string option" where
  "utf8_decode [] = Some []"
| "utf8_decode (n # r) =
     (if n < 128 then map_option (Cons (char_of n)) (utf8_decode r)
      else if n \<in> {194, 195} then
        (case r of
           m # r' \<Rightarrow>
             (if 128 \<le> m \<and> m < 192
              then map_option (Cons (char_of (64 * (n - 192) + (m - 128)))) (utf8_decode r')
              else None)
         | [] \<Rightarrow> None)
      else None)"

definition plus_to_space :: "string \<Rightarrow> string" where
  "plus_to_space s = map (\<lambda>c. if c = CHR ''+'' then CHR '' '' else c) s"

definition unquote :: "string \<Rightarrow> string option" where
  "unquote s = utf8_decode (unquote_bytes (plus_to_space s))"

text \<open>
  \<^verbatim>\<open>parse_qs\<close>: fields are separated by \<^verbatim>\<open>&\<close>; a field without \<^verbatim>\<open>=\<close> or with an empty value is
  dropped. \<open>qs_values q k\<close> are the values of the key \<open>k\<close> in order.
\<close>

definition qs_values :: "string \<Rightarrow> string \<Rightarrow> string option list" where
  "qs_values q k =
     concat (map (\<lambda>f. case split_n 2 (CHR ''='') f of
                        [n, v] \<Rightarrow> if v \<noteq> [] \<and> unquote n = Some k then [unquote v] else []
                      | _ \<Rightarrow> [])
                 (split_on (CHR ''&'') q))"

text \<open>\<^verbatim>\<open>params.get('path', [dflt])[0]\<close>.\<close>

definition path_param :: "string \<Rightarrow> string \<Rightarrow> string option" where
  "path_param dflt u =
     (case qs_values (url_query u) ''path'' of [] \<Rightarrow> Some dflt | v # _ \<Rightarrow> v)"

section \<open>Facts about the encoding\<close>

lemma hex_value_digit [simp]: "d < 16 \<Longrightarrow> hex_value (hex_digit d) = Some d"
  by (auto simp: hex_value_def hex_digit_def Let_def)

lemma utf8_bytes: "b \<in> set (utf8 c) \<Longrightarrow> b < 256"
  using char_code_bound [of c] by (auto simp: utf8_def Let_def split: if_splits)

lemma unquote_percent: "b < 256 \<Longrightarrow> unquote_bytes (percent b @ r) = b # unquote_bytes r"
  by (simp add: percent_def)

lemma unquote_percents:
  "(\<And>b. b \<in> set bs \<Longrightarrow> b < 256) \<Longrightarrow>
   unquote_bytes (concat (map percent bs) @ r) = bs @ unquote_bytes r"
  by (induction bs) (simp_all add: unquote_percent)

lemma unreserved_ascii:
  "unreserved c \<Longrightarrow> utf8 c = [char_code c] \<and> c \<noteq> CHR ''%'' \<and> c \<noteq> CHR ''+'' \<and> c \<noteq> CHR ''&'' \<and>
     c \<noteq> CHR ''='' \<and> c \<noteq> CHR ''?'' \<and> c \<noteq> CHR ''#''"
  by (auto simp: unreserved_def utf8_def Let_def char_code_def)

lemma unquote_encode: "unquote_bytes (encodeURIComponent s) = concat (map utf8 s)"
proof (induction s)
  case Nil
  then show ?case by (simp add: encodeURIComponent_def)
next
  case (Cons c s)
  have e: "encodeURIComponent (c # s) =
      (if unreserved c then [c] else concat (map percent (utf8 c))) @ encodeURIComponent s"
    by (simp add: encodeURIComponent_def)
  show ?case
    using Cons unreserved_ascii [of c] unquote_percents [of "utf8 c" "encodeURIComponent s"] utf8_bytes
    by (cases "unreserved c") (auto simp: e)
qed

lemma utf8_decode_utf8: "utf8_decode (utf8 c @ r) = map_option (Cons c) (utf8_decode r)"
proof (cases "char_code c < 128")
  case True
  then show ?thesis by (simp add: utf8_def)
next
  case False
  let ?n = "char_code c"
  have n: "?n div 64 \<in> {2, 3}" "?n < 256"
    using False char_code_bound [of c] by auto
  have "64 * (192 + ?n div 64 - 192) + (128 + ?n mod 64 - 128) = ?n" by simp
  then show ?thesis
    using False n by (auto simp: utf8_def Let_def)
qed

lemma utf8_decode_all: "utf8_decode (concat (map utf8 s)) = Some s"
  by (induction s) (simp_all add: utf8_decode_utf8)

lemma hex_digit_chars:
  "d < 16 \<Longrightarrow> hex_digit d \<notin> {CHR ''+'', CHR ''&'', CHR ''='', CHR ''?'', CHR ''#''}"
  by (auto simp: hex_digit_def char_code_inject [symmetric]) (auto simp: char_code_def split: if_splits)

lemma encode_chars:
  "x \<in> set (encodeURIComponent s) \<Longrightarrow> x \<notin> {CHR ''+'', CHR ''&'', CHR ''='', CHR ''?'', CHR ''#''}"
proof -
  assume "x \<in> set (encodeURIComponent s)"
  then obtain c where "unreserved c \<and> x = c \<or> (\<exists>b \<in> set (utf8 c). x \<in> set (percent b))"
    by (auto simp: encodeURIComponent_def split: if_splits)
  then show ?thesis
  proof (elim disjE bexE conjE)
    assume "unreserved c" "x = c"
    then show ?thesis using unreserved_ascii [of c] by simp
  next
    fix b assume b: "b \<in> set (utf8 c)" "x \<in> set (percent b)"
    then have "b div 16 < 16" "b mod 16 < 16" using utf8_bytes by fastforce+
    then show ?thesis
      using b(2) hex_digit_chars [of "b div 16"] hex_digit_chars [of "b mod 16"]
      by (auto simp: percent_def)
  qed
qed

lemma plus_to_space_id: "CHR ''+'' \<notin> set s \<Longrightarrow> plus_to_space s = s"
  by (induction s) (auto simp: plus_to_space_def)

lemma unquote_encodeURIComponent: "unquote (encodeURIComponent s) = Some s"
proof -
  have "CHR ''+'' \<notin> set (encodeURIComponent s)" using encode_chars by blast
  then show ?thesis by (simp add: unquote_def plus_to_space_id unquote_encode utf8_decode_all)
qed

lemma encode_not_Nil: "s \<noteq> [] \<Longrightarrow> encodeURIComponent s \<noteq> []"
  by (cases s) (auto simp: encodeURIComponent_def utf8_def percent_def Let_def)

lemma SESSION_of_page: "CHR ''/'' \<notin> set i \<Longrightarrow> SESSION (''/ide/'' @ i) = Some i"
  by (simp add: SESSION_def split_on_free)

lemma before_query:
  "CHR ''?'' \<notin> set a \<Longrightarrow> url_path (a @ CHR ''?'' # b) = a \<and> url_query (a @ CHR ''?'' # b) = b"
  by (induction a) (auto simp: url_path_def url_query_def)

lemma split_field: "c \<notin> set a \<Longrightarrow> split_n 2 c (a @ c # b) = [a, b]"
  using split_n_Cons [of c a 0 b] by (simp add: numeral_2_eq_2)

lemma qs_values_single:
  assumes "p \<noteq> []"
  shows "qs_values (''path='' @ encodeURIComponent p) ''path'' = [Some p]"
proof -
  let ?f = "''path='' @ encodeURIComponent p"
  have "CHR ''&'' \<notin> set ?f" using encode_chars [of _ p] by auto
  then have "split_on (CHR ''&'') ?f = [?f]" by (rule split_on_free)
  moreover have "split_n 2 (CHR ''='') ?f = [''path'', encodeURIComponent p]"
    using split_field [of "CHR ''=''" "''path''" "encodeURIComponent p"] by simp
  moreover have "unquote ''path'' = Some ''path''" by code_simp
  ultimately show ?thesis
    using encode_not_Nil [OF assms] by (simp add: qs_values_def unquote_encodeURIComponent)
qed

section \<open>Properties\<close>

text \<open>
  C34: the VM's file service reads exactly the path the page asked for: the page at
  \<^verbatim>\<open>/ide/<id>\<close> sends every file request under the prefix that the proxy of its own session
  strips, what is left is \<^verbatim>\<open>/files\<close>, and decoding the query gives back the path, whatever
  characters it has.
\<close>

theorem vm_reads_requested_path:
  assumes "CHR ''/'' \<notin> set i" "CHR ''?'' \<notin> set i" "p \<noteq> []"
  shows "let u = files_url (''/ide/'' @ i) p
         in strip_path (''/ide-api/'' @ i) (url_path u) = ''/files'' \<and> path_param dflt u = Some p"
proof -
  have u: "files_url (''/ide/'' @ i) p =
      (''/ide-api/'' @ i @ ''/files'') @ CHR ''?'' # (''path='' @ encodeURIComponent p)"
    using SESSION_of_page [OF assms(1)] by (simp add: files_url_def API_def)
  have q: "CHR ''?'' \<notin> set (''/ide-api/'' @ i @ ''/files'')" using assms(2) by simp
  have "trim_prefix (''/ide-api/'' @ i) ((''/ide-api/'' @ i) @ ''/files'') = ''/files''"
    by (rule trim_prefix_append)
  then have "strip_path (''/ide-api/'' @ i) (''/ide-api/'' @ i @ ''/files'') = ''/files''"
    by (simp add: strip_path_def)
  then show ?thesis
    unfolding Let_def u path_param_def
    using before_query [OF q, of "''path='' @ encodeURIComponent p"] qs_values_single [OF assms(3)]
    by (simp del: append.simps append_assoc)
qed

theorem vm_reads_requested_path_witness:
  "let u = files_url (''/ide/'' @ ''ab12'') ''/root/a&b=c+d #1.txt''
   in strip_path (''/ide-api/'' @ ''ab12'') (url_path u) = ''/files'' \<and>
      path_param ''/root'' u = Some ''/root/a&b=c+d #1.txt''"
  by (rule vm_reads_requested_path) simp_all

end
