(* ===== verification/Wgsl_Grammar.thy ===== *)
theory Wgsl_Grammar
  imports Lab_Prelude
begin

text \<open>
  The word lists and the lexer rules of the shading language that the shipped editor bundle
  highlights (\<^verbatim>\<open>web/static/ide-assets/wgsl-DYQqGqAW.js\<close>): the splitter of the word lists, the
  lists as the template strings of the file, the class of an identifier and of a symbol,
  and the states of the block comment.
\<close>

section \<open>Splitting a text into words\<close>

definition tab :: char where "tab = CHR 0x09"
definition newline :: char where "newline = CHR 0x0A"
definition return_char :: char where "return_char = CHR 0x0D"

definition word_gap :: "char \<Rightarrow> bool" where
  "word_gap c \<longleftrightarrow> c = tab \<or> c = return_char \<or> c = newline \<or> c = CHR '' ''"

text \<open>
  \<^verbatim>\<open>i.split(/\t+|\r+|\n+| +/)\<close>: a match is a run of one and the same white space character, so
  a mixed run leaves empty pieces, which the loop of the splitter drops.
\<close>

function gap_split :: "string \<Rightarrow> string list" where
  "gap_split [] = [[]]"
| "gap_split (c # cs) =
     (if word_gap c then [] # gap_split (dropWhile (\<lambda>x. x = c) cs)
      else (case gap_split cs of [] \<Rightarrow> [[c]] | y # ys \<Rightarrow> (c # y) # ys))"
  by pat_completeness auto
termination
  by (relation "measure length") (simp_all add: le_imp_less_Suc length_dropWhile_le)

definition words_of :: "string \<Rightarrow> string list" where
  "words_of i = filter (\<lambda>w. 0 < length w) (gap_split i)"

text \<open>A line of a template string: its leading tabs, its leading blanks, its words.\<close>

type_synonym text_line = "nat \<times> nat \<times> string list"

fun line_text :: "text_line \<Rightarrow> string" where
  "line_text (t, b, ws) = replicate t tab @ replicate b CHR '' '' @ join '' '' ws"

definition template :: "text_line list \<Rightarrow> nat \<Rightarrow> nat \<Rightarrow> string" where
  "template ls t b =
     concat (map (\<lambda>l. newline # line_text l) ls) @ newline # replicate t tab @ replicate b CHR '' ''"

section \<open>The word lists\<close>

definition wgsl_atoms :: "string list" where
  "wgsl_atoms = words_of ''true false''"

definition wgsl_keywords_lines :: "text_line list" where
  "wgsl_keywords_lines =
     [(3, 2, [''alias'']), (3, 2, [''break'']), (3, 2, [''case'']), (3, 2, [''const'']),
      (3, 2, [''const_assert'']), (3, 2, [''continue'']), (3, 2, [''continuing'']),
      (3, 2, [''default'']), (3, 2, [''diagnostic'']), (3, 2, [''discard'']), (3, 2, [''else'']),
      (3, 2, [''enable'']), (3, 2, [''fn'']), (3, 2, [''for'']), (3, 2, [''if'']),
      (3, 2, [''let'']), (3, 2, [''loop'']), (3, 2, [''override'']), (3, 2, [''requires'']),
      (3, 2, [''return'']), (3, 2, [''struct'']), (3, 2, [''switch'']), (3, 2, [''var'']),
      (3, 2, [''while''])]"

definition wgsl_keywords :: "string list" where
  "wgsl_keywords = words_of (template wgsl_keywords_lines 3 2)"

definition wgsl_reserved_lines :: "text_line list" where
  "wgsl_reserved_lines =
     [(3, 2, [''NULL'']), (3, 2, [''Self'']), (3, 2, [''abstract'']), (3, 2, [''active'']),
      (3, 2, [''alignas'']), (3, 2, [''alignof'']), (3, 2, [''as'']), (3, 2, [''asm'']),
      (3, 2, [''asm_fragment'']), (3, 2, [''async'']), (3, 2, [''attribute'']), (3, 2, [''auto'']),
      (3, 2, [''await'']), (3, 2, [''become'']), (3, 2, [''binding_array'']), (3, 2, [''cast'']),
      (3, 2, [''catch'']), (3, 2, [''class'']), (3, 2, [''co_await'']), (3, 2, [''co_return'']),
      (3, 2, [''co_yield'']), (3, 2, [''coherent'']), (3, 2, [''column_major'']),
      (3, 2, [''common'']), (3, 2, [''compile'']), (3, 2, [''compile_fragment'']),
      (3, 2, [''concept'']), (3, 2, [''const_cast'']), (3, 2, [''consteval'']),
      (3, 2, [''constexpr'']), (3, 2, [''constinit'']), (3, 2, [''crate'']), (3, 2, [''debugger'']),
      (3, 2, [''decltype'']), (3, 2, [''delete'']), (3, 2, [''demote'']),
      (3, 2, [''demote_to_helper'']), (3, 2, [''do'']), (3, 2, [''dynamic_cast'']),
      (3, 2, [''enum'']), (3, 2, [''explicit'']), (3, 2, [''export'']), (3, 2, [''extends'']),
      (3, 2, [''extern'']), (3, 2, [''external'']), (3, 2, [''fallthrough'']), (3, 2, [''filter'']),
      (3, 2, [''final'']), (3, 2, [''finally'']), (3, 2, [''friend'']), (3, 2, [''from'']),
      (3, 2, [''fxgroup'']), (3, 2, [''get'']), (3, 2, [''goto'']), (3, 2, [''groupshared'']),
      (3, 2, [''highp'']), (3, 2, [''impl'']), (3, 2, [''implements'']), (3, 2, [''import'']),
      (3, 2, [''inline'']), (3, 2, [''instanceof'']), (3, 2, [''interface'']), (3, 2, [''layout'']),
      (3, 2, [''lowp'']), (3, 2, [''macro'']), (3, 2, [''macro_rules'']), (3, 2, [''match'']),
      (3, 2, [''mediump'']), (3, 2, [''meta'']), (3, 2, [''mod'']), (3, 2, [''module'']),
      (3, 2, [''move'']), (3, 2, [''mut'']), (3, 2, [''mutable'']), (3, 2, [''namespace'']),
      (3, 2, [''new'']), (3, 2, [''nil'']), (3, 2, [''noexcept'']), (3, 2, [''noinline'']),
      (3, 2, [''nointerpolation'']), (3, 2, [''noperspective'']), (3, 2, [''null'']),
      (3, 2, [''nullptr'']), (3, 2, [''of'']), (3, 2, [''operator'']), (3, 2, [''package'']),
      (3, 2, [''packoffset'']), (3, 2, [''partition'']), (3, 2, [''pass'']), (3, 2, [''patch'']),
      (3, 2, [''pixelfragment'']), (3, 2, [''precise'']), (3, 2, [''precision'']),
      (3, 2, [''premerge'']), (3, 2, [''priv'']), (3, 2, [''protected'']), (3, 2, [''pub'']),
      (3, 2, [''public'']), (3, 2, [''readonly'']), (3, 2, [''ref'']), (3, 2, [''regardless'']),
      (3, 2, [''register'']), (3, 2, [''reinterpret_cast'']), (3, 2, [''require'']),
      (3, 2, [''resource'']), (3, 2, [''restrict'']), (3, 2, [''self'']), (3, 2, [''set'']),
      (3, 2, [''shared'']), (3, 2, [''sizeof'']), (3, 2, [''smooth'']), (3, 2, [''snorm'']),
      (3, 2, [''static'']), (3, 2, [''static_assert'']), (3, 2, [''static_cast'']),
      (3, 2, [''std'']), (3, 2, [''subroutine'']), (3, 2, [''super'']), (3, 2, [''target'']),
      (3, 2, [''template'']), (3, 2, [''this'']), (3, 2, [''thread_local'']), (3, 2, [''throw'']),
      (3, 2, [''trait'']), (3, 2, [''try'']), (3, 2, [''type'']), (3, 2, [''typedef'']),
      (3, 2, [''typeid'']), (3, 2, [''typename'']), (3, 2, [''typeof'']), (3, 2, [''union'']),
      (3, 2, [''unless'']), (3, 2, [''unorm'']), (3, 2, [''unsafe'']), (3, 2, [''unsized'']),
      (3, 2, [''use'']), (3, 2, [''using'']), (3, 2, [''varying'']), (3, 2, [''virtual'']),
      (3, 2, [''volatile'']), (3, 2, [''wgsl'']), (3, 2, [''where'']), (3, 2, [''with'']),
      (3, 2, [''writeonly'']), (3, 2, [''yield''])]"

definition wgsl_reserved :: "string list" where
  "wgsl_reserved = words_of (template wgsl_reserved_lines 3 2)"

definition wgsl_enums_lines :: "text_line list" where
  "wgsl_enums_lines =
     [(2, 0, [''read'', ''write'', ''read_write'']),
      (2, 0, [''function'', ''private'', ''workgroup'', ''uniform'', ''storage'']),
      (2, 0, [''perspective'', ''linear'', ''flat'']),
      (2, 0, [''center'', ''centroid'', ''sample'']),
      (2, 0, [''vertex_index'', ''instance_index'', ''position'', ''front_facing'', ''frag_depth'']),
      (3, 0, [''local_invocation_id'', ''local_invocation_index'']),
      (3, 0, [''global_invocation_id'', ''workgroup_id'', ''num_workgroups'']),
      (3, 0, [''sample_index'', ''sample_mask'']), (2, 0, [''rgba8unorm'']),
      (2, 0, [''rgba8snorm'']), (2, 0, [''rgba8uint'']), (2, 0, [''rgba8sint'']),
      (2, 0, [''rgba16uint'']), (2, 0, [''rgba16sint'']), (2, 0, [''rgba16float'']),
      (2, 0, [''r32uint'']), (2, 0, [''r32sint'']), (2, 0, [''r32float'']), (2, 0, [''rg32uint'']),
      (2, 0, [''rg32sint'']), (2, 0, [''rg32float'']), (2, 0, [''rgba32uint'']),
      (2, 0, [''rgba32sint'']), (2, 0, [''rgba32float'']), (2, 0, [''bgra8unorm''])]"

definition wgsl_enums :: "string list" where
  "wgsl_enums = words_of (template wgsl_enums_lines 0 0)"

definition wgsl_types_lines :: "text_line list" where
  "wgsl_types_lines =
     [(2, 0, [''bool'']), (2, 0, [''f16'']), (2, 0, [''f32'']), (2, 0, [''i32'']),
      (2, 0, [''sampler'', ''sampler_comparison'']), (2, 0, [''texture_depth_2d'']),
      (2, 0, [''texture_depth_2d_array'']), (2, 0, [''texture_depth_cube'']),
      (2, 0, [''texture_depth_cube_array'']), (2, 0, [''texture_depth_multisampled_2d'']),
      (2, 0, [''texture_external'']), (2, 0, [''texture_external'']), (2, 0, [''u32''])]"

definition wgsl_types :: "string list" where
  "wgsl_types = words_of (template wgsl_types_lines 2 0)"

definition wgsl_generators_lines :: "text_line list" where
  "wgsl_generators_lines =
     [(2, 0, [''array'']), (2, 0, [''atomic'']), (2, 0, [''mat2x2'']), (2, 0, [''mat2x3'']),
      (2, 0, [''mat2x4'']), (2, 0, [''mat3x2'']), (2, 0, [''mat3x3'']), (2, 0, [''mat3x4'']),
      (2, 0, [''mat4x2'']), (2, 0, [''mat4x3'']), (2, 0, [''mat4x4'']), (2, 0, [''ptr'']),
      (2, 0, [''texture_1d'']), (2, 0, [''texture_2d'']), (2, 0, [''texture_2d_array'']),
      (2, 0, [''texture_3d'']), (2, 0, [''texture_cube'']), (2, 0, [''texture_cube_array'']),
      (2, 0, [''texture_multisampled_2d'']), (2, 0, [''texture_storage_1d'']),
      (2, 0, [''texture_storage_2d'']), (2, 0, [''texture_storage_2d_array'']),
      (2, 0, [''texture_storage_3d'']), (2, 0, [''vec2'']), (2, 0, [''vec3'']), (2, 0, [''vec4''])]"

definition wgsl_generators :: "string list" where
  "wgsl_generators = words_of (template wgsl_generators_lines 2 0)"

definition wgsl_aliases_lines :: "text_line list" where
  "wgsl_aliases_lines =
     [(2, 0, [''vec2i'', ''vec3i'', ''vec4i'']), (2, 0, [''vec2u'', ''vec3u'', ''vec4u'']),
      (2, 0, [''vec2f'', ''vec3f'', ''vec4f'']), (2, 0, [''vec2h'', ''vec3h'', ''vec4h'']),
      (2, 0, [''mat2x2f'', ''mat2x3f'', ''mat2x4f'']),
      (2, 0, [''mat3x2f'', ''mat3x3f'', ''mat3x4f'']),
      (2, 0, [''mat4x2f'', ''mat4x3f'', ''mat4x4f'']),
      (2, 0, [''mat2x2h'', ''mat2x3h'', ''mat2x4h'']),
      (2, 0, [''mat3x2h'', ''mat3x3h'', ''mat3x4h'']),
      (2, 0, [''mat4x2h'', ''mat4x3h'', ''mat4x4h''])]"

definition wgsl_aliases :: "string list" where
  "wgsl_aliases = words_of (template wgsl_aliases_lines 2 0)"

definition wgsl_intrinsics_lines :: "text_line list" where
  "wgsl_intrinsics_lines =
     [
      (0, 2, [''bitcast'', ''all'', ''any'', ''select'', ''arrayLength'', ''abs'', ''acos'', ''acosh'', ''asin'', ''asinh'', ''atan'', ''atanh'', ''atan2'']),
      (0, 2, [''ceil'', ''clamp'', ''cos'', ''cosh'', ''countLeadingZeros'', ''countOneBits'', ''countTrailingZeros'', ''cross'']),
      (0, 2, [''degrees'', ''determinant'', ''distance'', ''dot'', ''exp'', ''exp2'', ''extractBits'', ''faceForward'', ''firstLeadingBit'']),
      (0, 2, [''firstTrailingBit'', ''floor'', ''fma'', ''fract'', ''frexp'', ''inverseBits'', ''inverseSqrt'', ''ldexp'', ''length'']),
      (0, 2, [''log'', ''log2'', ''max'', ''min'', ''mix'', ''modf'', ''normalize'', ''pow'', ''quantizeToF16'', ''radians'', ''reflect'', ''refract'']),
      (0, 2, [''reverseBits'', ''round'', ''saturate'', ''sign'', ''sin'', ''sinh'', ''smoothstep'', ''sqrt'', ''step'', ''tan'', ''tanh'', ''transpose'']),
      (0, 2, [''trunc'', ''dpdx'', ''dpdxCoarse'', ''dpdxFine'', ''dpdy'', ''dpdyCoarse'', ''dpdyFine'', ''fwidth'', ''fwidthCoarse'', ''fwidthFine'']),
      (0, 2, [''textureDimensions'', ''textureGather'', ''textureGatherCompare'', ''textureLoad'', ''textureNumLayers'']),
      (0, 2, [''textureNumLevels'', ''textureNumSamples'', ''textureSample'', ''textureSampleBias'', ''textureSampleCompare'']),
      (0, 2, [''textureSampleCompareLevel'', ''textureSampleGrad'', ''textureSampleLevel'', ''textureSampleBaseClampToEdge'']),
      (0, 2, [''textureStore'', ''atomicLoad'', ''atomicStore'', ''atomicAdd'', ''atomicSub'', ''atomicMax'', ''atomicMin'']),
      (0, 2, [''atomicAnd'', ''atomicOr'', ''atomicXor'', ''atomicExchange'', ''atomicCompareExchangeWeak'', ''pack4x8snorm'']),
      (0, 2, [''pack4x8unorm'', ''pack2x16snorm'', ''pack2x16unorm'', ''pack2x16float'', ''unpack4x8snorm'', ''unpack4x8unorm'']),
      (0, 2, [''unpack2x16snorm'', ''unpack2x16unorm'', ''unpack2x16float'', ''storageBarrier'', ''workgroupBarrier'']),
      (0, 2, [''workgroupUniformLoad''])]"

definition wgsl_intrinsics :: "string list" where
  "wgsl_intrinsics = words_of (template wgsl_intrinsics_lines 0 0)"

definition wgsl_operators_lines :: "text_line list" where
  "wgsl_operators_lines =
     [(5, 1, [''&'']), (5, 1, [''&&'']), (5, 1, [''->'']), (5, 1, [''/'']), (5, 1, [''='']),
      (5, 1, [''=='']), (5, 1, [''!='']), (5, 1, [''>'']), (5, 1, [''>='']), (5, 1, [''<'']),
      (5, 1, [''<='']), (5, 1, [''%'']), (5, 1, [''-'']), (5, 1, [''--'']), (5, 1, [''+'']),
      (5, 1, [''++'']), (5, 1, [''|'']), (5, 1, [''||'']), (5, 1, [''*'']), (5, 1, [''<<'']),
      (5, 1, [''>>'']), (5, 1, [''+='']), (5, 1, [''-='']), (5, 1, [''*='']), (5, 1, [''/='']),
      (5, 1, [''%='']), (5, 1, [''&='']), (5, 1, [''|='']), (5, 1, [''^='']), (5, 1, [''>>='']),
      (5, 1, [''<<=''])]"

definition wgsl_operators :: "string list" where
  "wgsl_operators = words_of (template wgsl_operators_lines 5 1)"

section \<open>Lexer rules\<close>

datatype token_class =
    Keyword | Invalid | Predefined | Identifier | Operator | Delimiter

text \<open>The \<^verbatim>\<open>cases\<close> of the identifier rule, in their order.\<close>

definition identifier_class :: "string \<Rightarrow> token_class" where
  "identifier_class w =
     (if w \<in> set wgsl_atoms then Predefined
      else if w \<in> set wgsl_keywords then Keyword
      else if w \<in> set wgsl_reserved then Invalid
      else if w \<in> set wgsl_enums then Predefined
      else if w \<in> set wgsl_types then Predefined
      else if w \<in> set wgsl_generators then Predefined
      else if w \<in> set wgsl_aliases then Predefined
      else if w \<in> set wgsl_intrinsics then Predefined
      else Identifier)"

text \<open>The \<^verbatim>\<open>cases\<close> of the rule for \<^verbatim>\<open>@symbols\<close>, a longest run of symbol characters.\<close>

definition symbol_class :: "string \<Rightarrow> token_class" where
  "symbol_class w = (if w \<in> set wgsl_operators then Operator else Delimiter)"

text \<open>
  The state \<^verbatim>\<open>blockComment\<close> from inside \<open>d\<close> comments: the rules in their order, \<^verbatim>\<open>@push\<close> and
  \<^verbatim>\<open>@pop\<close> on the state stack. The result is the depth at the end of the text, or \<open>0\<close> and the
  text behind the outermost comment.
\<close>

fun block_comment :: "nat \<Rightarrow> string \<Rightarrow> nat \<times> string" where
  "block_comment 0 cs = (0, cs)"
| "block_comment (Suc d) [] = (Suc d, [])"
| "block_comment (Suc d) [c] = (Suc d, [])"
| "block_comment (Suc d) (c # c' # cs) =
     (if c \<noteq> CHR ''/'' \<and> c \<noteq> CHR ''*'' then block_comment (Suc d) (c' # cs)
      else if c = CHR ''/'' \<and> c' = CHR ''*'' then block_comment (Suc (Suc d)) cs
      else if c = CHR ''*'' \<and> c' = CHR ''/'' then block_comment d cs
      else block_comment (Suc d) (c' # cs))"

section \<open>Facts about the splitter\<close>

lemma words_of_Nil [simp]: "words_of [] = []"
  by (simp add: words_of_def)

lemma words_of_gap_run: "word_gap c \<Longrightarrow> words_of (dropWhile (\<lambda>x. x = c) cs) = words_of cs"
  by (cases cs) (auto simp: words_of_def)

lemma words_of_gap: "word_gap c \<Longrightarrow> words_of (c # cs) = words_of cs"
  using words_of_gap_run [of c cs] by (simp add: words_of_def)

lemma words_of_gaps: "(\<And>c. c \<in> set g \<Longrightarrow> word_gap c) \<Longrightarrow> words_of (g @ s) = words_of s"
  by (induction g) (simp_all add: words_of_gap)

lemma gap_split_word:
  "(\<And>c. c \<in> set w \<Longrightarrow> \<not> word_gap c) \<Longrightarrow> word_gap g \<Longrightarrow>
   gap_split (w @ g # s) = w # gap_split (dropWhile (\<lambda>x. x = g) s)"
  by (induction w) auto

lemma words_of_word:
  assumes "\<And>c. c \<in> set w \<Longrightarrow> \<not> word_gap c" "w \<noteq> []" "word_gap g"
  shows "words_of (w @ g # s) = w # words_of s"
proof -
  have "words_of (w @ g # s) = w # words_of (dropWhile (\<lambda>x. x = g) s)"
    using gap_split_word [OF assms(1,3)] assms(2) by (simp add: words_of_def)
  then show ?thesis using words_of_gap_run [OF assms(3)] by simp
qed

definition word_ok :: "string \<Rightarrow> bool" where
  "word_ok w \<longleftrightarrow> w \<noteq> [] \<and> list_all (\<lambda>c. \<not> word_gap c) w"

definition line_ok :: "text_line \<Rightarrow> bool" where
  "line_ok l = (case l of (t, b, ws) \<Rightarrow> list_all word_ok ws)"

lemma words_of_joined:
  "list_all word_ok ws \<Longrightarrow> word_gap g \<Longrightarrow> words_of (join '' '' ws @ g # s) = ws @ words_of s"
proof (induction ws rule: induct_list012)
  case 1
  then show ?case by (simp add: words_of_gap)
next
  case (2 w)
  then show ?case by (simp add: words_of_word word_ok_def list_all_iff)
next
  case (3 w v ws)
  have "words_of (w @ CHR '' '' # (join '' '' (v # ws) @ g # s)) = w # words_of (join '' '' (v # ws) @ g # s)"
    using 3 by (intro words_of_word) (auto simp: word_ok_def list_all_iff word_gap_def)
  then show ?case using 3 by simp
qed

lemma words_of_line:
  assumes "line_ok (t, b, ws)" "word_gap g"
  shows "words_of (line_text (t, b, ws) @ g # s) = ws @ words_of s"
proof -
  have "words_of ((replicate t tab @ replicate b CHR '' '') @ (join '' '' ws @ g # s)) =
      words_of (join '' '' ws @ g # s)"
    by (rule words_of_gaps) (auto simp: word_gap_def)
  then show ?thesis
    using assms words_of_joined [of ws g s] by (simp add: line_ok_def)
qed

lemma words_of_template:
  "list_all line_ok ls \<Longrightarrow> words_of (template ls t b) = concat (map (\<lambda>(t, b, ws). ws) ls)"
proof (induction ls)
  case Nil
  have "words_of ((newline # replicate t tab @ replicate b CHR '' '') @ []) = words_of []"
    by (rule words_of_gaps) (auto simp: word_gap_def)
  then show ?case by (simp add: template_def)
next
  case (Cons l ls)
  obtain u c ws where l: "l = (u, c, ws)" by (cases l) auto
  obtain r where r: "template ls t b = newline # r" by (cases ls) (auto simp: template_def)
  have "words_of (template (l # ls) t b) = words_of (newline # (line_text l @ newline # r))"
    using r by (simp add: template_def)
  also have "\<dots> = ws @ words_of r"
    using Cons.prems l words_of_line [of u c ws newline r] by (simp add: words_of_gap word_gap_def)
  also have "words_of r = words_of (template ls t b)"
    using r by (simp add: words_of_gap word_gap_def)
  finally show ?case using Cons l by simp
qed

section \<open>Facts about the lists\<close>

lemma lines_ok:
  "list_all line_ok wgsl_keywords_lines" "list_all line_ok wgsl_reserved_lines"
  "list_all line_ok wgsl_operators_lines"
  by code_simp+

lemma list_words:
  "wgsl_keywords = concat (map (\<lambda>(t, b, ws). ws) wgsl_keywords_lines)"
  "wgsl_reserved = concat (map (\<lambda>(t, b, ws). ws) wgsl_reserved_lines)"
  "wgsl_operators = concat (map (\<lambda>(t, b, ws). ws) wgsl_operators_lines)"
  unfolding wgsl_keywords_def wgsl_reserved_def wgsl_operators_def
  by (rule words_of_template lines_ok)+

lemma atoms_words: "wgsl_atoms = [''true'', ''false'']"
  by code_simp

lemma keywords_not_reserved: "list_all (\<lambda>w. w \<notin> set wgsl_reserved) (wgsl_keywords @ wgsl_atoms)"
  unfolding list_words atoms_words by code_simp

lemma atoms_not_keywords: "list_all (\<lambda>w. w \<notin> set wgsl_keywords) wgsl_atoms"
  unfolding list_words atoms_words by code_simp

text \<open>A comment body: text without the two comment characters, and comments inside it.\<close>

datatype part = Plain string | Nested "part list"

fun show_parts :: "part list \<Rightarrow> string" and show_part :: "part \<Rightarrow> string" where
  "show_parts [] = []"
| "show_parts (p # ps) = show_part p @ show_parts ps"
| "show_part (Plain s) = s"
| "show_part (Nested ps) = ''/*'' @ show_parts ps @ ''*/''"

fun plain_parts :: "part list \<Rightarrow> bool" and plain_part :: "part \<Rightarrow> bool" where
  "plain_parts [] = True"
| "plain_parts (p # ps) = (plain_part p \<and> plain_parts ps)"
| "plain_part (Plain s) = (CHR ''/'' \<notin> set s \<and> CHR ''*'' \<notin> set s)"
| "plain_part (Nested ps) = plain_parts ps"

lemma block_comment_plain:
  "CHR ''/'' \<notin> set s \<Longrightarrow> CHR ''*'' \<notin> set s \<Longrightarrow>
   block_comment (Suc d) (s @ r) = block_comment (Suc d) r"
proof (induction s)
  case (Cons c s)
  have "block_comment (Suc d) (c # (s @ r)) = block_comment (Suc d) (s @ r)"
    using Cons.prems by (cases "s @ r") auto
  then show ?case using Cons by simp
qed simp

lemma block_comment_parts:
  "plain_parts ps \<Longrightarrow> block_comment (Suc d) (show_parts ps @ r) = block_comment (Suc d) r"
  "plain_part p \<Longrightarrow> block_comment (Suc d) (show_part p @ r) = block_comment (Suc d) r"
  by (induction ps and p arbitrary: d r and d r rule: show_parts_show_part.induct)
    (simp_all add: block_comment_plain)

section \<open>Properties\<close>

text \<open>
  a word is highlighted as a keyword exactly if it stands in the keyword list and as
  invalid exactly if it stands in the reserved list: no earlier case of the identifier rule
  shadows either of them, although the cases are tried in order.
\<close>

theorem identifier_classes_exact:
  "(identifier_class w = Keyword) = (w \<in> set wgsl_keywords) \<and>
   (identifier_class w = Invalid) = (w \<in> set wgsl_reserved)"
  using keywords_not_reserved atoms_not_keywords
  by (auto simp: identifier_class_def list_all_iff)

text \<open>
  block comments nest: behind an opening mark the lexer leaves the comment exactly at
  the matching closing mark, whatever properly nested comments and other text stand
  between, and goes on with the text behind it.
\<close>

theorem nested_comment_closes:
  assumes "plain_parts ps"
  shows "block_comment 1 (show_parts ps @ ''*/'' @ rest) = (0, rest)"
  using block_comment_parts(1) [OF assms, of 0 "''*/'' @ rest"] by simp

theorem nested_comment_closes_witness:
  "block_comment 1 (show_parts [Plain ''a'', Nested [Plain ''b'', Nested []], Plain ''c''] @ ''*/'' @ ''fn'') =
     (0, ''fn'')"
  by (rule nested_comment_closes) simp

end
