(* ===== verification/Menu_Style.thy ===== *)
theory Menu_Style
  imports Lab_Prelude
begin

text \<open>
  The style sheet generator of the menu widget in the shipped editor bundle
  (\<^verbatim>\<open>Lce\<close> and \<^verbatim>\<open>V9\<close> in \<^verbatim>\<open>web/static/ide-assets/index-B0jeqYpn.js\<close>): a fixed text, the rules of
  two icons, and, inside a shadow DOM, the rules of the scroll bar, of which four appear only
  if the theme gives their colour.

  A line of a template string is its leading tabs and the rest. The table from icon names to
  character codes (\<^verbatim>\<open>bz()\<close>) is a parameter.
\<close>

section \<open>Templates\<close>

type_synonym css_line = "nat \<times> string"

definition nl :: char where "nl = CHR 0x0A"

definition line_str :: "css_line \<Rightarrow> string" where
  "line_str l = (case l of (t, s) \<Rightarrow> replicate t (CHR 0x09) @ s)"

text \<open>Every line with the line break before it, as the templates start with one.\<close>

definition css_text :: "css_line list \<Rightarrow> string" where
  "css_text ls = concat (map (\<lambda>l. nl # line_str l) ls)"

text \<open>\<^verbatim>\<open>n.toString(16)\<close>\<close>

fun hex_str :: "nat \<Rightarrow> string" where
  "hex_str n =
     (let d = n mod 16; c = (if d < 10 then char_of (48 + d) else char_of (87 + d))
      in if n < 16 then [c] else hex_str (n div 16) @ [c])"

declare hex_str.simps [simp del]

definition icon_rule :: "(string \<Rightarrow> nat) \<Rightarrow> string \<Rightarrow> string" where
  "icon_rule codes i =
     ''.codicon-'' @ i @ '':before { content: '' @ [CHR 0x27, CHR 0x5C] @ hex_str (codes i) @
     [CHR 0x27] @ ''; }''"

section \<open>The fixed text\<close>

definition menu_css_box :: "css_line list" where
  "menu_css_box =
     [(0, ''.monaco-menu {''), (1, ''font-size: 13px;''), (1, ''border-radius: 5px;''),
      (1, ''min-width: 160px;''), (0, ''}''), (0, '''')]"

definition menu_css_actions :: "css_line list" where
  "menu_css_actions =
     [(0, ''''), (0, ''.monaco-menu .monaco-action-bar {''), (1, ''text-align: right;''),
      (1, ''overflow: hidden;''), (1, ''white-space: nowrap;''), (0, ''}''), (0, ''''),
      (0, ''.monaco-menu .monaco-action-bar .actions-container {''), (1, ''display: flex;''),
      (1, ''margin: 0 auto;''), (1, ''padding: 0;''), (1, ''width: 100%;''),
      (1, ''justify-content: flex-end;''), (0, ''}''), (0, ''''),
      (0, ''.monaco-menu .monaco-action-bar.vertical .actions-container {''),
      (1, ''display: inline-block;''), (0, ''}''), (0, ''''),
      (0, ''.monaco-menu .monaco-action-bar.reverse .actions-container {''),
      (1, ''flex-direction: row-reverse;''), (0, ''}''), (0, ''''),
      (0, ''.monaco-menu .monaco-action-bar .action-item {''), (1, ''cursor: pointer;''),
      (1, ''display: inline-block;''), (1, ''transition: transform 50ms ease;''),
      (1, ''position: relative;  /* DO NOT REMOVE - this is the key to preventing the ghosting icon bug in Chrome 42 */''),
      (0, ''}''), (0, ''''), (0, ''.monaco-menu .monaco-action-bar .action-item.disabled {''),
      (1, ''cursor: default;''), (0, ''}''), (0, ''''),
      (0, ''.monaco-menu .monaco-action-bar .action-item .icon,''),
      (0, ''.monaco-menu .monaco-action-bar .action-item .codicon {''), (1, ''display: inline-block;''),
      (0, ''}''), (0, ''''), (0, ''.monaco-menu .monaco-action-bar .action-item .codicon {''),
      (1, ''display: flex;''), (1, ''align-items: center;''), (0, ''}''), (0, ''''),
      (0, ''.monaco-menu .monaco-action-bar .action-label {''), (1, ''font-size: 11px;''),
      (1, ''margin-right: 4px;''), (0, ''}''), (0, ''''),
      (0, ''.monaco-menu .monaco-action-bar .action-item.disabled .action-label,''),
      (0, ''.monaco-menu .monaco-action-bar .action-item.disabled .action-label:hover {''),
      (1, ''color: var(--vscode-disabledForeground);''), (0, ''}''), (0, ''''),
      (0, ''/* Vertical actions */''), (0, ''''), (0, ''.monaco-menu .monaco-action-bar.vertical {''),
      (1, ''text-align: left;''), (0, ''}''), (0, ''''),
      (0, ''.monaco-menu .monaco-action-bar.vertical .action-item {''), (1, ''display: block;''),
      (0, ''}''), (0, ''''),
      (0, ''.monaco-menu .monaco-action-bar.vertical .action-label.separator {''),
      (1, ''display: block;''),
      (1, ''border-bottom: 1px solid var(--vscode-menu-separatorBackground);''),
      (1, ''padding-top: 1px;''), (1, ''padding: 30px;''), (0, ''}''), (0, ''''),
      (0, ''.monaco-menu .secondary-actions .monaco-action-bar .action-label {''),
      (1, ''margin-left: 6px;''), (0, ''}''), (0, '''')]"

definition menu_css_items :: "css_line list" where
  "menu_css_items =
     [(0, ''/* Action Items */''),
      (0, ''.monaco-menu .monaco-action-bar .action-item.select-container {''),
      (1, ''overflow: hidden; /* somehow the dropdown overflows its container, we prevent it here to not push */''),
      (1, ''flex: 1;''), (1, ''max-width: 170px;''), (1, ''min-width: 60px;''), (1, ''display: flex;''),
      (1, ''align-items: center;''), (1, ''justify-content: center;''), (1, ''margin-right: 10px;''),
      (0, ''}''), (0, ''''), (0, ''.monaco-menu .monaco-action-bar.vertical {''),
      (1, ''margin-left: 0;''), (1, ''overflow: visible;''), (0, ''}''), (0, ''''),
      (0, ''.monaco-menu .monaco-action-bar.vertical .actions-container {''), (1, ''display: block;''),
      (0, ''}''), (0, ''''), (0, ''.monaco-menu .monaco-action-bar.vertical .action-item {''),
      (1, ''padding: 0;''), (1, ''transform: none;''), (1, ''display: flex;''), (0, ''}''), (0, ''''),
      (0, ''.monaco-menu .monaco-action-bar.vertical .action-item.active {''),
      (1, ''transform: none;''), (0, ''}''), (0, ''''),
      (0, ''.monaco-menu .monaco-action-bar.vertical .action-menu-item {''), (1, ''flex: 1 1 auto;''),
      (1, ''display: flex;''), (1, ''height: 2em;''), (1, ''align-items: center;''),
      (1, ''position: relative;''), (1, ''margin: 0 4px;''), (1, ''border-radius: 4px;''), (0, ''}''),
      (0, ''''), (0, ''.monaco-menu .monaco-action-bar.vertical .action-menu-item:hover .keybinding,''),
      (0, ''.monaco-menu .monaco-action-bar.vertical .action-menu-item:focus .keybinding {''),
      (1, ''opacity: unset;''), (0, ''}''), (0, ''''),
      (0, ''.monaco-menu .monaco-action-bar.vertical .action-label {''), (1, ''flex: 1 1 auto;''),
      (1, ''text-decoration: none;''), (1, ''padding: 0 1em;''), (1, ''background: none;''),
      (1, ''font-size: 12px;''), (1, ''line-height: 1;''), (0, ''}''), (0, ''''),
      (0, ''.monaco-menu .monaco-action-bar.vertical .keybinding,''),
      (0, ''.monaco-menu .monaco-action-bar.vertical .submenu-indicator {''),
      (1, ''display: inline-block;''), (1, ''flex: 2 1 auto;''), (1, ''padding: 0 1em;''),
      (1, ''text-align: right;''), (1, ''font-size: 12px;''), (1, ''line-height: 1;''), (0, ''}''),
      (0, ''''), (0, ''.monaco-menu .monaco-action-bar.vertical .submenu-indicator {''),
      (1, ''height: 100%;''), (0, ''}''), (0, ''''),
      (0, ''.monaco-menu .monaco-action-bar.vertical .submenu-indicator.codicon {''),
      (1, ''font-size: 16px !important;''), (1, ''display: flex;''), (1, ''align-items: center;''),
      (0, ''}''), (0, ''''),
      (0, ''.monaco-menu .monaco-action-bar.vertical .submenu-indicator.codicon::before {''),
      (1, ''margin-left: auto;''), (1, ''margin-right: -20px;''), (0, ''}''), (0, ''''),
      (0, ''.monaco-menu .monaco-action-bar.vertical .action-item.disabled .keybinding,''),
      (0, ''.monaco-menu .monaco-action-bar.vertical .action-item.disabled .submenu-indicator {''),
      (1, ''opacity: 0.4;''), (0, ''}''), (0, ''''),
      (0, ''.monaco-menu .monaco-action-bar.vertical .action-label:not(.separator) {''),
      (1, ''display: inline-block;''), (1, ''box-sizing: border-box;''), (1, ''margin: 0;''),
      (0, ''}''), (0, ''''), (0, ''.monaco-menu .monaco-action-bar.vertical .action-item {''),
      (1, ''position: static;''), (1, ''overflow: visible;''), (0, ''}''), (0, ''''),
      (0, ''.monaco-menu .monaco-action-bar.vertical .action-item .monaco-submenu {''),
      (1, ''position: absolute;''), (0, ''}''), (0, ''''),
      (0, ''.monaco-menu .monaco-action-bar.vertical .action-label.separator {''),
      (1, ''width: 100%;''), (1, ''height: 0px !important;''), (1, ''opacity: 1;''), (0, ''}''),
      (0, ''''), (0, ''.monaco-menu .monaco-action-bar.vertical .action-label.separator.text {''),
      (1, ''padding: 0.7em 1em 0.1em 1em;''), (1, ''font-weight: bold;''), (1, ''opacity: 1;''),
      (0, ''}''), (0, ''''), (0, ''.monaco-menu .monaco-action-bar.vertical .action-label:hover {''),
      (1, ''color: inherit;''), (0, ''}''), (0, ''''),
      (0, ''.monaco-menu .monaco-action-bar.vertical .menu-item-check {''),
      (1, ''position: absolute;''), (1, ''visibility: hidden;''), (1, ''width: 1em;''),
      (1, ''height: 100%;''), (0, ''}''), (0, ''''),
      (0, ''.monaco-menu .monaco-action-bar.vertical .action-menu-item.checked .menu-item-check {''),
      (1, ''visibility: visible;''), (1, ''display: flex;''), (1, ''align-items: center;''),
      (1, ''justify-content: center;''), (0, ''}''), (0, '''')]"

definition menu_css_context :: "css_line list" where
  "menu_css_context =
     [(0, ''/* Context Menu */''), (0, ''''), (0, ''.context-view.monaco-menu-container {''),
      (1, ''outline: 0;''), (1, ''border: none;''), (1, ''animation: fadeIn 0.083s linear;''),
      (1, ''-webkit-app-region: no-drag;''), (0, ''}''), (0, ''''),
      (0, ''.context-view.monaco-menu-container :focus,''),
      (0, ''.context-view.monaco-menu-container .monaco-action-bar.vertical:focus,''),
      (0, ''.context-view.monaco-menu-container .monaco-action-bar.vertical :focus {''),
      (1, ''outline: 0;''), (0, ''}''), (0, ''''),
      (0, ''.hc-black .context-view.monaco-menu-container,''),
      (0, ''.hc-light .context-view.monaco-menu-container,''),
      (0, '':host-context(.hc-black) .context-view.monaco-menu-container,''),
      (0, '':host-context(.hc-light) .context-view.monaco-menu-container {''),
      (1, ''box-shadow: none;''), (0, ''}''), (0, ''''),
      (0, ''.hc-black .monaco-menu .monaco-action-bar.vertical .action-item.focused,''),
      (0, ''.hc-light .monaco-menu .monaco-action-bar.vertical .action-item.focused,''),
      (0, '':host-context(.hc-black) .monaco-menu .monaco-action-bar.vertical .action-item.focused,''),
      (0, '':host-context(.hc-light) .monaco-menu .monaco-action-bar.vertical .action-item.focused {''),
      (1, ''background: none;''), (0, ''}''), (0, ''''), (0, ''/* Vertical Action Bar Styles */''),
      (0, ''''), (0, ''.monaco-menu .monaco-action-bar.vertical {''), (1, ''padding: 4px 0;''),
      (0, ''}''), (0, ''''), (0, ''.monaco-menu .monaco-action-bar.vertical .action-menu-item {''),
      (1, ''height: 2em;''), (0, ''}''), (0, ''''),
      (0, ''.monaco-menu .monaco-action-bar.vertical .action-label:not(.separator),''),
      (0, ''.monaco-menu .monaco-action-bar.vertical .keybinding {''), (1, ''font-size: inherit;''),
      (1, ''padding: 0 2em;''), (1, ''max-height: 100%;''), (0, ''}''), (0, ''''),
      (0, ''.monaco-menu .monaco-action-bar.vertical .menu-item-check {''),
      (1, ''font-size: inherit;''), (1, ''width: 2em;''), (0, ''}''), (0, ''''),
      (0, ''.monaco-menu .monaco-action-bar.vertical .action-label.separator {''),
      (1, ''font-size: inherit;''), (1, ''margin: 5px 0 !important;''), (1, ''padding: 0;''),
      (1, ''border-radius: 0;''), (0, ''}''), (0, ''''),
      (0, ''.linux .monaco-menu .monaco-action-bar.vertical .action-label.separator,''),
      (0, '':host-context(.linux) .monaco-menu .monaco-action-bar.vertical .action-label.separator {''),
      (1, ''margin-left: 0;''), (1, ''margin-right: 0;''), (0, ''}''), (0, ''''),
      (0, ''.monaco-menu .monaco-action-bar.vertical .submenu-indicator {''), (1, ''font-size: 60%;''),
      (1, ''padding: 0 1.8em;''), (0, ''}''), (0, ''''),
      (0, ''.linux .monaco-menu .monaco-action-bar.vertical .submenu-indicator,''),
      (0, '':host-context(.linux) .monaco-menu .monaco-action-bar.vertical .submenu-indicator {''),
      (1, ''height: 100%;''), (1, ''mask-size: 10px 10px;''), (1, ''-webkit-mask-size: 10px 10px;''),
      (0, ''}''), (0, ''''), (0, ''.monaco-menu .action-item {''), (1, ''cursor: default;''),
      (0, ''}'')]"

definition scroll_css :: "css_line list" where
  "scroll_css =
     [(3, ''/* Arrows */''), (3, ''.monaco-scrollable-element > .scrollbar > .scra {''),
      (4, ''cursor: pointer;''), (4, ''font-size: 11px !important;''), (3, ''}''), (0, ''''),
      (3, ''.monaco-scrollable-element > .visible {''), (4, ''opacity: 1;''), (0, ''''),
      (4, ''/* Background rule added for IE9 - to allow clicks on dom node */''),
      (4, ''background:rgba(0,0,0,0);''), (0, ''''), (4, ''transition: opacity 100ms linear;''),
      (3, ''}''), (3, ''.monaco-scrollable-element > .invisible {''), (4, ''opacity: 0;''),
      (4, ''pointer-events: none;''), (3, ''}''),
      (3, ''.monaco-scrollable-element > .invisible.fade {''),
      (4, ''transition: opacity 800ms linear;''), (3, ''}''), (0, ''''),
      (3, ''/* Scrollable Content Inset Shadow */''), (3, ''.monaco-scrollable-element > .shadow {''),
      (4, ''position: absolute;''), (4, ''display: none;''), (3, ''}''),
      (3, ''.monaco-scrollable-element > .shadow.top {''), (4, ''display: block;''), (4, ''top: 0;''),
      (4, ''left: 3px;''), (4, ''height: 3px;''), (4, ''width: 100%;''), (3, ''}''),
      (3, ''.monaco-scrollable-element > .shadow.left {''), (4, ''display: block;''),
      (4, ''top: 3px;''), (4, ''left: 0;''), (4, ''height: 100%;''), (4, ''width: 3px;''), (3, ''}''),
      (3, ''.monaco-scrollable-element > .shadow.top-left-corner {''), (4, ''display: block;''),
      (4, ''top: 0;''), (4, ''left: 0;''), (4, ''height: 3px;''), (4, ''width: 3px;''), (3, ''}'')]"

section \<open>The rules that depend on the theme\<close>

record scroll_colours =
  scrollbarShadow :: "string option"
  scrollbarSliderBackground :: "string option"
  scrollbarSliderHoverBackground :: "string option"
  scrollbarSliderActiveBackground :: "string option"

definition shadow_css :: "string \<Rightarrow> css_line list" where
  "shadow_css i =
     [(4, ''.monaco-scrollable-element > .shadow.top {''),
      (5, ''box-shadow: '' @ i @ '' 0 6px 6px -6px inset;''), (4, ''}''), (0, ''''),
      (4, ''.monaco-scrollable-element > .shadow.left {''),
      (5, ''box-shadow: '' @ i @ '' 6px 0 6px -6px inset;''), (4, ''}''), (0, ''''),
      (4, ''.monaco-scrollable-element > .shadow.top.left {''),
      (5, ''box-shadow: '' @ i @ '' 6px 6px 6px -6px inset;''), (4, ''}''), (3, '''')]"

definition slider_css :: "string \<Rightarrow> string \<Rightarrow> css_line list" where
  "slider_css state n =
     [(4, ''.monaco-scrollable-element > .scrollbar > .slider'' @ state @ '' {''),
      (5, ''background: '' @ n @ '';''), (4, ''}''), (3, '''')]"

text \<open>\<^verbatim>\<open>c && (t += ...)\<close>: a missing and an empty colour are falsy.\<close>

definition if_colour :: "string option \<Rightarrow> (string \<Rightarrow> css_line list) \<Rightarrow> css_line list" where
  "if_colour c f = (case c of None \<Rightarrow> [] | Some s \<Rightarrow> if s = [] then [] else f s)"

definition scroll_rules :: "scroll_colours \<Rightarrow> css_line list" where
  "scroll_rules o' =
     scroll_css @ [(2, '''')] @ if_colour (scrollbarShadow o') shadow_css @
     if_colour (scrollbarSliderBackground o') (slider_css '''') @
     if_colour (scrollbarSliderHoverBackground o') (slider_css '':hover'') @
     if_colour (scrollbarSliderActiveBackground o') (slider_css ''.active'')"

definition menu_style :: "(string \<Rightarrow> nat) \<Rightarrow> scroll_colours \<Rightarrow> bool \<Rightarrow> string" where
  "menu_style codes o' e =
     (let t = css_text (menu_css_box @ [(0, icon_rule codes ''menu-selection''),
                                        (0, icon_rule codes ''menu-submenu'')] @
                        menu_css_actions @ menu_css_items @ menu_css_context)
      in if e then t @ css_text (scroll_rules o') else t)"

section \<open>Braces\<close>

text \<open>The nesting depth behind a text, \<open>None\<close> if a brace closes that was not opened.\<close>

fun braces :: "nat \<Rightarrow> string \<Rightarrow> nat option" where
  "braces n [] = Some n"
| "braces n (c # cs) =
     (if c = CHR ''{'' then braces (Suc n) cs
      else if c = CHR ''}'' then (case n of 0 \<Rightarrow> None | Suc m \<Rightarrow> braces m cs)
      else braces n cs)"

lemma braces_append: "braces n (a @ b) = Option.bind (braces n a) (\<lambda>m. braces m b)"
  by (induction n a rule: braces.induct) (auto split: nat.splits)

lemma braces_free: "CHR ''{'' \<notin> set s \<Longrightarrow> CHR ''}'' \<notin> set s \<Longrightarrow> braces n s = Some n"
  by (induction s) auto

lemma braces_replicate [simp]: "c \<noteq> CHR ''{'' \<Longrightarrow> c \<noteq> CHR ''}'' \<Longrightarrow> braces n (replicate k c @ s) = braces n s"
  by (induction k) auto

lemma braces_replicate_all [simp]: "c \<noteq> CHR ''{'' \<Longrightarrow> c \<noteq> CHR ''}'' \<Longrightarrow> braces n (replicate k c) = Some n"
  by (induction k) auto

definition balanced :: "string \<Rightarrow> bool" where
  "balanced s \<longleftrightarrow> braces 0 s = Some 0"

lemma balanced_append: "balanced a \<Longrightarrow> balanced b \<Longrightarrow> balanced (a @ b)"
  by (simp add: balanced_def braces_append)

lemma css_text_append: "css_text (a @ b) = css_text a @ css_text b"
  by (simp add: css_text_def)

lemma css_text_Nil [simp]: "css_text [] = []"
  by (simp add: css_text_def)

lemma css_text_Cons: "css_text (l # ls) = nl # line_str l @ css_text ls"
  by (simp add: css_text_def)

lemma braces_line_str: "braces n (line_str l @ s) = Option.bind (braces n (snd l)) (\<lambda>m. braces m s)"
  by (cases l) (simp add: line_str_def braces_append)

lemma braces_line: "braces n (css_text (l # ls)) = Option.bind (braces n (snd l)) (\<lambda>m. braces m (css_text ls))"
  by (simp add: css_text_Cons braces_line_str nl_def)

lemma hex_char_code:
  "char_code (if n mod 16 < 10 then char_of (48 + n mod 16) else char_of (87 + n mod 16)) \<notin> {123, 125, 10}"
  for n :: nat
proof -
  have "n mod 16 < (16::nat)" by simp
  then show ?thesis by (cases "n mod 16 < 10") auto
qed

lemma hex_str_chars: "x \<in> set (hex_str n) \<Longrightarrow> char_code x \<notin> {123, 125, 10}"
proof (induction n rule: hex_str.induct)
  case (1 n)
  show ?case
  proof (cases "n < 16")
    case True
    then show ?thesis
      using "1.prems" hex_char_code [of n] by (subst (asm) hex_str.simps) (simp add: Let_def)
  next
    case False
    then have "x \<in> set (hex_str (n div 16)) \<or>
        x = (if n mod 16 < 10 then char_of (48 + n mod 16) else char_of (87 + n mod 16))"
      using "1.prems" by (subst (asm) hex_str.simps) (auto simp: Let_def split: if_splits)
    then show ?thesis
    proof
      assume "x \<in> set (hex_str (n div 16))"
      then show ?thesis by (rule "1.IH" [OF refl refl False])
    next
      assume "x = (if n mod 16 < 10 then char_of (48 + n mod 16) else char_of (87 + n mod 16))"
      then show ?thesis using hex_char_code [of n] by (simp only: not_False_eq_True)
    qed
  qed
qed

lemma hex_str_free: "CHR ''{'' \<notin> set (hex_str n)" "CHR ''}'' \<notin> set (hex_str n)" "nl \<notin> set (hex_str n)"
proof -
  have "char_code (CHR ''{'') = 123" "char_code (CHR ''}'') = 125" "char_code nl = 10"
    by (simp_all add: char_code_def nl_def)
  then show "CHR ''{'' \<notin> set (hex_str n)" "CHR ''}'' \<notin> set (hex_str n)" "nl \<notin> set (hex_str n)"
    using hex_str_chars [of _ n] by (metis insertCI)+
qed

lemma icon_rule_balanced:
  "CHR ''{'' \<notin> set i \<Longrightarrow> CHR ''}'' \<notin> set i \<Longrightarrow> braces n (icon_rule codes i) = Some n"
  by (simp add: hex_str_free icon_rule_def braces_append braces_free)

lemma fixed_parts_balanced:
  "balanced (css_text menu_css_box)" "balanced (css_text menu_css_actions)"
  "balanced (css_text menu_css_items)" "balanced (css_text menu_css_context)"
  "balanced (css_text scroll_css)"
  by (simp_all add: balanced_def braces_line menu_css_box_def menu_css_actions_def menu_css_items_def
      menu_css_context_def scroll_css_def)

text \<open>A colour value cannot open or close a block or start a new line.\<close>

definition plain_value :: "string option \<Rightarrow> bool" where
  "plain_value c = (case c of None \<Rightarrow> True | Some s \<Rightarrow> list_all (\<lambda>x. x \<notin> {CHR ''{'', CHR ''}'', nl}) s)"

definition plain_colours :: "scroll_colours \<Rightarrow> bool" where
  "plain_colours o' \<longleftrightarrow>
     plain_value (scrollbarShadow o') \<and> plain_value (scrollbarSliderBackground o') \<and>
     plain_value (scrollbarSliderHoverBackground o') \<and> plain_value (scrollbarSliderActiveBackground o')"

lemma colour_balanced:
  assumes "\<And>s. plain_value (Some s) \<Longrightarrow> balanced (css_text (f s))" "plain_value c"
  shows "balanced (css_text (if_colour c f))"
  using assms by (auto simp: if_colour_def balanced_def css_text_def split: option.split)

lemma colour_rules_balanced:
  assumes "plain_value (Some s)"
  shows "balanced (css_text (shadow_css s))"
    and "CHR ''{'' \<notin> set st \<Longrightarrow> CHR ''}'' \<notin> set st \<Longrightarrow> balanced (css_text (slider_css st s))"
proof -
  have "braces n s = Some n" for n
    using assms by (intro braces_free) (auto simp: plain_value_def list_all_iff)
  then show "balanced (css_text (shadow_css s))"
    by (simp add: balanced_def shadow_css_def braces_line braces_append)
  show "balanced (css_text (slider_css st s))" if "CHR ''{'' \<notin> set st" "CHR ''}'' \<notin> set st"
    using \<open>\<And>n. braces n s = Some n\<close> braces_free [OF that]
    by (simp add: balanced_def slider_css_def braces_line braces_append)
qed

section \<open>Selectors\<close>

text \<open>A line is part of a selector if it ends in an opening brace or a comma.\<close>

definition selector_line :: "string \<Rightarrow> bool" where
  "selector_line l \<longleftrightarrow> l \<noteq> [] \<and> last l \<in> {CHR ''{'', CHR '',''}"

definition after_tabs :: "string \<Rightarrow> string" where
  "after_tabs l = dropWhile (\<lambda>c. c = CHR 0x09) l"

text \<open>The elements that belong to a menu or to a scroll bar.\<close>

definition scopes :: "string list" where
  "scopes =
     [''.monaco-menu '', ''.context-view.monaco-menu-container'', ''.monaco-scrollable-element '',
      ''.hc-black .context-view.monaco-menu-container'', ''.hc-light .context-view.monaco-menu-container'',
      '':host-context(.hc-black) .context-view.monaco-menu-container'',
      '':host-context(.hc-light) .context-view.monaco-menu-container'',
      ''.hc-black .monaco-menu '', ''.hc-light .monaco-menu '', '':host-context(.hc-black) .monaco-menu '',
      '':host-context(.hc-light) .monaco-menu '', ''.linux .monaco-menu '',
      '':host-context(.linux) .monaco-menu '']"

definition scoped :: "string \<Rightarrow> bool" where
  "scoped l \<longleftrightarrow> list_ex (\<lambda>p. starts_with p (after_tabs l)) scopes"

definition line_scoped :: "css_line \<Rightarrow> bool" where
  "line_scoped l \<longleftrightarrow>
     (nl \<notin> set (snd l)) \<and> (selector_line (snd l) \<longrightarrow> list_ex (\<lambda>p. starts_with p (snd l)) scopes) \<and>
     (snd l \<noteq> [] \<longrightarrow> hd (snd l) \<noteq> CHR 0x09)"

lemma fixed_lines_scoped:
  "list_all line_scoped menu_css_box" "list_all line_scoped menu_css_actions"
  "list_all line_scoped menu_css_items" "list_all line_scoped menu_css_context"
  "list_all line_scoped scroll_css"
  by code_simp+

lemma after_tabs_line: "s = [] \<or> hd s \<noteq> CHR 0x09 \<Longrightarrow> after_tabs (replicate t (CHR 0x09) @ s) = s"
  by (induction t) (cases s; auto simp: after_tabs_def)+

lemma line_scoped_str:
  "line_scoped l \<Longrightarrow> nl \<notin> set (line_str l) \<and> (selector_line (line_str l) \<longrightarrow> scoped (line_str l))"
proof (cases l)
  case (Pair t s)
  assume "line_scoped l"
  then show ?thesis
    using Pair by (cases "s = []") (auto simp: line_scoped_def line_str_def scoped_def after_tabs_line
        selector_line_def nl_def last_append last_replicate split: if_splits)
qed

lemma split_css_text:
  "list_all line_scoped ls \<Longrightarrow> split_on nl (css_text ls) = [] # map line_str ls"
proof (induction ls)
  case (Cons l ls)
  have "split_on nl (css_text (l # ls)) = [] # split_on nl (line_str l @ css_text ls)"
    by (simp add: css_text_Cons)
  also have "split_on nl (line_str l @ css_text ls) = line_str l # map line_str ls"
  proof (cases ls)
    case Nil
    then show ?thesis using Cons line_scoped_str [of l] by (simp add: split_on_free)
  next
    case (Cons m ms)
    then obtain r where r: "css_text ls = nl # r" by (auto simp: css_text_Cons)
    then have "split_on nl r = map line_str ls" using Cons.IH Cons.prems \<open>ls = m # ms\<close> by simp
    then show ?thesis
      using r Cons.prems line_scoped_str [of l] by (simp add: split_on_append_sep split_on_free)
  qed
  finally show ?case by simp
qed simp

lemma icon_rule_line: "nl \<notin> set i \<Longrightarrow> line_scoped (0, icon_rule codes i)"
  by (simp add: line_scoped_def icon_rule_def hex_str_free selector_line_def) (simp add: nl_def)

lemma colour_rules_scoped:
  assumes "plain_value (Some s)"
  shows "list_all line_scoped (shadow_css s)"
    "nl \<notin> set st \<Longrightarrow> list_all line_scoped (slider_css st s)"
proof -
  have n: "nl \<notin> set s" using assms by (auto simp: plain_value_def list_all_iff)
  then show "list_all line_scoped (shadow_css s)"
    by (simp add: shadow_css_def line_scoped_def selector_line_def starts_with_def scopes_def)
      (simp add: nl_def)
  show "nl \<notin> set st \<Longrightarrow> list_all line_scoped (slider_css st s)"
    using n
    by (simp add: slider_css_def line_scoped_def selector_line_def starts_with_def scopes_def)
      (simp add: nl_def)
qed

lemma if_colour_scoped:
  "(\<And>s. plain_value (Some s) \<Longrightarrow> list_all line_scoped (f s)) \<Longrightarrow> plain_value c \<Longrightarrow>
   list_all line_scoped (if_colour c f)"
  by (auto simp: if_colour_def split: option.split)

lemma scroll_rules_scoped:
  assumes "plain_colours o'" shows "list_all line_scoped (scroll_rules o')"
proof -
  have n: "nl \<notin> set '':hover''" "nl \<notin> set ''.active''" "nl \<notin> set []" "list_all line_scoped [(2, '''')]"
    by (simp_all add: nl_def line_scoped_def selector_line_def)
  show ?thesis
    unfolding scroll_rules_def list_all_append
    using assms fixed_lines_scoped(5) n
    by (intro conjI if_colour_scoped colour_rules_scoped) (simp_all only: plain_colours_def not_False_eq_True)
qed

lemma scroll_rules_balanced:
  assumes "plain_colours o'" shows "balanced (css_text (scroll_rules o'))"
proof -
  have "balanced (css_text [(2, '''')])"
    by (simp add: balanced_def braces_line)
  then show ?thesis
    unfolding scroll_rules_def css_text_append
    using assms fixed_parts_balanced(5)
    by (intro balanced_append colour_balanced colour_rules_balanced) (simp_all add: plain_colours_def)
qed

definition menu_lines :: "(string \<Rightarrow> nat) \<Rightarrow> css_line list" where
  "menu_lines codes =
     menu_css_box @ [(0, icon_rule codes ''menu-selection''), (0, icon_rule codes ''menu-submenu'')] @
     menu_css_actions @ menu_css_items @ menu_css_context"

lemma menu_style_lines:
  "menu_style codes o' e = css_text (menu_lines codes @ (if e then scroll_rules o' else []))"
  by (simp add: menu_style_def menu_lines_def css_text_append Let_def del: append.simps)

lemma menu_lines_balanced: "balanced (css_text (menu_lines codes))"
proof -
  have "balanced (css_text [(0, icon_rule codes ''menu-selection''), (0, icon_rule codes ''menu-submenu'')])"
    by (simp add: balanced_def braces_line icon_rule_balanced)
  then show ?thesis
    unfolding menu_lines_def css_text_append
    using fixed_parts_balanced by (intro balanced_append)
qed

lemma menu_lines_scoped: "list_all line_scoped (menu_lines codes)"
proof -
  have "line_scoped (0, icon_rule codes ''menu-selection'')" "line_scoped (0, icon_rule codes ''menu-submenu'')"
    by (rule icon_rule_line, simp add: nl_def)+
  then show ?thesis
    using fixed_lines_scoped by (simp add: menu_lines_def)
qed

section \<open>Properties\<close>

text \<open>
  the generated style sheet is well formed whatever colours the theme gives, as long as
  none of them contains a brace or a line break: every block that is opened is closed.
\<close>

theorem menu_style_balanced:
  assumes "plain_colours o'"
  shows "braces 0 (menu_style codes o' e) = Some 0"
  using balanced_append [OF menu_lines_balanced scroll_rules_balanced [OF assms]] menu_lines_balanced
  by (simp add: menu_style_lines css_text_append balanced_def)

definition sample_theme :: scroll_colours where
  "sample_theme =
     \<lparr>scrollbarShadow = Some ''#000000'', scrollbarSliderBackground = Some ''rgba(121, 121, 121, 0.4)'',
      scrollbarSliderHoverBackground = None, scrollbarSliderActiveBackground = Some ''''\<rparr>"

lemma sample_theme_plain: "plain_colours sample_theme"
  by (simp add: plain_colours_def plain_value_def sample_theme_def nl_def)

theorem menu_style_balanced_witness:
  "braces 0 (menu_style (\<lambda>_. 60091) sample_theme True) = Some 0"
  by (rule menu_style_balanced [OF sample_theme_plain])



end
