(* ===== verification/Catalog.thy ===== *)
theory Catalog
  imports Lab_Prelude
begin

text \<open>
  Sizes, scenarios and the operator's configuration (\<^verbatim>\<open>internal/sizing\<close>, \<^verbatim>\<open>internal/scenario\<close>,
  \<^verbatim>\<open>internal/operator\<close> and \<^verbatim>\<open>goldenPVCForScenario\<close> of \<^verbatim>\<open>internal/provider/kubevirt\<close>). The file
  system and the YAML parser are parameters: \<open>read\<close> gives the content of a file, if it can be
  read, and \<open>parse\<close> the scenario a text describes. The zero value of a string is the empty
  string, of a Go map the empty map.
\<close>

section \<open>Sizes\<close>

record spec =
  CPU :: string
  Memory :: string

definition default_size :: string where
  "default_size = ''medium''"

definition size_defaults :: "(string \<times> spec) list" where
  "size_defaults =
     [(''small'', \<lparr>CPU = ''2'', Memory = ''4Gi''\<rparr>),
      (''medium'', \<lparr>CPU = ''4'', Memory = ''8Gi''\<rparr>),
      (''large'', \<lparr>CPU = ''8'', Memory = ''16Gi''\<rparr>)]"

definition valid_size :: "string \<Rightarrow> bool" where
  "valid_size s \<longleftrightarrow> map_of size_defaults s \<noteq> None"

datatype size_error = Unknown_size string

definition normalize_size :: "string \<Rightarrow> size_error + string" where
  "normalize_size s =
     (if s = [] then Inr default_size
      else if \<not> valid_size s then Inl (Unknown_size s) else Inr s)"

definition resolve_size :: "string \<Rightarrow> (string \<rightharpoonup> spec) \<Rightarrow> spec option" where
  "resolve_size s overrides =
     (case overrides s of Some o' \<Rightarrow> Some o' | None \<Rightarrow> map_of size_defaults s)"

text \<open>
  \<^verbatim>\<open>SizeOverrides\<close>: the configured entries in some order (Go's map order; only the tier an error
  names depends on it).
\<close>

fun size_overrides :: "(string \<times> spec) list \<Rightarrow> size_error + (string \<rightharpoonup> spec)" where
  "size_overrides [] = Inr Map.empty"
| "size_overrides ((n, e) # es) =
     (if \<not> valid_size n then Inl (Unknown_size n)
      else (case size_overrides es of Inl x \<Rightarrow> Inl x | Inr m \<Rightarrow> Inr (if m n = None then m(n \<mapsto> e) else m)))"

section \<open>Scenarios\<close>

record step =
  step_title :: string
  step_file :: string
  step_verify :: string
  step_content :: string
  has_verify :: bool

record scenario =
  sc_id :: string
  sc_title :: string
  sc_description :: string
  sc_duration :: int
  sc_difficulty :: string
  sc_steps :: "step list"
  sc_browser :: bool
  sc_playground :: bool
  sc_image :: string
  sc_size :: string

datatype scenario_error =
    Scenario_not_found string
  | Bad_yaml
  | Step_file_missing nat string

text \<open>The loop over the steps; \<open>i\<close> counts from one as in the error message.\<close>

fun load_steps :: "(string \<Rightarrow> string option) \<Rightarrow> string \<Rightarrow> nat \<Rightarrow> step list \<Rightarrow> scenario_error + step list" where
  "load_steps read sid i [] = Inr []"
| "load_steps read sid i (st # sts) =
     (case read (sid @ ''/'' @ step_file st) of
        None \<Rightarrow> Inl (Step_file_missing i (step_file st))
      | Some c \<Rightarrow>
          (case load_steps read sid (Suc i) sts of
             Inl e \<Rightarrow> Inl e
           | Inr r \<Rightarrow> Inr (st\<lparr>step_content := c, has_verify := (step_verify st \<noteq> [])\<rparr> # r)))"

definition load_scenario ::
  "(string \<Rightarrow> string option) \<Rightarrow> (string \<Rightarrow> scenario option) \<Rightarrow> string \<Rightarrow> scenario_error + scenario" where
  "load_scenario read parse sid =
     (case read (sid @ ''/scenario.yaml'') of
        None \<Rightarrow> Inl (Scenario_not_found sid)
      | Some d \<Rightarrow>
          (case parse d of
             None \<Rightarrow> Inl Bad_yaml
           | Some s \<Rightarrow>
               (case load_steps read sid 1 (sc_steps s) of
                  Inl e \<Rightarrow> Inl e
                | Inr sts \<Rightarrow> Inr (s\<lparr>sc_id := sid, sc_steps := sts\<rparr>))))"

record summary =
  sm_id :: string
  sm_title :: string
  sm_description :: string
  sm_duration :: int
  sm_difficulty :: string
  sm_playground :: bool

definition summary_of :: "scenario \<Rightarrow> summary" where
  "summary_of s =
     \<lparr>sm_id = sc_id s, sm_title = sc_title s, sm_description = sc_description s,
      sm_duration = sc_duration s, sm_difficulty = sc_difficulty s, sm_playground = sc_playground s\<rparr>"

text \<open>The entries of the root directory, with whether each is a directory.\<close>

definition list_summaries ::
  "(string \<Rightarrow> string option) \<Rightarrow> (string \<Rightarrow> scenario option) \<Rightarrow> (string \<times> bool) list \<Rightarrow> summary list" where
  "list_summaries read parse entries =
     concat (map (\<lambda>(n, d). if \<not> d then []
                           else (case load_scenario read parse n of
                                   Inl _ \<Rightarrow> [] | Inr s \<Rightarrow> [summary_of s])) entries)"

section \<open>The golden disk of a scenario\<close>

datatype golden_error = Golden_scenario scenario_error | No_golden_pvc string string

definition image_tier :: "scenario \<Rightarrow> string \<Rightarrow> string" where
  "image_tier sc sid =
     (let prefix = ''playground-'';
          tier = (if sc_image sc \<noteq> [] then sc_image sc
                  else if sc_playground sc \<and> length sid > length prefix \<and> take (length prefix) sid = prefix
                  then drop (length prefix) sid
                  else ''base'')
      in if tier = ''tools'' then ''base'' else tier)"

definition golden_pvc ::
  "(string \<Rightarrow> scenario_error + scenario) \<Rightarrow> (string \<rightharpoonup> string) \<Rightarrow> string \<Rightarrow> golden_error + string" where
  "golden_pvc load pvcs sid =
     (case load sid of
        Inl e \<Rightarrow> Inl (Golden_scenario e)
      | Inr sc \<Rightarrow>
          (let tier = image_tier sc sid
           in case pvcs tier of
                None \<Rightarrow> Inl (No_golden_pvc tier sid)
              | Some p \<Rightarrow> if p = [] then Inl (No_golden_pvc tier sid) else Inr p))"

section \<open>Facts\<close>

lemma default_size_valid: "valid_size default_size"
  by (simp add: valid_size_def default_size_def size_defaults_def)

lemma normalize_valid: "normalize_size s = Inr z \<Longrightarrow> valid_size z"
  using default_size_valid by (auto simp: normalize_size_def split: if_splits)

lemma load_steps_shape:
  "load_steps read sid i sts = Inr r \<Longrightarrow>
   length r = length sts \<and> map step_file r = map step_file sts \<and>
   (\<forall>st \<in> set r. read (sid @ ''/'' @ step_file st) = Some (step_content st) \<and>
                 has_verify st = (step_verify st \<noteq> []))"
proof (induction sts arbitrary: i r)
  case (Cons st sts)
  then obtain c r' where "read (sid @ ''/'' @ step_file st) = Some c"
    "load_steps read sid (Suc i) sts = Inr r'"
    "r = st\<lparr>step_content := c, has_verify := (step_verify st \<noteq> [])\<rparr> # r'"
    by (auto split: option.splits sum.splits)
  then show ?case using Cons.IH [of "Suc i" r'] by simp
qed simp

lemma load_steps_error:
  "load_steps read sid i sts = Inl e \<Longrightarrow>
   \<exists>j < length sts. e = Step_file_missing (i + j) (step_file (sts ! j)) \<and>
      read (sid @ ''/'' @ step_file (sts ! j)) = None \<and>
      (\<forall>k < j. read (sid @ ''/'' @ step_file (sts ! k)) \<noteq> None)"
proof (induction sts arbitrary: i)
  case (Cons st sts)
  show ?case
  proof (cases "read (sid @ ''/'' @ step_file st)")
    case None
    then show ?thesis using Cons.prems by (intro exI [of _ 0]) simp
  next
    case (Some c)
    then have "load_steps read sid (Suc i) sts = Inl e"
      using Cons.prems by (auto split: sum.splits)
    from Cons.IH [OF this] obtain j where j: "j < length sts"
      "e = Step_file_missing (Suc i + j) (step_file (sts ! j))"
      "read (sid @ ''/'' @ step_file (sts ! j)) = None"
      "\<forall>k < j. read (sid @ ''/'' @ step_file (sts ! k)) \<noteq> None"
      by blast
    show ?thesis
      using j Some by (intro exI [of _ "Suc j"]) (simp add: All_less_Suc2)
  qed
qed simp

section \<open>Properties\<close>

text \<open>
  every size a scenario may declare resolves: normalising gives an error exactly for a
  non-empty unknown tier, and a normalised size has a resource spec whatever the operator
  overrides, so the branch of the provider that reports a size without a spec is never
  taken; an override wins over the built-in table.
\<close>

theorem normalized_size_resolves:
  "case normalize_size s of
     Inl e \<Rightarrow> s \<noteq> [] \<and> \<not> valid_size s \<and> e = Unknown_size s
   | Inr z \<Rightarrow> valid_size z \<and> resolve_size z ovr \<noteq> None \<and>
             (case ovr z of None \<Rightarrow> True | Some sp \<Rightarrow> resolve_size z ovr = Some sp)"
proof (cases "normalize_size s")
  case (Inl e)
  then show ?thesis by (auto simp: normalize_size_def split: if_splits)
next
  case (Inr z)
  have "valid_size z" using Inr by (rule normalize_valid)
  moreover have "resolve_size z ovr \<noteq> None"
    using \<open>valid_size z\<close> by (cases "ovr z") (simp_all add: resolve_size_def valid_size_def)
  ultimately show ?thesis
    using Inr by (cases "ovr z") (simp_all add: resolve_size_def)
qed

text \<open>
  loading a scenario is all or nothing and reports the first step whose text is
  missing by its number: a loaded scenario has the id it was asked for, one step per
  declared step in the declared order, each with the content of its file and marked as
  verifiable exactly if it names a verify script.
\<close>

theorem load_scenario_steps:
  "case load_scenario read parse sid of
     Inr sc \<Rightarrow> sc_id sc = sid \<and>
       (\<exists>d s. read (sid @ ''/scenario.yaml'') = Some d \<and> parse d = Some s \<and>
          map step_file (sc_steps sc) = map step_file (sc_steps s) \<and>
          list_all (\<lambda>st. read (sid @ ''/'' @ step_file st) = Some (step_content st) \<and>
                         has_verify st = (step_verify st \<noteq> [])) (sc_steps sc))
   | Inl (Step_file_missing n f) \<Rightarrow>
       (\<exists>d s. read (sid @ ''/scenario.yaml'') = Some d \<and> parse d = Some s \<and>
          1 \<le> n \<and> n \<le> length (sc_steps s) \<and> step_file (sc_steps s ! (n - 1)) = f \<and>
          read (sid @ ''/'' @ f) = None \<and>
          list_all (\<lambda>st. read (sid @ ''/'' @ step_file st) \<noteq> None) (take (n - 1) (sc_steps s)))
   | Inl Bad_yaml \<Rightarrow> \<exists>d. read (sid @ ''/scenario.yaml'') = Some d \<and> parse d = None
   | Inl (Scenario_not_found t) \<Rightarrow> t = sid \<and> read (sid @ ''/scenario.yaml'') = None"
proof (cases "read (sid @ ''/scenario.yaml'')")
  case None
  then show ?thesis by (simp add: load_scenario_def)
next
  case (Some d)
  show ?thesis
  proof (cases "parse d")
    case None
    then show ?thesis using Some by (simp add: load_scenario_def)
  next
    case p: (Some s)
    show ?thesis
    proof (cases "load_steps read sid 1 (sc_steps s)")
      case (Inl e)
      from load_steps_error [OF this] obtain j where
        "j < length (sc_steps s)" "e = Step_file_missing (1 + j) (step_file (sc_steps s ! j))"
        "read (sid @ ''/'' @ step_file (sc_steps s ! j)) = None"
        "\<forall>k < j. read (sid @ ''/'' @ step_file (sc_steps s ! k)) \<noteq> None"
        by blast
      then show ?thesis
        using Some p Inl by (auto simp: load_scenario_def list_all_length)
    next
      case (Inr r)
      then show ?thesis
        using Some p load_steps_shape [OF Inr] by (auto simp: load_scenario_def list_all_iff)
    qed
  qed
qed

end
