(* ===== verification/Lab_Sessions.thy ===== *)
theory Lab_Sessions
  imports Catalog
begin

text \<open>
  The LabSession resource (\<^verbatim>\<open>api/v1alpha1\<close>), the part of the Kubernetes API the platform uses on
  it, and the session manager of the server (\<^verbatim>\<open>internal/session\<close>).

  The API server keeps the resources in the order of their creation. Every call consumes one
  entry of \<open>faults\<close>: \<open>True\<close> makes it fail without an effect (network, conflict, webhook), an
  empty list means no more failures. A resource with finalizers is only marked for deletion;
  it goes when its last finalizer is removed. Times are integers; \<open>None\<close> is the zero time.
\<close>

section \<open>The resource\<close>

datatype phase = Phase_none | Provisioning | Running | Ready | Expired | Failed | Paused

record lab_spec =
  sessionID :: string
  scenarioID :: string
  clientID :: string
  userEmail :: string
  size_tier :: string
  browserEnabled :: bool
  expiresAt :: "int option"
  paused :: bool

type_synonym step_record = "string \<times> int"

record lab_status =
  ph :: phase
  serviceDNS :: string
  message :: string
  completedSteps :: "step_record list"
  snapshotName :: string

record lab_session =
  ls_name :: string
  ls_labels :: "string \<rightharpoonup> string"
  ls_created :: int
  ls_deleting :: bool
  ls_finalizers :: "string list"
  ls_spec :: lab_spec
  ls_status :: lab_status

section \<open>The API server\<close>

record k8s =
  crs :: "lab_session list"
  faults :: "bool list"

datatype api_error = Api_fault | Not_found | Already_exists

definition api_call :: "k8s \<Rightarrow> bool \<times> k8s" where
  "api_call k = (case faults k of [] \<Rightarrow> (False, k) | b # bs \<Rightarrow> (b, k\<lparr>faults := bs\<rparr>))"

definition cr_get :: "string \<Rightarrow> k8s \<Rightarrow> (api_error + lab_session) \<times> k8s" where
  "cr_get n k =
     (case api_call k of (b, k1) \<Rightarrow>
        if b then (Inl Api_fault, k1)
        else (case find (\<lambda>l. ls_name l = n) (crs k1) of
                None \<Rightarrow> (Inl Not_found, k1) | Some l \<Rightarrow> (Inr l, k1)))"

definition cr_list :: "(lab_session \<Rightarrow> bool) \<Rightarrow> k8s \<Rightarrow> (api_error + lab_session list) \<times> k8s" where
  "cr_list sel k =
     (case api_call k of (b, k1) \<Rightarrow>
        if b then (Inl Api_fault, k1) else (Inr (filter sel (crs k1)), k1))"

definition cr_create :: "lab_session \<Rightarrow> k8s \<Rightarrow> (api_error + unit) \<times> k8s" where
  "cr_create l k =
     (case api_call k of (b, k1) \<Rightarrow>
        if b then (Inl Api_fault, k1)
        else if find (\<lambda>x. ls_name x = ls_name l) (crs k1) \<noteq> None then (Inl Already_exists, k1)
        else (Inr (), k1\<lparr>crs := crs k1 @ [l]\<rparr>))"

definition gone :: "lab_session \<Rightarrow> bool" where
  "gone l \<longleftrightarrow> ls_deleting l \<and> ls_finalizers l = []"

text \<open>
  Patches and updates apply \<open>f\<close> to the resource named \<open>n\<close>; the result is the patched
  resource.
\<close>

definition cr_patch :: "string \<Rightarrow> (lab_session \<Rightarrow> lab_session) \<Rightarrow> k8s \<Rightarrow> (api_error + lab_session) \<times> k8s" where
  "cr_patch n f k =
     (case api_call k of (b, k1) \<Rightarrow>
        if b then (Inl Api_fault, k1)
        else (case find (\<lambda>l. ls_name l = n) (crs k1) of
                None \<Rightarrow> (Inl Not_found, k1)
              | Some l \<Rightarrow>
                  (Inr (f l),
                   k1\<lparr>crs := filter (\<lambda>x. \<not> gone x) (map (\<lambda>x. if ls_name x = n then f x else x) (crs k1))\<rparr>)))"

definition cr_delete :: "string \<Rightarrow> k8s \<Rightarrow> (api_error + unit) \<times> k8s" where
  "cr_delete n k =
     (case cr_patch n (ls_deleting_update (\<lambda>_. True)) k of
        (Inl e, k1) \<Rightarrow> (Inl e, k1) | (Inr _, k1) \<Rightarrow> (Inr (), k1))"

section \<open>The session manager\<close>

datatype status = Status_provisioning | Status_ready | Status_expired | Status_paused

record session =
  s_id :: string
  s_scenario :: string
  s_userEmail :: string
  s_clientID :: string
  s_serviceDNS :: string
  s_status :: status
  s_paused :: bool
  s_browserEnabled :: bool
  s_sessionType :: string
  s_aeToken :: string
  s_createdAt :: int
  s_expiresAt :: "int option"
  s_completedSteps :: "step_record list"

definition client_label :: string where "client_label = ''lab.uds.dev/client''"
definition type_label :: string where "type_label = ''lab.uds.dev/session-type''"
definition ae_label :: string where "ae_label = ''lab.uds.dev/ae-token''"

definition label_or_empty :: "(string \<rightharpoonup> string) \<Rightarrow> string \<Rightarrow> string" where
  "label_or_empty m l = (case m l of None \<Rightarrow> [] | Some v \<Rightarrow> v)"

definition status_of_phase :: "phase \<Rightarrow> status" where
  "status_of_phase p =
     (case p of Ready \<Rightarrow> Status_ready | Paused \<Rightarrow> Status_paused
      | Failed \<Rightarrow> Status_expired | Expired \<Rightarrow> Status_expired | _ \<Rightarrow> Status_provisioning)"

definition lsToSession :: "lab_session \<Rightarrow> session" where
  "lsToSession l =
     \<lparr>s_id = sessionID (ls_spec l), s_scenario = scenarioID (ls_spec l),
      s_userEmail = userEmail (ls_spec l), s_clientID = clientID (ls_spec l),
      s_serviceDNS = serviceDNS (ls_status l), s_status = status_of_phase (ph (ls_status l)),
      s_paused = paused (ls_spec l), s_browserEnabled = browserEnabled (ls_spec l),
      s_sessionType = label_or_empty (ls_labels l) type_label,
      s_aeToken = label_or_empty (ls_labels l) ae_label,
      s_createdAt = ls_created l, s_expiresAt = expiresAt (ls_spec l),
      s_completedSteps = completedSteps (ls_status l)\<rparr>"

definition active_phase :: "phase \<Rightarrow> bool" where
  "active_phase p \<longleftrightarrow> p \<noteq> Failed \<and> p \<noteq> Expired"

definition of_client :: "string \<Rightarrow> lab_session \<Rightarrow> bool" where
  "of_client c l \<longleftrightarrow> ls_labels l client_label = Some c"

datatype mgr_error =
    List_error api_error
  | Session_exists
  | Scenario_error scenario_error
  | Size_error size_error
  | Create_error api_error
  | Get_error api_error
  | Patch_error api_error

text \<open>\<^verbatim>\<open>Create\<close> up to the loop over the existing sessions of the client.\<close>

definition create_check :: "string \<Rightarrow> k8s \<Rightarrow> (mgr_error + unit) \<times> k8s" where
  "create_check c k =
     (case cr_list (of_client c) k of
        (Inl e, k1) \<Rightarrow> (Inl (List_error e), k1)
      | (Inr ls, k1) \<Rightarrow>
          (if list_ex (\<lambda>l. active_phase (ph (ls_status l))) ls then (Inl Session_exists, k1)
           else (Inr (), k1)))"

definition new_session ::
  "string \<Rightarrow> string \<Rightarrow> string \<Rightarrow> (string \<rightharpoonup> string) list \<Rightarrow> string \<Rightarrow> int \<Rightarrow> int \<Rightarrow> string \<Rightarrow> bool \<Rightarrow> lab_session" where
  "new_session c sid email extras i now ttl sz browser =
     \<lparr>ls_name = i, ls_labels = foldl (++) [client_label \<mapsto> c] extras, ls_created = now,
      ls_deleting = False, ls_finalizers = [],
      ls_spec = \<lparr>sessionID = i, scenarioID = sid, clientID = c, userEmail = email, size_tier = sz,
                 browserEnabled = browser, expiresAt = Some (now + ttl), paused = False\<rparr>,
      ls_status = \<lparr>ph = Phase_none, serviceDNS = [], message = [], completedSteps = [], snapshotName = []\<rparr>\<rparr>"

text \<open>The rest of \<^verbatim>\<open>Create\<close>; \<open>i\<close> is the UUID it draws, \<open>now\<close> the time it reads.\<close>

definition create_commit ::
  "(string \<Rightarrow> scenario_error + scenario) \<Rightarrow> int \<Rightarrow> string \<Rightarrow> string \<Rightarrow> string \<Rightarrow> (string \<rightharpoonup> string) list \<Rightarrow>
   string \<Rightarrow> int \<Rightarrow> k8s \<Rightarrow> (mgr_error + session) \<times> k8s" where
  "create_commit load ttl c sid email extras i now k =
     (case load sid of
        Inl e \<Rightarrow> (Inl (Scenario_error e), k)
      | Inr sc \<Rightarrow>
          (case normalize_size (sc_size sc) of
             Inl e \<Rightarrow> (Inl (Size_error e), k)
           | Inr sz \<Rightarrow>
               (case cr_create (new_session c sid email extras i now ttl sz (sc_browser sc)) k of
                  (Inl e, k1) \<Rightarrow> (Inl (Create_error e), k1)
                | (Inr _, k1) \<Rightarrow>
                    (Inr \<lparr>s_id = i, s_scenario = sid, s_userEmail = email, s_clientID = c,
                          s_serviceDNS = [], s_status = Status_provisioning, s_paused = False,
                          s_browserEnabled = sc_browser sc, s_sessionType = [], s_aeToken = [],
                          s_createdAt = now, s_expiresAt = Some (now + ttl),
                          s_completedSteps = []\<rparr>, k1))))"

definition Create ::
  "(string \<Rightarrow> scenario_error + scenario) \<Rightarrow> int \<Rightarrow> string \<Rightarrow> string \<Rightarrow> string \<Rightarrow> (string \<rightharpoonup> string) list \<Rightarrow>
   string \<Rightarrow> int \<Rightarrow> k8s \<Rightarrow> (mgr_error + session) \<times> k8s" where
  "Create load ttl c sid email extras i now k =
     (case create_check c k of
        (Inl e, k1) \<Rightarrow> (Inl e, k1)
      | (Inr _, k1) \<Rightarrow> create_commit load ttl c sid email extras i now k1)"

definition All_sessions :: "k8s \<Rightarrow> session list \<times> k8s" where
  "All_sessions k =
     (case cr_list (\<lambda>_. True) k of (Inl _, k1) \<Rightarrow> ([], k1) | (Inr ls, k1) \<Rightarrow> (map lsToSession ls, k1))"

definition Get :: "string \<Rightarrow> k8s \<Rightarrow> session option \<times> k8s" where
  "Get i k = (case cr_get i k of (Inl _, k1) \<Rightarrow> (None, k1) | (Inr l, k1) \<Rightarrow> (Some (lsToSession l), k1))"

definition GetActive :: "string \<Rightarrow> k8s \<Rightarrow> session option \<times> k8s" where
  "GetActive c k =
     (case cr_list (of_client c) k of
        (Inl _, k1) \<Rightarrow> (None, k1)
      | (Inr ls, k1) \<Rightarrow> (find (\<lambda>s. s_status s \<noteq> Status_expired) (map lsToSession ls), k1))"

text \<open>The operations that read the resource, return early or patch what they read.\<close>

definition get_then ::
  "string \<Rightarrow> (lab_session \<Rightarrow> k8s \<Rightarrow> (mgr_error + unit) \<times> k8s) \<Rightarrow> k8s \<Rightarrow> (mgr_error + unit) \<times> k8s" where
  "get_then i f k =
     (case cr_get i k of (Inl e, k1) \<Rightarrow> (Inl (Get_error e), k1) | (Inr l, k1) \<Rightarrow> f l k1)"

definition patched :: "(api_error + lab_session) \<times> k8s \<Rightarrow> (mgr_error + unit) \<times> k8s" where
  "patched r = (case r of (Inl e, k) \<Rightarrow> (Inl (Patch_error e), k) | (Inr _, k) \<Rightarrow> (Inr (), k))"

definition upd_status :: "(lab_status \<Rightarrow> lab_status) \<Rightarrow> lab_session \<Rightarrow> lab_session" where
  "upd_status f l = l\<lparr>ls_status := f (ls_status l)\<rparr>"

definition upd_spec :: "(lab_spec \<Rightarrow> lab_spec) \<Rightarrow> lab_session \<Rightarrow> lab_session" where
  "upd_spec f l = l\<lparr>ls_spec := f (ls_spec l)\<rparr>"

text \<open>
  The merge patch of \<^verbatim>\<open>MarkStepComplete\<close> carries the whole list it read with the record
  appended: a list is replaced, not merged.
\<close>

definition mark_after_read :: "string \<Rightarrow> string \<Rightarrow> int \<Rightarrow> lab_session \<Rightarrow> k8s \<Rightarrow> (mgr_error + unit) \<times> k8s" where
  "mark_after_read i st now l k =
     (if list_ex (\<lambda>r. fst r = st) (completedSteps (ls_status l)) then (Inr (), k)
      else patched (cr_patch i
             (upd_status (\<lambda>s. s\<lparr>completedSteps := completedSteps (ls_status l) @ [(st, now)]\<rparr>)) k))"

definition MarkStepComplete :: "string \<Rightarrow> string \<Rightarrow> int \<Rightarrow> k8s \<Rightarrow> (mgr_error + unit) \<times> k8s" where
  "MarkStepComplete i st now = get_then i (mark_after_read i st now)"

definition Delete :: "string \<Rightarrow> k8s \<Rightarrow> (mgr_error + unit) \<times> k8s" where
  "Delete i =
     get_then i (\<lambda>l k. case cr_delete i k of (Inl e, k1) \<Rightarrow> (Inl (Patch_error e), k1)
                                           | (Inr _, k1) \<Rightarrow> (Inr (), k1))"

definition Expire :: "string \<Rightarrow> int \<Rightarrow> k8s \<Rightarrow> (mgr_error + unit) \<times> k8s" where
  "Expire i now =
     get_then i (\<lambda>l k. patched (cr_patch i (upd_spec (\<lambda>s. s\<lparr>expiresAt := Some now\<rparr>)) k))"

definition Pause :: "string \<Rightarrow> k8s \<Rightarrow> (mgr_error + unit) \<times> k8s" where
  "Pause i = get_then i (\<lambda>l k. patched (cr_patch i (upd_spec (\<lambda>s. s\<lparr>paused := True\<rparr>)) k))"

definition Resume :: "string \<Rightarrow> k8s \<Rightarrow> (mgr_error + unit) \<times> k8s" where
  "Resume i = get_then i (\<lambda>l k. patched (cr_patch i (upd_spec (\<lambda>s. s\<lparr>paused := False\<rparr>)) k))"

section \<open>Runs of the server\<close>

text \<open>
  One request at a time, and in between changes the operator makes: a new status, or new
  finalizers, of the resource named.
\<close>

datatype mgr_event =
    Ev_create string string string "(string \<rightharpoonup> string) list" string int
  | Ev_mark string string int
  | Ev_delete string
  | Ev_expire string int
  | Ev_pause string
  | Ev_resume string
  | Ev_status string lab_status
  | Ev_finalizers string "string list"

definition mgr_step :: "(string \<Rightarrow> scenario_error + scenario) \<Rightarrow> int \<Rightarrow> k8s \<Rightarrow> mgr_event \<Rightarrow> k8s" where
  "mgr_step load ttl k ev =
     (case ev of
        Ev_create c sid email extras i now \<Rightarrow> snd (Create load ttl c sid email extras i now k)
      | Ev_mark i st now \<Rightarrow> snd (MarkStepComplete i st now k)
      | Ev_delete i \<Rightarrow> snd (Delete i k)
      | Ev_expire i now \<Rightarrow> snd (Expire i now k)
      | Ev_pause i \<Rightarrow> snd (Pause i k)
      | Ev_resume i \<Rightarrow> snd (Resume i k)
      | Ev_status n st \<Rightarrow> snd (cr_patch n (ls_status_update (\<lambda>_. st)) k)
      | Ev_finalizers n fs \<Rightarrow> snd (cr_patch n (ls_finalizers_update (\<lambda>_. fs)) k))"

definition actives :: "string \<Rightarrow> k8s \<Rightarrow> lab_session list" where
  "actives c k = filter (\<lambda>l. of_client c l \<and> active_phase (ph (ls_status l))) (crs k)"

definition one_active :: "k8s \<Rightarrow> bool" where
  "one_active k \<longleftrightarrow> (\<forall>c. length (actives c k) \<le> 1)"

text \<open>
  The labels a caller adds do not replace the client label, and the operator gives no
  finished session an active phase again.
\<close>

definition mgr_guard :: "k8s \<Rightarrow> mgr_event \<Rightarrow> bool" where
  "mgr_guard k ev =
     (case ev of
        Ev_create c sid email extras i now \<Rightarrow> list_all (\<lambda>m. m client_label = None) extras
      | Ev_status n st \<Rightarrow>
          (active_phase (ph st) \<longrightarrow>
             list_all (\<lambda>l. ls_name l = n \<longrightarrow> active_phase (ph (ls_status l))) (crs k))
      | _ \<Rightarrow> True)"

lemma crs_api_call [simp]: "crs (snd (api_call k)) = crs k"
  by (simp add: api_call_def split: list.split)

lemma api_call_crs: "api_call k = (b, k1) \<Longrightarrow> crs k1 = crs k"
  using crs_api_call [of k] by simp

lemma crs_get: "cr_get i k = (r, k1) \<Longrightarrow> crs k1 = crs k"
  by (auto simp: cr_get_def api_call_crs split: prod.splits if_splits option.splits)

lemma crs_list: "cr_list sel k = (r, k1) \<Longrightarrow> crs k1 = crs k"
  by (auto simp: cr_list_def api_call_crs split: prod.splits if_splits)

lemma crs_patch:
  "crs (snd (cr_patch n f k)) = crs k \<or>
   crs (snd (cr_patch n f k)) =
     filter (\<lambda>x. \<not> gone x) (map (\<lambda>x. if ls_name x = n then f x else x) (crs k))"
  by (auto simp: cr_patch_def api_call_crs split: prod.split option.split)

lemma length_filter_map_le:
  "(\<And>x. x \<in> set xs \<Longrightarrow> P (g x) \<Longrightarrow> P x) \<Longrightarrow>
   length (filter P (filter Q (map g xs))) \<le> length (filter P xs)"
  by (induction xs) (auto simp: le_SucI)

lemma actives_patch:
  assumes "\<And>l. l \<in> set (crs k) \<Longrightarrow> ls_name l = n \<Longrightarrow> ls_labels (f l) = ls_labels l"
    and "\<And>l. l \<in> set (crs k) \<Longrightarrow> ls_name l = n \<Longrightarrow> active_phase (ph (ls_status (f l))) \<Longrightarrow>
           active_phase (ph (ls_status l))"
  shows "length (actives c (snd (cr_patch n f k))) \<le> length (actives c k)"
proof -
  let ?g = "\<lambda>x. if ls_name x = n then f x else x"
  have "length (filter (\<lambda>l. of_client c l \<and> active_phase (ph (ls_status l)))
          (filter (\<lambda>x. \<not> gone x) (map ?g (crs k)))) \<le> length (actives c k)"
    unfolding actives_def using assms
    by (intro length_filter_map_le) (auto simp: of_client_def split: if_splits)
  then show ?thesis
    using crs_patch [of n f k] by (auto simp: actives_def)
qed

lemma patch_one_active:
  assumes "one_active k"
    and "\<And>l. l \<in> set (crs k) \<Longrightarrow> ls_name l = n \<Longrightarrow> ls_labels (f l) = ls_labels l"
    and "\<And>l. l \<in> set (crs k) \<Longrightarrow> ls_name l = n \<Longrightarrow> active_phase (ph (ls_status (f l))) \<Longrightarrow>
           active_phase (ph (ls_status l))"
  shows "one_active (snd (cr_patch n f k))"
  using assms actives_patch [of k n f] unfolding one_active_def by (meson order.trans)

lemma one_active_crs: "crs k1 = crs k \<Longrightarrow> one_active k1 = one_active k"
  by (simp add: one_active_def actives_def)

lemma snd_patched [simp]: "snd (patched r) = snd r"
  by (simp add: patched_def split: prod.split sum.split)

lemma snd_cr_delete: "snd (cr_delete n k) = snd (cr_patch n (ls_deleting_update (\<lambda>_. True)) k)"
  by (simp add: cr_delete_def split: prod.split sum.split)

lemma get_then_one_active:
  assumes "one_active k" "\<And>l k1. crs k1 = crs k \<Longrightarrow> one_active k1 \<Longrightarrow> one_active (snd (f l k1))"
  shows "one_active (snd (get_then i f k))"
proof -
  obtain r k1 where r: "cr_get i k = (r, k1)" by (cases "cr_get i k") auto
  then have "crs k1 = crs k" by (rule crs_get)
  then show ?thesis
    using assms r one_active_crs [of k1 k] by (cases r) (simp_all add: get_then_def)
qed

lemma upd_simps [simp]:
  "ls_labels (upd_status g l) = ls_labels l" "ls_labels (upd_spec h l) = ls_labels l"
  "ls_status (upd_spec h l) = ls_status l" "ls_status (upd_status g l) = g (ls_status l)"
  "ls_name (upd_status g l) = ls_name l" "ls_name (upd_spec h l) = ls_name l"
  by (simp_all add: upd_status_def upd_spec_def)

lemma request_one_active:
  assumes "one_active k"
  shows "one_active (snd (MarkStepComplete i st now k))" "one_active (snd (Delete i k))"
    "one_active (snd (Expire i now k))" "one_active (snd (Pause i k))" "one_active (snd (Resume i k))"
proof -
  show "one_active (snd (MarkStepComplete i st now k))"
    unfolding MarkStepComplete_def
    by (rule get_then_one_active [OF assms]) (auto simp: mark_after_read_def intro: patch_one_active)
  have del: "snd (case cr_delete i k1 of (Inl e, k2) \<Rightarrow> (Inl (Patch_error e), k2) | (Inr _, k2) \<Rightarrow> (Inr (), k2)) =
      snd (cr_patch i (ls_deleting_update (\<lambda>_. True)) k1)" for k1
    using snd_cr_delete [of i k1] by (auto split: prod.splits sum.splits)
  show "one_active (snd (Delete i k))"
    unfolding Delete_def
    by (rule get_then_one_active [OF assms]) (simp only: del, rule patch_one_active, simp_all)
  show "one_active (snd (Expire i now k))" "one_active (snd (Pause i k))" "one_active (snd (Resume i k))"
    unfolding Expire_def Pause_def Resume_def
    by (rule get_then_one_active [OF assms], simp, rule patch_one_active, simp_all)+
qed

text \<open>The check of \<^verbatim>\<open>Create\<close> and \<^verbatim>\<open>GetActive\<close> look at the same resources.\<close>

lemma create_check_cases:
  obtains e k1 where "create_check c k = (Inl e, k1)" "crs k1 = crs k"
  | k1 where "create_check c k = (Inr (), k1)" "crs k1 = crs k" "actives c k = []"
proof -
  obtain r k1 where r: "cr_list (of_client c) k = (r, k1)" by (cases "cr_list (of_client c) k") auto
  have crs: "crs k1 = crs k" using crs_list [OF r] .
  show ?thesis
  proof (cases r)
    case (Inl e)
    then show ?thesis using r crs that(1) by (simp add: create_check_def)
  next
    case (Inr ls)
    then have ls: "ls = filter (of_client c) (crs k)"
      using r by (auto simp: cr_list_def api_call_crs split: prod.splits if_splits)
    show ?thesis
    proof (cases "list_ex (\<lambda>l. active_phase (ph (ls_status l))) ls")
      case True
      then show ?thesis using r Inr crs that(1) by (simp add: create_check_def)
    next
      case False
      then have "actives c k = []"
        using ls by (auto simp: actives_def filter_empty_conv list_ex_iff)
      then show ?thesis using r Inr crs False that(2) by (simp add: create_check_def)
    qed
  qed
qed

lemma label_of_extras:
  "list_all (\<lambda>m. m client_label = None) extras \<Longrightarrow> foldl (++) m extras client_label = m client_label"
  by (induction extras arbitrary: m) (auto simp: map_add_def)

lemma create_commit_crs:
  "crs (snd (create_commit load ttl c sid email extras i now k)) = crs k \<or>
   (\<exists>sz b. crs (snd (create_commit load ttl c sid email extras i now k)) =
      crs k @ [new_session c sid email extras i now ttl sz b])"
  by (auto simp: create_commit_def cr_create_def api_call_crs split: sum.split prod.split)

lemma Create_one_active:
  assumes "one_active k" "list_all (\<lambda>m. m client_label = None) extras"
  shows "one_active (snd (Create load ttl c sid email extras i now k))"
proof (cases rule: create_check_cases [of c k])
  case (1 e k1)
  then show ?thesis using assms(1) one_active_crs [of k1 k] by (simp add: Create_def)
next
  case (2 k1)
  let ?k2 = "snd (create_commit load ttl c sid email extras i now k1)"
  have own: "ls_labels (new_session c sid email extras i now ttl sz b) client_label = Some c" for sz b
    using label_of_extras [OF assms(2)] by (simp add: new_session_def)
  have "length (actives d ?k2) \<le> 1" for d
    using create_commit_crs [of load ttl c sid email extras i now k1] 2 assms(1) own
    by (cases "d = c") (auto simp: actives_def one_active_def of_client_def)
  then show ?thesis using 2 by (simp add: Create_def one_active_def)
qed

lemma mgr_step_one_active:
  assumes "one_active k" "mgr_guard k ev" shows "one_active (mgr_step load ttl k ev)"
proof (cases ev)
  case (Ev_status n st)
  then show ?thesis
    using assms patch_one_active [OF assms(1), of n "ls_status_update (\<lambda>_. st)"]
    by (auto simp: mgr_step_def mgr_guard_def list_all_iff)
next
  case (Ev_finalizers n fs)
  then show ?thesis
    using assms patch_one_active [OF assms(1), of n "ls_finalizers_update (\<lambda>_. fs)"]
    by (simp add: mgr_step_def)
qed (use assms in \<open>auto simp: mgr_step_def mgr_guard_def Create_one_active request_one_active\<close>)

interpretation manager: guarded_machine "mgr_step load ttl" mgr_guard one_active for load ttl
  by unfold_locales (rule mgr_step_one_active)

section \<open>Facts about single requests\<close>

lemma api_call_ok [simp]: "faults k = [] \<Longrightarrow> api_call k = (False, k)"
  by (simp add: api_call_def)

lemma create_check_ok:
  "faults k = [] \<Longrightarrow>
   create_check c k = (if actives c k = [] then Inr () else Inl Session_exists, k)"
  by (auto simp: create_check_def cr_list_def actives_def filter_empty_conv list_ex_iff)

lemma status_expired_iff:
  "s_status (lsToSession l) = Status_expired \<longleftrightarrow> \<not> active_phase (ph (ls_status l))"
  by (cases "ph (ls_status l)") (simp_all add: lsToSession_def status_of_phase_def active_phase_def)

lemma find_None_active:
  "find (\<lambda>s. s_status s \<noteq> Status_expired) (map lsToSession ls) = None \<longleftrightarrow>
   (\<forall>l \<in> set ls. \<not> active_phase (ph (ls_status l)))"
  by (simp add: find_None_iff status_expired_iff)

lemma Session_exists_from_check:
  "fst (create_commit load ttl c sid email extras i now k) \<noteq> Inl Session_exists"
  by (simp add: create_commit_def split: sum.split prod.split)

lemma create_commit_ok:
  assumes "faults k = []" "load sid = Inr sc" "normalize_size (sc_size sc) = Inr sz"
    "find (\<lambda>x. ls_name x = i) (crs k) = None"
  shows "snd (create_commit load ttl c sid email extras i now k) =
    k\<lparr>crs := crs k @ [new_session c sid email extras i now ttl sz (sc_browser sc)]\<rparr>"
  using assms by (simp add: create_commit_def cr_create_def new_session_def)

lemma actives_new:
  "list_all (\<lambda>m. m client_label = None) extras \<Longrightarrow>
   actives c (k\<lparr>crs := xs @ [new_session c sid email extras i now ttl sz b]\<rparr>) =
     actives c (k\<lparr>crs := xs\<rparr>) @ [new_session c sid email extras i now ttl sz b]"
  using label_of_extras [of extras "[client_label \<mapsto> c]"]
  by (simp add: actives_def of_client_def new_session_def active_phase_def)

text \<open>The steps recorded for a session.\<close>

definition steps_of :: "string \<Rightarrow> k8s \<Rightarrow> step_record list" where
  "steps_of i k =
     (case find (\<lambda>l. ls_name l = i) (crs k) of None \<Rightarrow> [] | Some l \<Rightarrow> completedSteps (ls_status l))"

lemma find_patched:
  assumes "find (\<lambda>l. ls_name l = i) xs = Some l" "\<not> gone (f l)" "ls_name (f l) = i"
  shows "find (\<lambda>l. ls_name l = i) (filter (\<lambda>x. \<not> gone x) (map (\<lambda>x. if ls_name x = i then f x else x) xs)) = Some (f l)"
  using assms by (induction xs) (auto split: if_splits)

lemma find_name: "find (\<lambda>l. ls_name l = i) xs = Some l \<Longrightarrow> ls_name l = i \<and> l \<in> set xs"
  by (auto simp: find_Some_iff)

lemma gone_upd [simp]: "gone (upd_status f l) = gone l"
  by (simp add: gone_def upd_status_def)

lemma mark_ok:
  assumes "faults k = []" "find (\<lambda>l. ls_name l = i) (crs k) = Some l" "\<not> gone l"
  shows "fst (MarkStepComplete i st t k) = Inr () \<and>
    faults (snd (MarkStepComplete i st t k)) = [] \<and>
    (\<exists>l'. find (\<lambda>l. ls_name l = i) (crs (snd (MarkStepComplete i st t k))) = Some l' \<and> \<not> gone l' \<and>
       completedSteps (ls_status l') =
         (if st \<in> fst ` set (completedSteps (ls_status l)) then completedSteps (ls_status l)
          else completedSteps (ls_status l) @ [(st, t)])) \<and>
    (st \<in> fst ` set (completedSteps (ls_status l)) \<longrightarrow> snd (MarkStepComplete i st t k) = k)"
proof -
  let ?f = "upd_status (\<lambda>s. s\<lparr>completedSteps := completedSteps (ls_status l) @ [(st, t)]\<rparr>)"
  have "find (\<lambda>l. ls_name l = i) (filter (\<lambda>x. \<not> gone x) (map (\<lambda>x. if ls_name x = i then ?f x else x) (crs k))) =
      Some (?f l)"
    using find_patched [OF assms(2), of ?f] assms(3) find_name [OF assms(2)] by simp
  then show ?thesis
    using assms
    by (auto simp: MarkStepComplete_def get_then_def cr_get_def mark_after_read_def cr_patch_def
        patched_def list_ex_iff)
qed

section \<open>Properties\<close>

text \<open>
  a client never has more than one session that is neither failed nor expired, in every
  run in which requests do not overlap, whatever calls of the API fail, as long as no caller
  overwrites the client label and the operator revives no finished session.
\<close>

theorem one_active_session_per_client:
  assumes "admitted (mgr_step load ttl) mgr_guard \<lparr>crs = [], faults = fs\<rparr> es"
  shows "length (actives c (foldl (mgr_step load ttl) \<lparr>crs = [], faults = fs\<rparr> es)) \<le> 1"
proof -
  have "one_active \<lparr>crs = [], faults = fs\<rparr>" by (simp add: one_active_def actives_def)
  from manager.run_inv [OF this assms] show ?thesis by (simp add: one_active_def)
qed

definition sample_scenario :: scenario where
  "sample_scenario =
     \<lparr>sc_id = ''intro'', sc_title = ''Intro'', sc_description = [], sc_duration = 30,
      sc_difficulty = ''easy'', sc_steps = [], sc_browser = False, sc_playground = False,
      sc_image = [], sc_size = []\<rparr>"

definition sample_load :: "string \<Rightarrow> scenario_error + scenario" where
  "sample_load sid = (if sid = ''intro'' then Inr sample_scenario else Inl (Scenario_not_found sid))"

definition sample_requests :: "mgr_event list" where
  "sample_requests =
     [Ev_create ''c1'' ''intro'' [] [] ''i1'' 100, Ev_create ''c1'' ''intro'' [] [] ''i2'' 101,
      Ev_mark ''i1'' ''1'' 105, Ev_expire ''i1'' 110]"

lemmas mgr_eval =
  mgr_step_def Create_def create_check_def create_commit_def cr_list_def cr_create_def cr_get_def
  cr_patch_def MarkStepComplete_def mark_after_read_def Expire_def get_then_def patched_def
  upd_status_def upd_spec_def gone_def of_client_def active_phase_def new_session_def
  sample_load_def sample_scenario_def sample_requests_def normalize_size_def api_call_def

theorem one_active_session_per_client_witness:
  "length (actives ''c1'' (foldl (mgr_step sample_load 3600) \<lparr>crs = [], faults = []\<rparr> sample_requests)) \<le> 1"
  by (rule one_active_session_per_client) (simp add: mgr_guard_def sample_requests_def)

text \<open>
  \<^verbatim>\<open>Create\<close> answers that a session exists exactly if \<^verbatim>\<open>GetActive\<close> finds one for the same
  client, and what \<^verbatim>\<open>GetActive\<close> finds belongs to that client's label and is not expired: a user
  whose start is refused always has a session to resume.
\<close>

theorem refused_create_has_active_session:
  assumes "faults k = []"
  shows "(fst (Create load ttl c sid email extras i now k) = Inl Session_exists) =
           (fst (GetActive c k) \<noteq> None) \<and>
         (case fst (GetActive c k) of
            None \<Rightarrow> True
          | Some s \<Rightarrow> s_status s \<noteq> Status_expired \<and> s \<in> lsToSession ` set (filter (of_client c) (crs k)))"
proof -
  have g: "fst (GetActive c k) =
      find (\<lambda>s. s_status s \<noteq> Status_expired) (map lsToSession (filter (of_client c) (crs k)))"
    using assms by (simp add: GetActive_def cr_list_def)
  have "(fst (GetActive c k) = None) = (actives c k = [])"
    unfolding g find_None_active by (auto simp: actives_def filter_empty_conv)
  moreover have "(fst (Create load ttl c sid email extras i now k) = Inl Session_exists) = (actives c k \<noteq> [])"
    using create_check_ok [OF assms, of c] Session_exists_from_check by (simp add: Create_def)
  moreover have "s_status s \<noteq> Status_expired \<and> s \<in> lsToSession ` set (filter (of_client c) (crs k))"
    if "fst (GetActive c k) = Some s" for s
    using that unfolding g find_Some_iff by (metis image_set nth_mem)
  ultimately show ?thesis by (simp split: option.split)
qed

theorem refused_create_has_active_session_witness:
  "let k = foldl (mgr_step sample_load 3600) \<lparr>crs = [], faults = []\<rparr> (take 1 sample_requests)
   in (fst (Create sample_load 3600 ''c1'' ''intro'' [] [] ''i2'' 101 k) = Inl Session_exists) =
        (fst (GetActive ''c1'' k) \<noteq> None) \<and>
      (case fst (GetActive ''c1'' k) of
         None \<Rightarrow> True
       | Some s \<Rightarrow> s_status s \<noteq> Status_expired \<and>
                   s \<in> lsToSession ` set (filter (of_client ''c1'') (crs k)))"
  unfolding Let_def by (rule refused_create_has_active_session) (simp add: mgr_eval default_size_def)

text \<open>
  the comment of \<^verbatim>\<open>Create\<close> calls listing and then creating safe against races. It is not:
  two requests of one client whose lists both run before either creates end with two active
  sessions, because each draws a fresh name.
\<close>

theorem concurrent_creates_make_two_sessions:
  assumes "faults k = []" "actives c k = []" "load sid = Inr sc" "normalize_size (sc_size sc) = Inr sz"
    "find (\<lambda>x. ls_name x = i) (crs k) = None" "find (\<lambda>x. ls_name x = j) (crs k) = None" "i \<noteq> j"
  shows "let (r1, k1) = create_check c k;
             (r2, k2) = create_check c k1;
             (s1, k3) = create_commit load ttl c sid email [] i now k2;
             (s2, k4) = create_commit load ttl c sid email [] j now k3
         in r1 = Inr () \<and> r2 = Inr () \<and> length (actives c k4) = 2"
proof -
  let ?n = "\<lambda>i. new_session c sid email [] i now ttl sz (sc_browser sc)"
  let ?k3 = "k\<lparr>crs := crs k @ [?n i]\<rparr>"
  have c: "create_check c k = (Inr (), k)" using create_check_ok [OF assms(1)] assms(2) by simp
  have 1: "snd (create_commit load ttl c sid email [] i now k) = ?k3"
    using assms(1,3,4,5) by (intro create_commit_ok)
  have "find (\<lambda>x. ls_name x = j) (crs ?k3) = None"
    using assms(6,7) by (auto simp: find_None_iff new_session_def)
  then have 2: "snd (create_commit load ttl c sid email [] j now ?k3) = k\<lparr>crs := crs k @ [?n i, ?n j]\<rparr>"
    using create_commit_ok [of ?k3 load sid sc sz j ttl c email "[]" now] assms by simp
  have "length (actives c (k\<lparr>crs := crs k @ [?n i, ?n j]\<rparr>)) = 2"
    using assms(2) by (simp add: actives_def of_client_def new_session_def active_phase_def)
  then show ?thesis
    using c 1 2 by (simp add: case_prod_beta)
qed

theorem concurrent_creates_make_two_sessions_witness:
  "let (r1, k1) = create_check ''c1'' \<lparr>crs = [], faults = []\<rparr>;
       (r2, k2) = create_check ''c1'' k1;
       (s1, k3) = create_commit sample_load 3600 ''c1'' ''intro'' [] [] ''i1'' 100 k2;
       (s2, k4) = create_commit sample_load 3600 ''c1'' ''intro'' [] [] ''i2'' 100 k3
   in r1 = Inr () \<and> r2 = Inr () \<and> length (actives ''c1'' k4) = 2"
  by (rule concurrent_creates_make_two_sessions [where sc = sample_scenario and sz = default_size])
    (simp_all add: actives_def sample_load_def sample_scenario_def normalize_size_def)

text \<open>
  marking a step complete is idempotent and keeps the order of first completion: the
  request succeeds, the step is recorded once with the time of its first completion behind
  the earlier ones, and asking again changes nothing.
\<close>

theorem step_recorded_once:
  assumes "faults k = []" "find (\<lambda>l. ls_name l = i) (crs k) = Some l" "\<not> gone l"
  shows "let k1 = snd (MarkStepComplete i st t k)
         in fst (MarkStepComplete i st t k) = Inr () \<and>
            steps_of i k1 = steps_of i k @ (if st \<in> fst ` set (steps_of i k) then [] else [(st, t)]) \<and>
            MarkStepComplete i st t' k1 = (Inr (), k1)"
proof -
  let ?k1 = "snd (MarkStepComplete i st t k)"
  obtain l' where l': "find (\<lambda>l. ls_name l = i) (crs ?k1) = Some l'" "\<not> gone l'"
    "completedSteps (ls_status l') =
       (if st \<in> fst ` set (completedSteps (ls_status l)) then completedSteps (ls_status l)
        else completedSteps (ls_status l) @ [(st, t)])"
    and 1: "fst (MarkStepComplete i st t k) = Inr ()" "faults ?k1 = []"
    using mark_ok [OF assms, of st t] by blast
  have "st \<in> fst ` set (completedSteps (ls_status l'))" using l'(3) by auto
  then have "MarkStepComplete i st t' ?k1 = (Inr (), ?k1)"
    using mark_ok [OF 1(2) l'(1,2), of st t'] by (simp add: prod_eq_iff)
  then show ?thesis
    using 1 l' assms(2) by (simp add: steps_of_def Let_def)
qed

theorem step_recorded_once_witness:
  "let k = snd (Create sample_load 3600 ''c1'' ''intro'' [] [] ''i1'' 100 \<lparr>crs = [], faults = []\<rparr>);
       k1 = snd (MarkStepComplete ''i1'' ''1'' 105 k)
   in fst (MarkStepComplete ''i1'' ''1'' 105 k) = Inr () \<and>
      steps_of ''i1'' k1 =
        steps_of ''i1'' k @ (if ''1'' \<in> fst ` set (steps_of ''i1'' k) then [] else [(''1'', 105)]) \<and>
      MarkStepComplete ''i1'' ''1'' 106 k1 = (Inr (), k1)"
proof -
  let ?k = "snd (Create sample_load 3600 ''c1'' ''intro'' [] [] ''i1'' 100 \<lparr>crs = [], faults = []\<rparr>)"
  have "faults ?k = []"
    "find (\<lambda>l. ls_name l = ''i1'') (crs ?k) = Some (new_session ''c1'' ''intro'' [] [] ''i1'' 100 3600 default_size False)"
    "\<not> gone (new_session ''c1'' ''intro'' [] [] ''i1'' 100 3600 default_size False)"
    by (simp_all add: mgr_eval)
  from step_recorded_once [OF this] show ?thesis by (simp only: Let_def)
qed

text \<open>
  the patch of a completed step replaces the whole list it read: of two steps verified
  at the same time, each recorded by a request that read the session before the other
  wrote, the first one written is lost.
\<close>

theorem concurrent_steps_lose_one:
  assumes "faults k = []" "find (\<lambda>l. ls_name l = i) (crs k) = Some l" "\<not> gone l"
    "s1 \<notin> fst ` set (completedSteps (ls_status l))" "s2 \<notin> fst ` set (completedSteps (ls_status l))"
    "s1 \<noteq> s2"
  shows "let k1 = snd (mark_after_read i s1 t1 l k);
             k2 = snd (mark_after_read i s2 t2 l k1)
         in s1 \<in> fst ` set (steps_of i k1) \<and> s1 \<notin> fst ` set (steps_of i k2) \<and>
            steps_of i k2 = completedSteps (ls_status l) @ [(s2, t2)]"
proof -
  let ?f = "\<lambda>st t. upd_status (\<lambda>s. s\<lparr>completedSteps := completedSteps (ls_status l) @ [(st, t)]\<rparr>)"
  let ?p = "\<lambda>f xs. filter (\<lambda>x. \<not> gone x) (map (\<lambda>x. if ls_name x = i then f x else x) xs)"
  have n: "ls_name l = i" using find_name [OF assms(2)] by simp
  have 1: "find (\<lambda>l. ls_name l = i) (?p (?f s1 t1) (crs k)) = Some (?f s1 t1 l)"
    using find_patched [OF assms(2), of "?f s1 t1"] assms(3) n by simp
  have 2: "find (\<lambda>l. ls_name l = i) (?p (?f s2 t2) (?p (?f s1 t1) (crs k))) = Some (?f s2 t2 (?f s1 t1 l))"
    using find_patched [OF 1, of "?f s2 t2"] assms(3) n by simp
  have k1: "snd (mark_after_read i s1 t1 l k) = k\<lparr>crs := ?p (?f s1 t1) (crs k)\<rparr>"
    using assms by (auto simp: mark_after_read_def cr_patch_def list_ex_iff)
  have k2: "snd (mark_after_read i s2 t2 l (k\<lparr>crs := ?p (?f s1 t1) (crs k)\<rparr>)) =
      k\<lparr>crs := ?p (?f s2 t2) (?p (?f s1 t1) (crs k))\<rparr>"
    using assms 1 by (auto simp: mark_after_read_def cr_patch_def list_ex_iff)
  show ?thesis
    unfolding Let_def k1 k2 using 1 2 assms(4,6) by (auto simp: steps_of_def)
qed

theorem concurrent_steps_lose_one_witness:
  "let l = new_session ''c1'' ''intro'' [] [] ''i1'' 100 3600 default_size False;
       k1 = snd (mark_after_read ''i1'' ''1'' 105 l \<lparr>crs = [l], faults = []\<rparr>);
       k2 = snd (mark_after_read ''i1'' ''2'' 106 l k1)
   in ''1'' \<in> fst ` set (steps_of ''i1'' k1) \<and> ''1'' \<notin> fst ` set (steps_of ''i1'' k2) \<and>
      steps_of ''i1'' k2 = completedSteps (ls_status l) @ [(''2'', 106)]"
  unfolding Let_def [of "new_session ''c1'' ''intro'' [] [] ''i1'' 100 3600 default_size False"]
  by (rule concurrent_steps_lose_one) (simp_all add: new_session_def gone_def)

end
