(* ===== verification/Vm_Provider.thy ===== *)
theory Vm_Provider
  imports Lab_Sessions
begin

text \<open>
  The contract of a VM provider (\<^verbatim>\<open>internal/provider\<close>) and its KubeVirt implementation
  (\<^verbatim>\<open>internal/provider/kubevirt\<close>).

  The cluster holds the objects of the VM namespace by name; every session owns one name.
  What is on a disk has the type \<open>'d\<close>; \<open>None\<close> is a volume whose import has not finished. Each
  call of the API consumes one entry of \<open>cfaults\<close>, and a failing call has no effect.
  Objects go when they are deleted: the time an object needs to shut down is left out, and
  so are the fields of the objects that no later step reads. The text of cloud-init
  (\<^verbatim>\<open>cloudinit.Render\<close>) and the test for a resource quantity (\<^verbatim>\<open>resource.ParseQuantity\<close>) are
  parameters.
\<close>

section \<open>The contract\<close>

record result =
  r_phase :: phase
  r_serviceDNS :: string
  r_message :: string

datatype provider_error =
    Delete_error string
  | Create_snapshot_error
  | Get_error
  | Ensure_error string

record 'p provider =
  pr_reconcile :: "lab_session \<Rightarrow> ('p, provider_error, result) op"
  pr_teardown :: "lab_session \<Rightarrow> ('p, provider_error, unit) op"
  pr_teardown_compute :: "lab_session \<Rightarrow> ('p, provider_error, unit) op"
  pr_teardown_disk :: "lab_session \<Rightarrow> ('p, provider_error, unit) op"
  pr_snapshot :: "lab_session \<Rightarrow> ('p, provider_error, string) op"
  pr_snapshot_ready :: "string \<Rightarrow> ('p, provider_error, bool) op"
  pr_delete_snapshot :: "string \<Rightarrow> ('p, provider_error, unit) op"

text \<open>
  What the operator relies on. \<open>has_disk\<close> and \<open>has_compute\<close> say whether the disk and the running
  part of a session exist, \<open>snap_ok\<close> that a snapshot exists and is ready.
\<close>

locale vm_provider =
  fixes P :: "'p provider"
    and has_disk :: "lab_session \<Rightarrow> 'p \<Rightarrow> bool"
    and has_compute :: "lab_session \<Rightarrow> 'p \<Rightarrow> bool"
    and snap_ok :: "string \<Rightarrow> 'p \<Rightarrow> bool"
  assumes teardown_all: "pr_teardown P l p = (Inr u, p') \<Longrightarrow> \<not> has_disk l p' \<and> \<not> has_compute l p'"
    and compute_gone: "pr_teardown_compute P l p = (Inr u, p') \<Longrightarrow> \<not> has_compute l p'"
    and compute_keeps_disk: "keeps (has_disk l) (pr_teardown_compute P l')"
    and snapshot_keeps_disk: "keeps (has_disk l) (pr_snapshot P l')"
    and ready_keeps_disk: "keeps (has_disk l) (pr_snapshot_ready P n)"
    and reconcile_keeps_disk: "keeps (has_disk l) (pr_reconcile P l')"
    and delete_snapshot_keeps_disk: "keeps (has_disk l) (pr_delete_snapshot P n)"
    and ready_sound: "pr_snapshot_ready P n p = (Inr True, p') \<Longrightarrow> snap_ok n p'"
    and disk_keeps_snapshot: "keeps (snap_ok n) (pr_teardown_disk P l)"

section \<open>The cluster\<close>

datatype vmi_phase = Vmi_pending | Vmi_running | Vmi_succeeded | Vmi_failed

datatype source = From_snapshot string | From_golden string

record 'd volume =
  vol_owner :: string
  vol_source :: source
  vol_content :: "'d option"

record vmi =
  vmi_owner :: string
  vmi_status :: vmi_phase
  vmi_spec :: spec
  vmi_dataplane :: string

record service =
  svc_owner :: string
  svc_ports :: "nat list"

record netpol =
  np_owner :: string
  np_from :: string
  np_ports :: "nat list"

record secret =
  sec_owner :: string
  sec_userdata :: string

record 'd snapshot =
  snap_content :: "'d option"
  snap_ready :: bool

record 'd cluster =
  volumes :: "string \<rightharpoonup> 'd volume"
  vmis :: "string \<rightharpoonup> vmi"
  services :: "string \<rightharpoonup> service"
  netpols :: "string \<rightharpoonup> netpol"
  secrets :: "string \<rightharpoonup> secret"
  snapshots :: "string \<rightharpoonup> 'd snapshot"
  goldens :: "string \<rightharpoonup> 'd"
  cfaults :: "bool list"

record config =
  namespace :: string
  server_namespace :: string
  cfg_load :: "string \<Rightarrow> scenario_error + scenario"
  cfg_render :: "string \<Rightarrow> bool \<Rightarrow> string option"
  size_overrides_map :: "string \<rightharpoonup> spec"
  golden_pvcs :: "string \<rightharpoonup> string"
  quantity_ok :: "string \<Rightarrow> bool"
  disk_size :: string

definition cluster_call :: "'d cluster \<Rightarrow> bool \<times> 'd cluster" where
  "cluster_call c = (case cfaults c of [] \<Rightarrow> (False, c) | b # bs \<Rightarrow> (b, c\<lparr>cfaults := bs\<rparr>))"

text \<open>One call of the API: it fails with \<open>e\<close> and no effect, or does \<open>f\<close>.\<close>

definition attempt :: "'e \<Rightarrow> ('d cluster, 'e, 'a) op \<Rightarrow> ('d cluster, 'e, 'a) op" where
  "attempt e f c = (case cluster_call c of (b, c1) \<Rightarrow> if b then (Inl e, c1) else f c1)"

section \<open>Names\<close>

definition resourceName :: "lab_session \<Rightarrow> string" where
  "resourceName l =
     (let i = sessionID (ls_spec l) in ''lab-'' @ (if length i > 8 then take 8 i else i))"

definition serviceDNS_of :: "config \<Rightarrow> string \<Rightarrow> string" where
  "serviceDNS_of cfg name = name @ ''.'' @ namespace cfg @ ''.svc.cluster.local''"

definition snapshot_name :: "lab_session \<Rightarrow> string" where
  "snapshot_name l = resourceName l @ ''-snap''"

section \<open>Removing objects\<close>

text \<open>Deleting an object that is not there counts as success.\<close>

definition delete_vmi :: "string \<Rightarrow> ('d cluster, provider_error, unit) op" where
  "delete_vmi n = attempt (Delete_error n) (\<lambda>c. (Inr (), c\<lparr>vmis := (vmis c)(n := None)\<rparr>))"

definition delete_netpol :: "string \<Rightarrow> ('d cluster, provider_error, unit) op" where
  "delete_netpol n = attempt (Delete_error n) (\<lambda>c. (Inr (), c\<lparr>netpols := (netpols c)(n := None)\<rparr>))"

definition delete_service :: "string \<Rightarrow> ('d cluster, provider_error, unit) op" where
  "delete_service n = attempt (Delete_error n) (\<lambda>c. (Inr (), c\<lparr>services := (services c)(n := None)\<rparr>))"

definition delete_volume :: "string \<Rightarrow> ('d cluster, provider_error, unit) op" where
  "delete_volume n = attempt (Delete_error n) (\<lambda>c. (Inr (), c\<lparr>volumes := (volumes c)(n := None)\<rparr>))"

definition DeleteSnapshot :: "string \<Rightarrow> ('d cluster, provider_error, unit) op" where
  "DeleteSnapshot n = attempt (Delete_error n) (\<lambda>c. (Inr (), c\<lparr>snapshots := (snapshots c)(n := None)\<rparr>))"

definition TeardownCompute :: "lab_session \<Rightarrow> ('d cluster, provider_error, unit) op" where
  "TeardownCompute l =
     andthen (delete_vmi (resourceName l)) (\<lambda>_.
     andthen (delete_netpol (resourceName l)) (\<lambda>_.
     delete_service (resourceName l)))"

definition TeardownDisk :: "lab_session \<Rightarrow> ('d cluster, provider_error, unit) op" where
  "TeardownDisk l = delete_volume (resourceName l)"

definition Teardown :: "lab_session \<Rightarrow> ('d cluster, provider_error, unit) op" where
  "Teardown l =
     andthen (TeardownCompute l) (\<lambda>_.
     andthen (TeardownDisk l) (\<lambda>_.
     if snapshotName (ls_status l) \<noteq> [] then DeleteSnapshot (snapshotName (ls_status l))
     else give ()))"

section \<open>Snapshots\<close>

text \<open>
  A snapshot takes the content its volume has when it is created, and becomes ready later.
  An existing snapshot of that name is kept as it is.
\<close>

definition Snapshot :: "lab_session \<Rightarrow> ('d cluster, provider_error, string) op" where
  "Snapshot l =
     attempt Create_snapshot_error (\<lambda>c.
       (Inr (snapshot_name l),
        if snapshots c (snapshot_name l) \<noteq> None then c
        else c\<lparr>snapshots := (snapshots c)(snapshot_name l \<mapsto>
               \<lparr>snap_content = (case volumes c (resourceName l) of None \<Rightarrow> None | Some v \<Rightarrow> vol_content v),
                snap_ready = False\<rparr>)\<rparr>))"

definition SnapshotReady :: "string \<Rightarrow> ('d cluster, provider_error, bool) op" where
  "SnapshotReady n =
     attempt Get_error (\<lambda>c. case snapshots c n of None \<Rightarrow> (Inl Get_error, c) | Some s \<Rightarrow> (Inr (snap_ready s), c))"

section \<open>Ensuring objects\<close>

text \<open>
  \<^verbatim>\<open>controllerutil.CreateOrUpdate\<close> with \<^verbatim>\<open>SetControllerReference\<close>: a missing object is created, an
  existing one keeps what the code sets only on creation, and an object that another
  session controls is an error.
\<close>

definition default_disk_size :: string where
  "default_disk_size = ''80Gi''"

definition volume_source :: "lab_session \<Rightarrow> string \<Rightarrow> source" where
  "volume_source l golden =
     (if snapshotName (ls_status l) \<noteq> [] then From_snapshot (snapshotName (ls_status l))
      else From_golden golden)"

definition ensureDataVolume :: "config \<Rightarrow> lab_session \<Rightarrow> string \<Rightarrow> string \<Rightarrow> ('d cluster, provider_error, unit) op" where
  "ensureDataVolume cfg l name golden =
     (if \<not> quantity_ok cfg (if disk_size cfg = [] then default_disk_size else disk_size cfg)
      then fail (Ensure_error ''datavolume'')
      else attempt (Ensure_error ''datavolume'') (\<lambda>c.
        case volumes c name of
          None \<Rightarrow>
            (Inr (), c\<lparr>volumes := (volumes c)(name \<mapsto>
               \<lparr>vol_owner = sessionID (ls_spec l), vol_source = volume_source l golden, vol_content = None\<rparr>)\<rparr>)
        | Some v \<Rightarrow>
            (if vol_owner v \<noteq> sessionID (ls_spec l) then (Inl (Ensure_error ''datavolume''), c)
             else (Inr (), c))))"

definition ensureUserDataSecret :: "lab_session \<Rightarrow> string \<Rightarrow> string \<Rightarrow> ('d cluster, provider_error, unit) op" where
  "ensureUserDataSecret l name userdata =
     attempt (Ensure_error ''secret'') (\<lambda>c.
       if (case secrets c name of None \<Rightarrow> False | Some s \<Rightarrow> sec_owner s \<noteq> sessionID (ls_spec l))
       then (Inl (Ensure_error ''secret''), c)
       else (Inr (), c\<lparr>secrets := (secrets c)(name \<mapsto>
              \<lparr>sec_owner = sessionID (ls_spec l), sec_userdata = userdata\<rparr>)\<rparr>))"

definition ensureVMI :: "config \<Rightarrow> lab_session \<Rightarrow> string \<Rightarrow> spec \<Rightarrow> ('d cluster, provider_error, unit) op" where
  "ensureVMI cfg l name sp =
     (if \<not> quantity_ok cfg (CPU sp) \<or> \<not> quantity_ok cfg (Memory sp)
      then fail (Ensure_error ''vmi'')
      else attempt (Ensure_error ''vmi'') (\<lambda>c.
        case vmis c name of
          None \<Rightarrow>
            (Inr (), c\<lparr>vmis := (vmis c)(name \<mapsto>
               \<lparr>vmi_owner = sessionID (ls_spec l), vmi_status = Vmi_pending, vmi_spec = sp,
                vmi_dataplane = ''none''\<rparr>)\<rparr>)
        | Some v \<Rightarrow>
            (if vmi_owner v \<noteq> sessionID (ls_spec l) then (Inl (Ensure_error ''vmi''), c)
             else (Inr (), c))))"

definition portInject :: nat where "portInject = 7680"
definition portTTYD :: nat where "portTTYD = 7681"
definition portShell :: nat where "portShell = 7682"
definition portVNC :: nat where "portVNC = 6080"

definition vm_ports :: "lab_session \<Rightarrow> nat list" where
  "vm_ports l =
     [portInject, portTTYD, portShell] @ (if browserEnabled (ls_spec l) then [portVNC] else [])"

definition ensureService :: "lab_session \<Rightarrow> string \<Rightarrow> ('d cluster, provider_error, unit) op" where
  "ensureService l name =
     attempt (Ensure_error ''service'') (\<lambda>c.
       if (case services c name of None \<Rightarrow> False | Some s \<Rightarrow> svc_owner s \<noteq> sessionID (ls_spec l))
       then (Inl (Ensure_error ''service''), c)
       else (Inr (), c\<lparr>services := (services c)(name \<mapsto>
              \<lparr>svc_owner = sessionID (ls_spec l), svc_ports = vm_ports l\<rparr>)\<rparr>))"

definition ensureNetworkPolicy :: "config \<Rightarrow> lab_session \<Rightarrow> string \<Rightarrow> ('d cluster, provider_error, unit) op" where
  "ensureNetworkPolicy cfg l name =
     attempt (Ensure_error ''networkpolicy'') (\<lambda>c.
       if (case netpols c name of None \<Rightarrow> False | Some s \<Rightarrow> np_owner s \<noteq> sessionID (ls_spec l))
       then (Inl (Ensure_error ''networkpolicy''), c)
       else (Inr (), c\<lparr>netpols := (netpols c)(name \<mapsto>
              \<lparr>np_owner = sessionID (ls_spec l), np_from = server_namespace cfg, np_ports = vm_ports l\<rparr>)\<rparr>))"

text \<open>Reading the phase of the VMI at the end of \<^verbatim>\<open>Reconcile\<close>.\<close>

definition provisioning :: result where
  "provisioning = \<lparr>r_phase = Provisioning, r_serviceDNS = [], r_message = []\<rparr>"

definition failed :: "string \<Rightarrow> result" where
  "failed m = \<lparr>r_phase = Failed, r_serviceDNS = [], r_message = m\<rparr>"

definition vmi_result :: "config \<Rightarrow> string \<Rightarrow> ('d cluster, provider_error, result) op" where
  "vmi_result cfg name =
     attempt Get_error (\<lambda>c.
       (Inr (case vmis c name of
               None \<Rightarrow> provisioning
             | Some v \<Rightarrow>
                 (case vmi_status v of
                    Vmi_running \<Rightarrow> \<lparr>r_phase = Running, r_serviceDNS = serviceDNS_of cfg name, r_message = []\<rparr>
                  | Vmi_failed \<Rightarrow> failed ''vmi phase Failed''
                  | Vmi_succeeded \<Rightarrow> failed ''vmi phase Succeeded''
                  | Vmi_pending \<Rightarrow> provisioning)), c))"

text \<open>The texts of the errors of the catalog are abbreviated.\<close>

definition Reconcile :: "config \<Rightarrow> lab_session \<Rightarrow> ('d cluster, provider_error, result) op" where
  "Reconcile cfg l =
     (let name = resourceName l in
      case golden_pvc (cfg_load cfg) (golden_pvcs cfg) (scenarioID (ls_spec l)) of
        Inl _ \<Rightarrow> give (failed ''golden PVC'')
      | Inr golden \<Rightarrow>
      (case normalize_size (size_tier (ls_spec l)) of
        Inl _ \<Rightarrow> give (failed ''unknown size'')
      | Inr sz \<Rightarrow>
      (case resolve_size sz (size_overrides_map cfg) of
        None \<Rightarrow> give (failed ''no resource spec'')
      | Some sp \<Rightarrow>
      (case cfg_render cfg (scenarioID (ls_spec l)) (browserEnabled (ls_spec l)) of
        None \<Rightarrow> give (failed ''cloud-init'')
      | Some userdata \<Rightarrow>
          andthen (ensureDataVolume cfg l name golden) (\<lambda>_.
          andthen (ensureUserDataSecret l name userdata) (\<lambda>_.
          andthen (ensureVMI cfg l name sp) (\<lambda>_.
          andthen (ensureService l name) (\<lambda>_.
          andthen (ensureNetworkPolicy cfg l name) (\<lambda>_.
          vmi_result cfg name))))))))) "

definition kubevirt :: "config \<Rightarrow> 'd cluster provider" where
  "kubevirt cfg =
     \<lparr>pr_reconcile = Reconcile cfg, pr_teardown = Teardown, pr_teardown_compute = TeardownCompute,
      pr_teardown_disk = TeardownDisk, pr_snapshot = Snapshot, pr_snapshot_ready = SnapshotReady,
      pr_delete_snapshot = DeleteSnapshot\<rparr>"

section \<open>What the cluster does by itself\<close>

text \<open>The import of a volume, the phases of a VM, its writes to its disk, a snapshot getting ready.\<close>

datatype 'd vm_event =
    Import string
  | Vmi_phase string vmi_phase
  | Work string 'd
  | Snapshot_done string

definition source_content :: "'d cluster \<Rightarrow> source \<Rightarrow> 'd option" where
  "source_content c s =
     (case s of
        From_golden g \<Rightarrow> goldens c g
      | From_snapshot n \<Rightarrow>
          (case snapshots c n of None \<Rightarrow> None | Some sn \<Rightarrow> if snap_ready sn then snap_content sn else None))"

definition vm_step :: "'d cluster \<Rightarrow> 'd vm_event \<Rightarrow> 'd cluster" where
  "vm_step c ev =
     (case ev of
        Import n \<Rightarrow>
          (case volumes c n of
             Some v \<Rightarrow>
               (if vol_content v = None
                then c\<lparr>volumes := (volumes c)(n \<mapsto> v\<lparr>vol_content := source_content c (vol_source v)\<rparr>)\<rparr>
                else c)
           | None \<Rightarrow> c)
      | Vmi_phase n p \<Rightarrow>
          (case (vmis c n, volumes c n) of
             (Some v, Some d) \<Rightarrow>
               (if p = Vmi_running \<and> vol_content d = None then c
                else c\<lparr>vmis := (vmis c)(n \<mapsto> v\<lparr>vmi_status := p\<rparr>)\<rparr>)
           | _ \<Rightarrow> c)
      | Work n d \<Rightarrow>
          (case (vmis c n, volumes c n) of
             (Some v, Some vo) \<Rightarrow>
               (if vmi_status v = Vmi_running
                then c\<lparr>volumes := (volumes c)(n \<mapsto> vo\<lparr>vol_content := Some d\<rparr>)\<rparr> else c)
           | _ \<Rightarrow> c)
      | Snapshot_done n \<Rightarrow>
          (case snapshots c n of
             Some s \<Rightarrow>
               (if snap_content s \<noteq> None then c\<lparr>snapshots := (snapshots c)(n \<mapsto> s\<lparr>snap_ready := True\<rparr>)\<rparr> else c)
           | None \<Rightarrow> c))"

section \<open>KubeVirt keeps the contract\<close>

definition disk_of :: "lab_session \<Rightarrow> 'd cluster \<Rightarrow> bool" where
  "disk_of l c \<longleftrightarrow> volumes c (resourceName l) \<noteq> None"

definition compute_of :: "lab_session \<Rightarrow> 'd cluster \<Rightarrow> bool" where
  "compute_of l c \<longleftrightarrow>
     vmis c (resourceName l) \<noteq> None \<or> services c (resourceName l) \<noteq> None \<or> netpols c (resourceName l) \<noteq> None"

definition snapshot_ok :: "string \<Rightarrow> 'd cluster \<Rightarrow> bool" where
  "snapshot_ok n c \<longleftrightarrow> (case snapshots c n of None \<Rightarrow> False | Some s \<Rightarrow> snap_ready s)"

lemma cluster_call_frame [simp]:
  "volumes (snd (cluster_call c)) = volumes c" "vmis (snd (cluster_call c)) = vmis c"
  "services (snd (cluster_call c)) = services c" "netpols (snd (cluster_call c)) = netpols c"
  "secrets (snd (cluster_call c)) = secrets c" "snapshots (snd (cluster_call c)) = snapshots c"
  by (simp_all add: cluster_call_def split: list.split)

lemma attempt_Inr:
  assumes "attempt e f c = (Inr a, c')"
  obtains c1 where "f c1 = (Inr a, c')" "c1 = snd (cluster_call c)"
  using assms by (auto simp: attempt_def split: prod.splits if_splits)

lemma keeps_attempt:
  assumes "\<And>c. P (snd (cluster_call c)) = P c" "keeps P f"
  shows "keeps P (attempt e f)"
proof (rule keepsI)
  fix c assume "P c"
  obtain b c1 where c: "cluster_call c = (b, c1)" by (cases "cluster_call c")
  then have "P c1" using assms(1) [of c] \<open>P c\<close> by simp
  then show "P (snd (attempt e f c))"
    using c keepsD [OF assms(2)] by (simp add: attempt_def)
qed

lemma disk_call [simp]: "disk_of l (snd (cluster_call c)) = disk_of l c"
  by (simp add: disk_of_def)

lemma snapshot_call [simp]: "snapshot_ok n (snd (cluster_call c)) = snapshot_ok n c"
  by (simp add: snapshot_ok_def)

lemma disk_kept:
  "keeps (disk_of l) (delete_vmi n)" "keeps (disk_of l) (delete_netpol n)"
  "keeps (disk_of l) (delete_service n)" "keeps (disk_of l) (DeleteSnapshot n)"
  "keeps (disk_of l) (SnapshotReady n)" "keeps (disk_of l) (Snapshot l')"
  "keeps (disk_of l) (ensureDataVolume cfg l' n g)" "keeps (disk_of l) (ensureUserDataSecret l' n u)"
  "keeps (disk_of l) (ensureVMI cfg l' n sp)" "keeps (disk_of l) (ensureService l' n)"
  "keeps (disk_of l) (ensureNetworkPolicy cfg l' n)" "keeps (disk_of l) (vmi_result cfg n)"
proof -
  show "keeps (disk_of l) (delete_vmi n)" "keeps (disk_of l) (delete_netpol n)"
    "keeps (disk_of l) (delete_service n)" "keeps (disk_of l) (DeleteSnapshot n)"
    "keeps (disk_of l) (SnapshotReady n)" "keeps (disk_of l) (Snapshot l')"
    "keeps (disk_of l) (ensureUserDataSecret l' n u)" "keeps (disk_of l) (ensureService l' n)"
    "keeps (disk_of l) (ensureNetworkPolicy cfg l' n)" "keeps (disk_of l) (vmi_result cfg n)"
    unfolding delete_vmi_def delete_netpol_def delete_service_def DeleteSnapshot_def SnapshotReady_def
      Snapshot_def ensureUserDataSecret_def ensureService_def ensureNetworkPolicy_def vmi_result_def
    by (rule keeps_attempt, simp, simp add: keeps_def disk_of_def split: option.split)+
  show "keeps (disk_of l) (ensureDataVolume cfg l' n g)" "keeps (disk_of l) (ensureVMI cfg l' n sp)"
    unfolding ensureDataVolume_def ensureVMI_def
    by (intro keeps_if keeps_fail keeps_attempt disk_call; simp add: keeps_def disk_of_def split: option.split)+
qed

lemma Reconcile_keeps_disk: "keeps (disk_of l) (Reconcile cfg l')"
  unfolding Reconcile_def Let_def
  by (auto split: sum.split option.split intro!: keeps_andthen disk_kept)

lemma TeardownCompute_keeps_disk: "keeps (disk_of l) (TeardownCompute l')"
  unfolding TeardownCompute_def by (intro keeps_andthen disk_kept)

lemma delete_Inr:
  "delete_vmi n c = (Inr u, c') \<Longrightarrow> c' = (snd (cluster_call c))\<lparr>vmis := (vmis c)(n := None)\<rparr>"
  "delete_netpol n c = (Inr u, c') \<Longrightarrow> c' = (snd (cluster_call c))\<lparr>netpols := (netpols c)(n := None)\<rparr>"
  "delete_service n c = (Inr u, c') \<Longrightarrow> c' = (snd (cluster_call c))\<lparr>services := (services c)(n := None)\<rparr>"
  "delete_volume n c = (Inr u, c') \<Longrightarrow> c' = (snd (cluster_call c))\<lparr>volumes := (volumes c)(n := None)\<rparr>"
  "DeleteSnapshot n c = (Inr u, c') \<Longrightarrow> c' = (snd (cluster_call c))\<lparr>snapshots := (snapshots c)(n := None)\<rparr>"
  unfolding delete_vmi_def delete_netpol_def delete_service_def delete_volume_def DeleteSnapshot_def
  by (erule attempt_Inr, force)+

lemma TeardownCompute_Inr:
  assumes "TeardownCompute l c = (Inr u, c')"
  shows "vmis c' = (vmis c)(resourceName l := None) \<and> netpols c' = (netpols c)(resourceName l := None) \<and>
    services c' = (services c)(resourceName l := None) \<and> volumes c' = volumes c \<and>
    secrets c' = secrets c \<and> snapshots c' = snapshots c"
  using assms unfolding TeardownCompute_def
  by (elim andthen_InrE) (auto dest!: delete_Inr)

lemma TeardownDisk_Inr:
  "TeardownDisk l c = (Inr u, c') \<Longrightarrow>
   c' = (snd (cluster_call c))\<lparr>volumes := (volumes c)(resourceName l := None)\<rparr>"
  unfolding TeardownDisk_def by (rule delete_Inr)

lemma Teardown_Inr:
  assumes "Teardown l c = (Inr u, c')"
  shows "vmis c' = (vmis c)(resourceName l := None) \<and> netpols c' = (netpols c)(resourceName l := None) \<and>
    services c' = (services c)(resourceName l := None) \<and> volumes c' = (volumes c)(resourceName l := None) \<and>
    secrets c' = secrets c \<and>
    (snapshotName (ls_status l) \<noteq> [] \<longrightarrow> snapshots c' = (snapshots c)(snapshotName (ls_status l) := None))"
proof -
  obtain v1 c1 v2 c2 where c1: "TeardownCompute l c = (Inr v1, c1)" and c2: "TeardownDisk l c1 = (Inr v2, c2)"
    and c3: "(if snapshotName (ls_status l) \<noteq> [] then DeleteSnapshot (snapshotName (ls_status l)) else give ()) c2 =
      (Inr u, c')"
    using assms unfolding Teardown_def by (elim andthen_InrE)
  show ?thesis
    using TeardownCompute_Inr [OF c1] TeardownDisk_Inr [OF c2] c3
    by (cases "snapshotName (ls_status l) = []") (auto simp: give_def dest!: delete_Inr)
qed

lemma TeardownDisk_keeps_snapshot: "keeps (snapshot_ok n) (TeardownDisk l)"
  unfolding TeardownDisk_def delete_volume_def
  by (rule keeps_attempt) (simp_all add: keeps_def snapshot_ok_def)

lemma SnapshotReady_sound: "SnapshotReady n c = (Inr True, c') \<Longrightarrow> snapshot_ok n c'"
  unfolding SnapshotReady_def
  by (erule attempt_Inr) (auto simp: snapshot_ok_def split: option.splits)

interpretation kv: vm_provider "kubevirt cfg" disk_of compute_of snapshot_ok for cfg
  by unfold_locales
    (auto simp: kubevirt_def disk_of_def compute_of_def TeardownCompute_keeps_disk disk_kept
      Reconcile_keeps_disk SnapshotReady_sound TeardownDisk_keeps_snapshot
      dest!: Teardown_Inr TeardownCompute_Inr
      simp flip: disk_of_def [abs_def])

section \<open>Reconciling twice\<close>

lemma attempt_ok [simp]: "cfaults c = [] \<Longrightarrow> attempt e f c = f c"
  by (simp add: attempt_def cluster_call_def)

text \<open>
  An ensured object: the operation changed one component only, and finds nothing to do in
  every later cluster with that component.
\<close>

lemma ensured_volume:
  assumes "cfaults c = []" "ensureDataVolume cfg l n g c = (Inr u, c1)"
  shows "c1 = c\<lparr>volumes := volumes c1\<rparr> \<and>
    (\<forall>d. cfaults d = [] \<and> volumes d = volumes c1 \<longrightarrow> ensureDataVolume cfg l n g d = (Inr (), d))"
  using assms by (auto simp: ensureDataVolume_def fail_def split: if_splits option.splits)

lemma upd_same:
  "m n = Some x \<Longrightarrow> secrets d = m \<Longrightarrow> d\<lparr>secrets := m(n \<mapsto> x)\<rparr> = d"
  "m' n = Some y \<Longrightarrow> services d = m' \<Longrightarrow> d\<lparr>services := m'(n \<mapsto> y)\<rparr> = d"
  "m'' n = Some z \<Longrightarrow> netpols d = m'' \<Longrightarrow> d\<lparr>netpols := m''(n \<mapsto> z)\<rparr> = d"
  by (auto simp: fun_upd_idem)

lemma ensured_secret:
  assumes "cfaults c = []" "ensureUserDataSecret l n t c = (Inr u, c1)"
  shows "c1 = c\<lparr>secrets := secrets c1\<rparr> \<and>
    (\<forall>d. cfaults d = [] \<and> secrets d = secrets c1 \<longrightarrow> ensureUserDataSecret l n t d = (Inr (), d))"
proof -
  have "c1 = c\<lparr>secrets := secrets c1\<rparr>" "secrets c1 n = Some \<lparr>sec_owner = sessionID (ls_spec l), sec_userdata = t\<rparr>"
    using assms by (auto simp: ensureUserDataSecret_def split: if_splits option.splits)
  then show ?thesis by (auto simp: ensureUserDataSecret_def upd_same)
qed

lemma ensured_vmi:
  assumes "cfaults c = []" "ensureVMI cfg l n sp c = (Inr u, c1)"
  shows "c1 = c\<lparr>vmis := vmis c1\<rparr> \<and>
    (\<forall>d. cfaults d = [] \<and> vmis d = vmis c1 \<longrightarrow> ensureVMI cfg l n sp d = (Inr (), d))"
  using assms by (auto simp: ensureVMI_def fail_def split: if_splits option.splits)

lemma ensured_service:
  assumes "cfaults c = []" "ensureService l n c = (Inr u, c1)"
  shows "c1 = c\<lparr>services := services c1\<rparr> \<and>
    (\<forall>d. cfaults d = [] \<and> services d = services c1 \<longrightarrow> ensureService l n d = (Inr (), d))"
proof -
  have "c1 = c\<lparr>services := services c1\<rparr>" "services c1 n = Some \<lparr>svc_owner = sessionID (ls_spec l), svc_ports = vm_ports l\<rparr>"
    using assms by (auto simp: ensureService_def split: if_splits option.splits)
  then show ?thesis by (auto simp: ensureService_def upd_same)
qed

lemma ensured_netpol:
  assumes "cfaults c = []" "ensureNetworkPolicy cfg l n c = (Inr u, c1)"
  shows "c1 = c\<lparr>netpols := netpols c1\<rparr> \<and>
    (\<forall>d. cfaults d = [] \<and> netpols d = netpols c1 \<longrightarrow> ensureNetworkPolicy cfg l n d = (Inr (), d))"
proof -
  have "c1 = c\<lparr>netpols := netpols c1\<rparr>"
    "netpols c1 n = Some \<lparr>np_owner = sessionID (ls_spec l), np_from = server_namespace cfg, np_ports = vm_ports l\<rparr>"
    using assms by (auto simp: ensureNetworkPolicy_def split: if_splits option.splits)
  then show ?thesis by (auto simp: ensureNetworkPolicy_def upd_same)
qed

text \<open>The sequence of the five operations and the reading of the phase.\<close>

definition converge :: "config \<Rightarrow> lab_session \<Rightarrow> string \<Rightarrow> spec \<Rightarrow> string \<Rightarrow> ('d cluster, provider_error, result) op" where
  "converge cfg l golden sp userdata =
     andthen (ensureDataVolume cfg l (resourceName l) golden) (\<lambda>_.
     andthen (ensureUserDataSecret l (resourceName l) userdata) (\<lambda>_.
     andthen (ensureVMI cfg l (resourceName l) sp) (\<lambda>_.
     andthen (ensureService l (resourceName l)) (\<lambda>_.
     andthen (ensureNetworkPolicy cfg l (resourceName l)) (\<lambda>_.
     vmi_result cfg (resourceName l))))))"

lemma Reconcile_cases:
  fixes c :: "'d cluster"
  obtains r where "Reconcile cfg l c = give r c" "r_phase r = Failed"
  | g sp u where "\<And>d :: 'd cluster. Reconcile cfg l d = converge cfg l g sp u d"
proof (cases "golden_pvc (cfg_load cfg) (golden_pvcs cfg) (scenarioID (ls_spec l))")
  case (Inl e)
  then show ?thesis using that(1) by (simp add: Reconcile_def Let_def failed_def)
next
  case g: (Inr golden)
  show ?thesis
  proof (cases "normalize_size (size_tier (ls_spec l))")
    case (Inl e)
    then show ?thesis using g that(1) by (simp add: Reconcile_def Let_def failed_def)
  next
    case s: (Inr sz)
    show ?thesis
    proof (cases "resolve_size sz (size_overrides_map cfg)")
      case None
      then show ?thesis using g s that(1) by (simp add: Reconcile_def Let_def failed_def)
    next
      case sp: (Some sp)
      then show ?thesis
        using g s that
        by (cases "cfg_render cfg (scenarioID (ls_spec l)) (browserEnabled (ls_spec l))")
          (simp_all add: Reconcile_def Let_def failed_def converge_def)
    qed
  qed
qed

lemma converge_twice:
  assumes "cfaults c = []" "converge cfg l g sp u c = (Inr r, c')"
  shows "converge cfg l g sp u c' = (Inr r, c')"
proof -
  obtain u1 c1 u2 c2 u3 c3 u4 c4 u5 c5 where
    s1: "ensureDataVolume cfg l (resourceName l) g c = (Inr u1, c1)" and
    s2: "ensureUserDataSecret l (resourceName l) u c1 = (Inr u2, c2)" and
    s3: "ensureVMI cfg l (resourceName l) sp c2 = (Inr u3, c3)" and
    s4: "ensureService l (resourceName l) c3 = (Inr u4, c4)" and
    s5: "ensureNetworkPolicy cfg l (resourceName l) c4 = (Inr u5, c5)" and
    s6: "vmi_result cfg (resourceName l) c5 = (Inr r, c')"
    using assms(2) unfolding converge_def by (elim andthen_InrE)
  note e1 = ensured_volume [OF assms(1) s1]
  have f1: "cfaults c1 = []" using e1 assms(1) by (metis cluster.select_convs(8) cluster.update_convs(1) cluster.surjective)
  note e2 = ensured_secret [OF f1 s2]
  have f2: "cfaults c2 = []" using e2 f1 by (metis cluster.select_convs(8) cluster.update_convs(5) cluster.surjective)
  note e3 = ensured_vmi [OF f2 s3]
  have f3: "cfaults c3 = []" using e3 f2 by (metis cluster.select_convs(8) cluster.update_convs(2) cluster.surjective)
  note e4 = ensured_service [OF f3 s4]
  have f4: "cfaults c4 = []" using e4 f3 by (metis cluster.select_convs(8) cluster.update_convs(3) cluster.surjective)
  note e5 = ensured_netpol [OF f4 s5]
  have f5: "cfaults c5 = []" using e5 f4 by (metis cluster.select_convs(8) cluster.update_convs(4) cluster.surjective)
  have c': "c' = c5" using s6 f5 by (simp add: vmi_result_def)
  have comp: "volumes c5 = volumes c1" "secrets c5 = secrets c2" "vmis c5 = vmis c3"
    "services c5 = services c4"
    using e2 e3 e4 e5 by (metis cluster.select_convs cluster.update_convs cluster.surjective)+
  have "ensureDataVolume cfg l (resourceName l) g c5 = (Inr (), c5)"
    "ensureUserDataSecret l (resourceName l) u c5 = (Inr (), c5)"
    "ensureVMI cfg l (resourceName l) sp c5 = (Inr (), c5)"
    "ensureService l (resourceName l) c5 = (Inr (), c5)"
    "ensureNetworkPolicy cfg l (resourceName l) c5 = (Inr (), c5)"
    using e1 e2 e3 e4 e5 f5 comp by blast+
  then show ?thesis
    unfolding c' converge_def using s6 c' by (simp add: andthen_Inr)
qed

section \<open>Properties\<close>

text \<open>
  C36: reconciling is idempotent: when it succeeded, reconciling the same session again
  changes nothing in the cluster and reports the same result, so objects that exist are
  converged and never an error.
\<close>

theorem reconcile_idempotent:
  assumes "cfaults c = []" "Reconcile cfg l c = (Inr r, c')"
  shows "Reconcile cfg l c' = (Inr r, c')"
proof (cases rule: Reconcile_cases [of cfg l c])
  case (1 x)
  then show ?thesis using assms(2) by (simp add: give_def)
next
  case (2 g sp u)
  show ?thesis using assms(2) unfolding 2 by (rule converge_twice [OF assms(1)])
qed

definition sample_config :: config where
  "sample_config =
     \<lparr>namespace = ''uds-lab-vms'', server_namespace = ''uds-lab'', cfg_load = sample_load,
      cfg_render = (\<lambda>_ _. Some ''#cloud-config''), size_overrides_map = Map.empty,
      golden_pvcs = [''base'' \<mapsto> ''golden-base''], quantity_ok = (\<lambda>s. s \<noteq> []), disk_size = []\<rparr>"

definition sample_session :: "string \<Rightarrow> lab_session" where
  "sample_session i = (new_session ''c1'' ''intro'' [] [] i 100 3600 ''medium'' False)
     \<lparr>ls_finalizers := [''lab.uds.dev/teardown'']\<rparr>"

definition empty_cluster :: "string cluster" where
  "empty_cluster =
     \<lparr>volumes = Map.empty, vmis = Map.empty, services = Map.empty, netpols = Map.empty,
      secrets = Map.empty, snapshots = Map.empty, goldens = [''golden-base'' \<mapsto> ''fresh''], cfaults = []\<rparr>"

lemmas sample_eval =
  sample_config_def sample_session_def sample_load_def sample_scenario_def new_session_def
  golden_pvc_def image_tier_def normalize_size_def resolve_size_def valid_size_def size_defaults_def
  resourceName_def default_disk_size_def

lemma sample_Reconcile:
  "Reconcile sample_config (sample_session i) c =
     converge sample_config (sample_session i) ''golden-base'' \<lparr>CPU = ''4'', Memory = ''8Gi''\<rparr> ''#cloud-config'' c"
  by (simp add: Reconcile_def converge_def sample_eval Let_def)

lemmas converge_eval =
  converge_def andthen_def ensureDataVolume_def ensureUserDataSecret_def ensureVMI_def ensureService_def
  ensureNetworkPolicy_def vmi_result_def empty_cluster_def provisioning_def fail_def

lemma sample_reconciled:
  "cfaults (snd (Reconcile sample_config (sample_session ''0123456789'') empty_cluster)) = [] \<and>
   fst (Reconcile sample_config (sample_session ''0123456789'') empty_cluster) = Inr provisioning \<and>
   volumes (snd (Reconcile sample_config (sample_session ''0123456789'') empty_cluster)) ''lab-01234567'' =
     Some \<lparr>vol_owner = ''0123456789'', vol_source = From_golden ''golden-base'', vol_content = None\<rparr> \<and>
   secrets (snd (Reconcile sample_config (sample_session ''0123456789'') empty_cluster)) ''lab-01234567'' \<noteq> None"
  unfolding sample_Reconcile
  by (simp add: converge_eval sample_eval volume_source_def)

theorem reconcile_idempotent_witness:
  "Reconcile sample_config (sample_session ''0123456789'')
     (snd (Reconcile sample_config (sample_session ''0123456789'') empty_cluster)) =
   (Inr provisioning, snd (Reconcile sample_config (sample_session ''0123456789'') empty_cluster))"
proof (rule reconcile_idempotent)
  show "cfaults empty_cluster = []" by (simp add: empty_cluster_def)
  show "Reconcile sample_config (sample_session ''0123456789'') empty_cluster =
      (Inr provisioning, snd (Reconcile sample_config (sample_session ''0123456789'') empty_cluster))"
    using sample_reconciled by (simp add: prod_eq_iff)
qed

text \<open>
  a teardown that succeeds removed the VM, its service and network policy, the disk and
  the snapshot the status names, whether or not they were there; but not everything that
  reconciling creates, as the contract of the provider promises: the secret with the
  cloud-init data stays.
\<close>

theorem teardown_leaves_only_secret:
  assumes "Teardown l c = (Inr u, c')"
  shows "vmis c' (resourceName l) = None \<and> services c' (resourceName l) = None \<and>
    netpols c' (resourceName l) = None \<and> volumes c' (resourceName l) = None \<and>
    (snapshotName (ls_status l) = [] \<or> snapshots c' (snapshotName (ls_status l)) = None) \<and>
    secrets c' = secrets c"
  using Teardown_Inr [OF assms] by auto

theorem teardown_leaves_only_secret_witness:
  "let c = snd (Reconcile sample_config (sample_session ''0123456789'') empty_cluster);
       c' = snd (Teardown (sample_session ''0123456789'') c)
   in volumes c' (resourceName (sample_session ''0123456789'')) = None \<and>
      secrets c' (resourceName (sample_session ''0123456789'')) \<noteq> None"
proof -
  let ?l = "sample_session ''0123456789''"
  let ?c = "snd (Reconcile sample_config ?l empty_cluster)"
  have f: "cfaults ?c = []" using sample_reconciled by simp
  have n: "resourceName ?l = ''lab-01234567''" "snapshotName (ls_status ?l) = []"
    by (simp_all add: sample_eval)
  have "Teardown ?l ?c = (Inr (), snd (Teardown ?l ?c))"
    using f n(2)
    by (simp add: Teardown_def TeardownCompute_def TeardownDisk_def andthen_def delete_vmi_def
        delete_netpol_def delete_service_def delete_volume_def give_def)
  from teardown_leaves_only_secret [OF this] show ?thesis
    unfolding Let_def n using sample_reconciled by simp
qed

text \<open>
  objects are named after the first eight characters of the session id only. Of two
  sessions that agree on them, the second can never be reconciled while the first has its
  disk, and tearing the second down removes the disk and the VM of the first.
\<close>

theorem name_clash:
  assumes "take 8 (sessionID (ls_spec l1)) = take 8 (sessionID (ls_spec l2))"
    "8 < length (sessionID (ls_spec l1))" "8 < length (sessionID (ls_spec l2))"
    "volumes c (resourceName l1) = Some v" "vol_owner v \<noteq> sessionID (ls_spec l2)"
  shows "(\<forall>r c'. Reconcile cfg l2 c = (Inr r, c') \<longrightarrow> r_phase r = Failed) \<and>
    (\<forall>u c'. Teardown l2 c = (Inr u, c') \<longrightarrow>
       volumes c' (resourceName l1) = None \<and> vmis c' (resourceName l1) = None)"
proof -
  have n: "resourceName l2 = resourceName l1"
    using assms(1-3) by (simp add: resourceName_def Let_def)
  obtain b c1 where call: "cluster_call c = (b, c1)" by (cases "cluster_call c")
  have v: "volumes c1 (resourceName l1) = Some v"
    using assms(4) cluster_call_frame(1) [of c] call by simp
  have no: "fst (converge cfg l2 g sp u c) \<noteq> Inr r" for g sp u and r :: result
  proof -
    have "fst (ensureDataVolume cfg l2 (resourceName l1) g c) = Inl (Ensure_error ''datavolume'')"
      using v assms(5) call by (simp add: ensureDataVolume_def attempt_def fail_def split: if_split)
    then obtain c2 where "ensureDataVolume cfg l2 (resourceName l1) g c = (Inl (Ensure_error ''datavolume''), c2)"
      by (metis prod.collapse)
    then show ?thesis unfolding converge_def andthen_def n by simp
  qed
  have "r_phase r = Failed" if "Reconcile cfg l2 c = (Inr r, c')" for r c'
  proof (cases rule: Reconcile_cases [of cfg l2 c])
    case (1 x)
    then show ?thesis using that by (simp add: give_def)
  next
    case (2 g sp u)
    then show ?thesis using no [of g sp u r] that by simp
  qed
  moreover have "volumes c' (resourceName l1) = None \<and> vmis c' (resourceName l1) = None"
    if "Teardown l2 c = (Inr u, c')" for u c'
    using Teardown_Inr [OF that] n by simp
  ultimately show ?thesis by blast
qed

theorem name_clash_witness:
  "(let c = snd (Reconcile sample_config (sample_session ''0123456789'') empty_cluster)
    in volumes (snd (Teardown (sample_session ''01234567ab'') c)) ''lab-01234567'' = None)"
proof -
  let ?c = "snd (Reconcile sample_config (sample_session ''0123456789'') empty_cluster)"
  let ?l = "sample_session ''01234567ab''"
  have n: "resourceName (sample_session ''0123456789'') = ''lab-01234567''" by (simp add: sample_eval)
  have "Teardown ?l ?c = (Inr (), snd (Teardown ?l ?c))"
    using sample_reconciled
    by (simp add: Teardown_def TeardownCompute_def TeardownDisk_def andthen_def delete_vmi_def
        delete_netpol_def delete_service_def delete_volume_def give_def sample_eval)
  moreover have "\<forall>u c'. Teardown ?l ?c = (Inr u, c') \<longrightarrow>
      volumes c' (resourceName (sample_session ''0123456789'')) = None \<and>
      vmis c' (resourceName (sample_session ''0123456789'')) = None"
    using name_clash [of "sample_session ''0123456789''" ?l ?c
        "\<lparr>vol_owner = ''0123456789'', vol_source = From_golden ''golden-base'', vol_content = None\<rparr>" sample_config]
      sample_reconciled by (simp add: n) (simp add: sample_session_def new_session_def)
  ultimately show ?thesis unfolding Let_def n by blast
qed
section \<open>What a reconciliation leaves\<close>

text \<open>The configuration has all that provisioning the session needs.\<close>

definition serves :: "config \<Rightarrow> lab_session \<Rightarrow> bool" where
  "serves cfg l \<longleftrightarrow>
     (case golden_pvc (cfg_load cfg) (golden_pvcs cfg) (scenarioID (ls_spec l)) of
        Inl _ \<Rightarrow> False
      | Inr _ \<Rightarrow>
      (case normalize_size (size_tier (ls_spec l)) of
        Inl _ \<Rightarrow> False
      | Inr sz \<Rightarrow>
      (case resolve_size sz (size_overrides_map cfg) of
        None \<Rightarrow> False
      | Some sp \<Rightarrow> quantity_ok cfg (CPU sp) \<and> quantity_ok cfg (Memory sp)))) \<and>
     cfg_render cfg (scenarioID (ls_spec l)) (browserEnabled (ls_spec l)) \<noteq> None \<and>
     quantity_ok cfg (if disk_size cfg = [] then default_disk_size else disk_size cfg)"

text \<open>No other session controls an object of the session's name.\<close>

definition owned :: "lab_session \<Rightarrow> 'd cluster \<Rightarrow> bool" where
  "owned l c \<longleftrightarrow>
     (let n = resourceName l; i = sessionID (ls_spec l) in
      (case volumes c n of None \<Rightarrow> True | Some x \<Rightarrow> vol_owner x = i) \<and>
      (case secrets c n of None \<Rightarrow> True | Some x \<Rightarrow> sec_owner x = i) \<and>
      (case vmis c n of None \<Rightarrow> True | Some x \<Rightarrow> vmi_owner x = i) \<and>
      (case services c n of None \<Rightarrow> True | Some x \<Rightarrow> svc_owner x = i) \<and>
      (case netpols c n of None \<Rightarrow> True | Some x \<Rightarrow> np_owner x = i))"

definition all_there :: "config \<Rightarrow> lab_session \<Rightarrow> 'd cluster \<Rightarrow> bool" where
  "all_there cfg l c \<longleftrightarrow>
     (let n = resourceName l; i = sessionID (ls_spec l) in
      (case volumes c n of None \<Rightarrow> False | Some x \<Rightarrow> vol_owner x = i) \<and>
      (case secrets c n of None \<Rightarrow> False | Some x \<Rightarrow> sec_owner x = i) \<and>
      (case vmis c n of None \<Rightarrow> False | Some x \<Rightarrow> vmi_owner x = i) \<and>
      services c n = Some \<lparr>svc_owner = i, svc_ports = vm_ports l\<rparr> \<and>
      netpols c n = Some \<lparr>np_owner = i, np_from = server_namespace cfg, np_ports = vm_ports l\<rparr>)"

definition vm_result :: "config \<Rightarrow> string \<Rightarrow> vmi option \<Rightarrow> result" where
  "vm_result cfg n X =
     (case X of None \<Rightarrow> provisioning
      | Some v \<Rightarrow> (case vmi_status v of
          Vmi_running \<Rightarrow> \<lparr>r_phase = Running, r_serviceDNS = serviceDNS_of cfg n, r_message = []\<rparr>
        | Vmi_failed \<Rightarrow> failed ''vmi phase Failed''
        | Vmi_succeeded \<Rightarrow> failed ''vmi phase Succeeded''
        | Vmi_pending \<Rightarrow> provisioning))"

lemma cluster_same:
  "volumes c n = Some v \<Longrightarrow> c\<lparr>volumes := (volumes c)(n \<mapsto> v)\<rparr> = c"
  "vmis c n = Some m \<Longrightarrow> c\<lparr>vmis := (vmis c)(n \<mapsto> m)\<rparr> = c"
  by (cases c; simp add: map_upd_triv)+

lemma ensure_ok:
  assumes "cfaults c = []" "owned l c"
  shows "quantity_ok cfg (if disk_size cfg = [] then default_disk_size else disk_size cfg) \<Longrightarrow>
      ensureDataVolume cfg l (resourceName l) g c = (Inr (), c\<lparr>volumes := (volumes c)(resourceName l \<mapsto>
        (case volumes c (resourceName l) of Some v \<Rightarrow> v
         | None \<Rightarrow> \<lparr>vol_owner = sessionID (ls_spec l), vol_source = volume_source l g, vol_content = None\<rparr>))\<rparr>)"
    and "ensureUserDataSecret l (resourceName l) u c = (Inr (), c\<lparr>secrets := (secrets c)(resourceName l \<mapsto>
        \<lparr>sec_owner = sessionID (ls_spec l), sec_userdata = u\<rparr>)\<rparr>)"
    and "quantity_ok cfg (CPU sp) \<Longrightarrow> quantity_ok cfg (Memory sp) \<Longrightarrow>
      ensureVMI cfg l (resourceName l) sp c = (Inr (), c\<lparr>vmis := (vmis c)(resourceName l \<mapsto>
        (case vmis c (resourceName l) of Some v \<Rightarrow> v
         | None \<Rightarrow> \<lparr>vmi_owner = sessionID (ls_spec l), vmi_status = Vmi_pending, vmi_spec = sp,
                    vmi_dataplane = ''none''\<rparr>))\<rparr>)"
    and "ensureService l (resourceName l) c = (Inr (), c\<lparr>services := (services c)(resourceName l \<mapsto>
        \<lparr>svc_owner = sessionID (ls_spec l), svc_ports = vm_ports l\<rparr>)\<rparr>)"
    and "ensureNetworkPolicy cfg l (resourceName l) c = (Inr (), c\<lparr>netpols := (netpols c)(resourceName l \<mapsto>
        \<lparr>np_owner = sessionID (ls_spec l), np_from = server_namespace cfg, np_ports = vm_ports l\<rparr>)\<rparr>)"
  using assms
  by (auto simp: ensureDataVolume_def ensureUserDataSecret_def ensureVMI_def ensureService_def
      ensureNetworkPolicy_def owned_def Let_def cluster_same split: option.splits)

text \<open>The cluster after a reconciliation in which every call succeeds.\<close>

definition converged :: "config \<Rightarrow> lab_session \<Rightarrow> string \<Rightarrow> spec \<Rightarrow> string \<Rightarrow> 'd cluster \<Rightarrow> 'd cluster" where
  "converged cfg l g sp u c =
     (let n = resourceName l; i = sessionID (ls_spec l) in
      c\<lparr>volumes := (volumes c)(n \<mapsto> (case volumes c n of Some v \<Rightarrow> v
           | None \<Rightarrow> \<lparr>vol_owner = i, vol_source = volume_source l g, vol_content = None\<rparr>)),
        secrets := (secrets c)(n \<mapsto> \<lparr>sec_owner = i, sec_userdata = u\<rparr>),
        vmis := (vmis c)(n \<mapsto> (case vmis c n of Some v \<Rightarrow> v
           | None \<Rightarrow> \<lparr>vmi_owner = i, vmi_status = Vmi_pending, vmi_spec = sp, vmi_dataplane = ''none''\<rparr>)),
        services := (services c)(n \<mapsto> \<lparr>svc_owner = i, svc_ports = vm_ports l\<rparr>),
        netpols := (netpols c)(n \<mapsto> \<lparr>np_owner = i, np_from = server_namespace cfg, np_ports = vm_ports l\<rparr>)\<rparr>)"

lemma converge_ok:
  assumes "cfaults c = []" "owned l c" "quantity_ok cfg (CPU sp)" "quantity_ok cfg (Memory sp)"
    "quantity_ok cfg (if disk_size cfg = [] then default_disk_size else disk_size cfg)"
  shows "converge cfg l g sp u c =
    (Inr (vm_result cfg (resourceName l) (vmis (converged cfg l g sp u c) (resourceName l))), converged cfg l g sp u c)"
proof (cases "volumes c (resourceName l)"; cases "vmis c (resourceName l)")
qed (use assms in \<open>simp_all add: converge_def andthen_def ensure_ok owned_def vmi_result_def vm_result_def
    converged_def Let_def\<close>)
lemma Reconcile_serves:
  fixes c :: "'d cluster"
  assumes "serves cfg l" "owned l c" "cfaults c = []"
  obtains g sp u where "Reconcile cfg l c =
      (Inr (vm_result cfg (resourceName l) (vmis (converged cfg l g sp u c) (resourceName l))), converged cfg l g sp u c)"
proof (rule that)
  let ?g = "projr (golden_pvc (cfg_load cfg) (golden_pvcs cfg) (scenarioID (ls_spec l)))"
  let ?sp = "the (resolve_size (projr (normalize_size (size_tier (ls_spec l)))) (size_overrides_map cfg))"
  let ?u = "the (cfg_render cfg (scenarioID (ls_spec l)) (browserEnabled (ls_spec l)))"
  have "Reconcile cfg l c = converge cfg l ?g ?sp ?u c"
    using assms(1) by (auto simp: serves_def Reconcile_def converge_def Let_def split: sum.splits option.splits)
  moreover have "quantity_ok cfg (CPU ?sp)" "quantity_ok cfg (Memory ?sp)"
    "quantity_ok cfg (if disk_size cfg = [] then default_disk_size else disk_size cfg)"
    using assms(1) by (auto simp: serves_def split: sum.splits option.splits)
  ultimately show "Reconcile cfg l c =
      (Inr (vm_result cfg (resourceName l) (vmis (converged cfg l ?g ?sp ?u c) (resourceName l))),
       converged cfg l ?g ?sp ?u c)"
    using converge_ok [OF assms(3,2), of cfg ?sp ?g ?u] by simp
qed

lemma converged_sel [simp]:
  "snapshots (converged cfg l g sp u c) = snapshots c" "cfaults (converged cfg l g sp u c) = cfaults c"
  "goldens (converged cfg l g sp u c) = goldens c"
  by (simp_all add: converged_def Let_def)

lemma converged_volume:
  "volumes (converged cfg l g sp u c) (resourceName l) = Some (case volumes c (resourceName l) of Some v \<Rightarrow> v
     | None \<Rightarrow> \<lparr>vol_owner = sessionID (ls_spec l), vol_source = volume_source l g, vol_content = None\<rparr>)"
  by (simp add: converged_def Let_def)

lemma converged_vmi:
  "vmis (converged cfg l g sp u c) (resourceName l) = Some (case vmis c (resourceName l) of Some v \<Rightarrow> v
     | None \<Rightarrow> \<lparr>vmi_owner = sessionID (ls_spec l), vmi_status = Vmi_pending, vmi_spec = sp, vmi_dataplane = ''none''\<rparr>)"
  by (simp add: converged_def Let_def)

lemma converged_there: "owned l c \<Longrightarrow> all_there cfg l (converged cfg l g sp u c)"
  by (auto simp: owned_def all_there_def converged_def Let_def split: option.splits)

lemma converged_owned: "owned l c \<Longrightarrow> owned l (converged cfg l g sp u c)"
  by (auto simp: owned_def converged_def Let_def split: option.splits)

text \<open>
  C35: reconciling provisions: if the configuration covers the scenario and the size, no other
  session controls an object of that name and no call fails, a reconciliation succeeds, all
  five objects are there with this session as their owner, the service and the policy open
  exactly the ports of the session, the policy to the server's namespace only, a disk and a VM
  that were there are the ones that are there now, and the result tells the phase of the VM.
\<close>

theorem reconcile_provisions:
  assumes "serves cfg l" "owned l c" "cfaults c = []"
  shows "\<exists>c'. Reconcile cfg l c = (Inr (vm_result cfg (resourceName l) (vmis c' (resourceName l))), c') \<and>
    all_there cfg l c' \<and>
    (volumes c (resourceName l) \<noteq> None \<longrightarrow> volumes c' = volumes c) \<and>
    (vmis c (resourceName l) \<noteq> None \<longrightarrow> vmis c' = vmis c)"
proof -
  obtain g sp u where "Reconcile cfg l c =
      (Inr (vm_result cfg (resourceName l) (vmis (converged cfg l g sp u c) (resourceName l))), converged cfg l g sp u c)"
    by (rule Reconcile_serves [OF assms])
  moreover have "volumes c (resourceName l) \<noteq> None \<longrightarrow> volumes (converged cfg l g sp u c) = volumes c"
    "vmis c (resourceName l) \<noteq> None \<longrightarrow> vmis (converged cfg l g sp u c) = vmis c"
    by (auto simp: converged_def Let_def map_upd_triv)
  ultimately show ?thesis using converged_there [OF assms(2)] by blast
qed

lemma sample_serves: "serves sample_config (sample_session i)"
  by (simp add: serves_def sample_eval)

lemma empty_owned: "owned l empty_cluster"
  by (simp add: owned_def empty_cluster_def)

theorem reconcile_provisions_witness:
  "\<exists>c'. Reconcile sample_config (sample_session ''0123456789'') empty_cluster = (Inr provisioning, c') \<and>
    all_there sample_config (sample_session ''0123456789'') c'"
proof -
  have "cfaults empty_cluster = []" by (simp add: empty_cluster_def)
  from reconcile_provisions [OF sample_serves empty_owned this, of "''0123456789''"]
  show ?thesis using sample_reconciled by (auto simp: prod_eq_iff)
qed

end
