(* ===== verification/Reconciler.thy ===== *)
theory Reconciler
  imports Vm_Provider
begin

text \<open>
  The LabSession reconciler (\<^verbatim>\<open>internal/controller/labsession_controller.go\<close>): one call of
  \<^verbatim>\<open>Reconcile\<close> reads the resource, does at most one of deletion, finalizer, expiry, pause,
  resume and convergence, and says when to be called again.

  A world is the API server's resources and the provider's state. The reconciler reads the
  current resource; nobody changes it during the call, and a conflicting write shows as a
  failing patch. \<open>now\<close> and \<open>later\<close> are the two readings of the clock, in seconds; \<open>probe\<close> is the
  answer of the terminal in the VM. Errors make the framework call again.
\<close>

section \<open>The operation\<close>

record 'p world =
  kube :: k8s
  vms :: 'p

record env =
  now :: int
  later :: int
  probe :: "string \<Rightarrow> bool"

datatype rec_error = Rec_api api_error | Rec_provider provider_error

datatype requeue = No_requeue | Requeue_after int

definition finalizer :: string where
  "finalizer = ''lab.uds.dev/teardown''"

definition requeueWhilePending :: int where
  "requeueWhilePending = 5"

text \<open>Calls of the API server and of the provider as operations on the world.\<close>

definition on_kube :: "(k8s \<Rightarrow> (api_error + 'a) \<times> k8s) \<Rightarrow> ('p world, rec_error, 'a) op" where
  "on_kube m w =
     (case m (kube w) of
        (Inl e, k) \<Rightarrow> (Inl (Rec_api e), w\<lparr>kube := k\<rparr>) | (Inr a, k) \<Rightarrow> (Inr a, w\<lparr>kube := k\<rparr>))"

definition on_vms :: "('p, provider_error, 'a) op \<Rightarrow> ('p world, rec_error, 'a) op" where
  "on_vms m w =
     (case m (vms w) of
        (Inl e, p) \<Rightarrow> (Inl (Rec_provider e), w\<lparr>vms := p\<rparr>) | (Inr a, p) \<Rightarrow> (Inr a, w\<lparr>vms := p\<rparr>))"

definition patchStatus :: "lab_session \<Rightarrow> (lab_status \<Rightarrow> lab_status) \<Rightarrow> ('p world, rec_error, lab_session) op" where
  "patchStatus l f = on_kube (cr_patch (ls_name l) (upd_status f))"

definition update_finalizers :: "lab_session \<Rightarrow> string list \<Rightarrow> ('p world, rec_error, lab_session) op" where
  "update_finalizers l fs = on_kube (cr_patch (ls_name l) (ls_finalizers_update (\<lambda>_. fs)))"

definition requeueUntilExpiry :: "env \<Rightarrow> lab_session \<Rightarrow> int" where
  "requeueUntilExpiry e l =
     (case expiresAt (ls_spec l) of
        None \<Rightarrow> 60
      | Some t \<Rightarrow> (if t - later e < 1 then 1 else t - later e))"

definition rec_deleted :: "'p provider \<Rightarrow> lab_session \<Rightarrow> ('p world, rec_error, requeue) op" where
  "rec_deleted P l =
     (if finalizer \<in> set (ls_finalizers l)
      then andthen (on_vms (pr_teardown P l)) (\<lambda>_.
           andthen (update_finalizers l (filter (\<lambda>f. f \<noteq> finalizer) (ls_finalizers l))) (\<lambda>_.
           give No_requeue))
      else give No_requeue)"

definition rec_add_finalizer :: "lab_session \<Rightarrow> ('p world, rec_error, requeue) op" where
  "rec_add_finalizer l =
     andthen (update_finalizers l (ls_finalizers l @ [finalizer])) (\<lambda>_. give No_requeue)"

definition is_expired :: "env \<Rightarrow> lab_session \<Rightarrow> bool" where
  "is_expired e l = (case expiresAt (ls_spec l) of None \<Rightarrow> False | Some t \<Rightarrow> t < now e)"

definition rec_expired :: "'p provider \<Rightarrow> lab_session \<Rightarrow> ('p world, rec_error, requeue) op" where
  "rec_expired P l =
     (if ph (ls_status l) \<noteq> Expired
      then andthen (on_vms (pr_teardown P l)) (\<lambda>_.
           andthen (patchStatus l (\<lambda>s. s\<lparr>ph := Expired, snapshotName := []\<rparr>)) (\<lambda>_.
           give No_requeue))
      else give No_requeue)"

text \<open>Phase 2 of pausing: an error of the readiness check only makes it try again.\<close>

definition rec_pause :: "'p provider \<Rightarrow> lab_session \<Rightarrow> ('p world, rec_error, requeue) op" where
  "rec_pause P l =
     (if snapshotName (ls_status l) = []
      then andthen (on_vms (pr_teardown_compute P l)) (\<lambda>_.
           andthen (on_vms (pr_snapshot P l)) (\<lambda>n.
           andthen (patchStatus l (\<lambda>s. s\<lparr>snapshotName := n, serviceDNS := []\<rparr>)) (\<lambda>_.
           give (Requeue_after 5))))
      else recovering (on_vms (pr_snapshot_ready P (snapshotName (ls_status l)))) (Requeue_after 5) (\<lambda>ready.
           if \<not> ready then give (Requeue_after 5)
           else andthen (on_vms (pr_teardown_disk P l)) (\<lambda>_.
                andthen (patchStatus l (\<lambda>s. s\<lparr>ph := Paused\<rparr>)) (\<lambda>_.
                give No_requeue))))"

definition rec_resume :: "lab_session \<Rightarrow> ('p world, rec_error, requeue) op" where
  "rec_resume l =
     andthen (patchStatus l (\<lambda>s. s\<lparr>ph := Provisioning\<rparr>)) (\<lambda>_. give (Requeue_after 1))"

definition ready_phase :: "env \<Rightarrow> result \<Rightarrow> phase" where
  "ready_phase e r =
     (if r_phase r = Running \<and> r_serviceDNS r \<noteq> [] \<and> probe e (r_serviceDNS r) then Ready else r_phase r)"

text \<open>
  After convergence: the status patch, then the deletion of a snapshot that a resumed and
  running VM needs no more; \<open>pending\<close> says that this deletion failed.
\<close>

definition patch_observed :: "lab_session \<Rightarrow> phase \<Rightarrow> result \<Rightarrow> ('p world, rec_error, unit) op" where
  "patch_observed l p r =
     (if ph (ls_status l) \<noteq> p \<or> serviceDNS (ls_status l) \<noteq> r_serviceDNS r \<or> message (ls_status l) \<noteq> r_message r
      then andthen (patchStatus l (\<lambda>s. s\<lparr>ph := p, serviceDNS := r_serviceDNS r, message := r_message r\<rparr>)) (\<lambda>_. give ())
      else give ())"

definition clean_snapshot :: "'p provider \<Rightarrow> lab_session \<Rightarrow> phase \<Rightarrow> ('p world, rec_error, bool) op" where
  "clean_snapshot P l p =
     (if snapshotName (ls_status l) = [] \<or> (p \<noteq> Running \<and> p \<noteq> Ready) then give False
      else recovering (on_vms (pr_delete_snapshot P (snapshotName (ls_status l)))) True (\<lambda>_.
           andthen (patchStatus l (\<lambda>s. s\<lparr>snapshotName := []\<rparr>)) (\<lambda>_. give False)))"

definition rec_converge :: "'p provider \<Rightarrow> env \<Rightarrow> lab_session \<Rightarrow> ('p world, rec_error, requeue) op" where
  "rec_converge P e l =
     andthen (on_vms (pr_reconcile P l)) (\<lambda>r.
     andthen (patch_observed l (ready_phase e r) r) (\<lambda>_.
     andthen (clean_snapshot P l (ready_phase e r)) (\<lambda>pending.
     give (if pending then Requeue_after requeueWhilePending
           else if ready_phase e r \<noteq> Ready then Requeue_after requeueWhilePending
           else Requeue_after (requeueUntilExpiry e l)))))"

definition rec_session :: "'p provider \<Rightarrow> env \<Rightarrow> lab_session \<Rightarrow> ('p world, rec_error, requeue) op" where
  "rec_session P e l =
     (if ls_deleting l then rec_deleted P l
      else if finalizer \<notin> set (ls_finalizers l) then rec_add_finalizer l
      else if is_expired e l then rec_expired P l
      else if paused (ls_spec l) \<and> ph (ls_status l) \<noteq> Paused then rec_pause P l
      else if \<not> paused (ls_spec l) \<and> ph (ls_status l) = Paused then rec_resume l
      else if ph (ls_status l) = Paused then give No_requeue
      else rec_converge P e l)"

definition reconcile :: "'p provider \<Rightarrow> env \<Rightarrow> string \<Rightarrow> ('p world, rec_error, requeue) op" where
  "reconcile P e n w =
     (case cr_get n (kube w) of
        (Inl Not_found, k) \<Rightarrow> (Inr No_requeue, w\<lparr>kube := k\<rparr>)
      | (Inl x, k) \<Rightarrow> (Inl (Rec_api x), w\<lparr>kube := k\<rparr>)
      | (Inr l, k) \<Rightarrow> rec_session P e l (w\<lparr>kube := k\<rparr>))"

section \<open>Frames\<close>

lemma vms_on_kube [simp]: "vms (snd (on_kube m w)) = vms w"
  by (simp add: on_kube_def split: prod.split sum.split)

lemma kube_on_vms [simp]: "kube (snd (on_vms m w)) = kube w"
  by (simp add: on_vms_def split: prod.split sum.split)

lemma vms_on_vms [simp]: "vms (snd (on_vms m w)) = snd (m (vms w))"
  by (simp add: on_vms_def split: prod.split sum.split)

lemma on_vms_Inr: "on_vms m w = (Inr a, w') \<Longrightarrow> \<exists>p. m (vms w) = (Inr a, p) \<and> w' = w\<lparr>vms := p\<rparr>"
  by (auto simp: on_vms_def split: prod.splits sum.splits)

lemma keeps_on_kube: "keeps (\<lambda>w. Q (vms w)) (on_kube m)"
  by (simp add: keeps_def)

lemma keeps_patches:
  "keeps (\<lambda>w. Q (vms w)) (patchStatus l f)" "keeps (\<lambda>w. Q (vms w)) (update_finalizers l fs)"
  unfolding patchStatus_def update_finalizers_def by (rule keeps_on_kube)+

lemma keeps_on_vms: "keeps Q m \<Longrightarrow> keeps (\<lambda>w. Q (vms w)) (on_vms m)"
  by (simp add: keeps_def)

lemma cr_get_found:
  "cr_get n k = (Inr l, k') \<Longrightarrow> find (\<lambda>x. ls_name x = n) (crs k) = Some l \<and> crs k' = crs k"
  by (auto simp: cr_get_def api_call_crs split: prod.splits if_splits option.splits)

section \<open>What the contract of the provider gives\<close>

context vm_provider
begin

text \<open>
  The disk of the reconciled session goes only when the session is deleted or expired, or
  when pausing it found its snapshot ready, and then the snapshot is still there.
\<close>

lemma pause_disk:
  assumes "has_disk l (vms w)" "\<not> has_disk l (vms (snd (rec_pause P l w)))"
  shows "snapshotName (ls_status l) \<noteq> [] \<and> snap_ok (snapshotName (ls_status l)) (vms (snd (rec_pause P l w)))"
proof (cases "snapshotName (ls_status l) = []")
  case True
  have "keeps (\<lambda>w. has_disk l (vms w)) (rec_pause P l)"
    unfolding rec_pause_def if_P [OF True]
    by (intro keeps_andthen keeps_on_vms keeps_patches compute_keeps_disk snapshot_keeps_disk keeps_give)
  from keepsD [OF this, of w] show ?thesis using assms by simp
next
  case False
  let ?n = "snapshotName (ls_status l)"
  obtain x w1 where r: "on_vms (pr_snapshot_ready P ?n) w = (x, w1)" by (cases "on_vms (pr_snapshot_ready P ?n) w")
  have d: "has_disk l (vms w1)"
    using keepsD [OF keeps_on_vms [OF ready_keeps_disk [of l ?n]], of w] assms(1) r by simp
  have "x = Inr True"
  proof (rule ccontr)
    assume "x \<noteq> Inr True"
    then have "snd (rec_pause P l w) = w1"
      using False r by (auto simp: rec_pause_def recovering_def give_def split: sum.splits)
    then show False using assms(2) d by simp
  qed
  then have ok: "snap_ok ?n (vms w1)"
  proof -
    obtain p where "pr_snapshot_ready P ?n (vms w) = (Inr True, p)" "w1 = w\<lparr>vms := p\<rparr>"
      using on_vms_Inr [of _ w True w1] r \<open>x = Inr True\<close> by blast
    then show ?thesis using ready_sound by simp
  qed
  have "keeps (\<lambda>w. snap_ok ?n (vms w))
      (andthen (on_vms (pr_teardown_disk P l)) (\<lambda>_. andthen (patchStatus l (\<lambda>s. s\<lparr>ph := Paused\<rparr>)) (\<lambda>_. give No_requeue)))"
    by (intro keeps_andthen keeps_on_vms keeps_patches disk_keeps_snapshot keeps_give)
  from keepsD [OF this ok] have "snap_ok ?n (vms (snd (rec_pause P l w)))"
    using False r \<open>x = Inr True\<close> by (simp add: rec_pause_def recovering_def)
  then show ?thesis using False by simp
qed

lemma keeps_clean_snapshot: "keeps (\<lambda>w. has_disk l (vms w)) (clean_snapshot P l' p)"
  unfolding clean_snapshot_def
  by (intro keeps_if keeps_recovering keeps_andthen keeps_on_vms keeps_patches keeps_give
      delete_snapshot_keeps_disk)

lemma converge_disk: "keeps (\<lambda>w. has_disk l (vms w)) (rec_converge P e l')"
  unfolding rec_converge_def patch_observed_def
  by (intro keeps_andthen keeps_on_vms reconcile_keeps_disk keeps_if keeps_patches keeps_clean_snapshot keeps_give)

lemma disk_loss:
  assumes "has_disk l (vms w)" "\<not> has_disk l (vms (snd (rec_session P e l w)))"
  shows "ls_deleting l \<or> is_expired e l \<or>
    (paused (ls_spec l) \<and> snapshotName (ls_status l) \<noteq> [] \<and>
     snap_ok (snapshotName (ls_status l)) (vms (snd (rec_session P e l w))))"
proof -
  have k: "keeps (\<lambda>w. has_disk l (vms w)) (rec_add_finalizer l)" "keeps (\<lambda>w. has_disk l (vms w)) (rec_resume l)"
    unfolding rec_add_finalizer_def rec_resume_def by (intro keeps_andthen keeps_patches keeps_give)+
  show ?thesis
  proof (cases "ls_deleting l \<or> is_expired e l")
    case True
    then show ?thesis by blast
  next
    case f: False
    show ?thesis
    proof (cases "finalizer \<in> set (ls_finalizers l) \<and> paused (ls_spec l) \<and> ph (ls_status l) \<noteq> Paused")
      case True
      then have "rec_session P e l = rec_pause P l" using f by (simp add: rec_session_def)
      then show ?thesis using True assms pause_disk [of l w] by simp
    next
      case False
      then have "keeps (\<lambda>w. has_disk l (vms w)) (rec_session P e l)"
        using f by (simp add: rec_session_def k converge_disk keeps_give) blast
      from keepsD [OF this, of w] show ?thesis using assms by simp
    qed
  qed
qed

text \<open>The phase becomes Expired only when a teardown succeeded in the same call.\<close>

lemma expiry_tears_down:
  assumes "rec_expired P l w = (Inr q, w')" "ph (ls_status l) \<noteq> Expired"
  shows "\<not> has_disk l (vms w') \<and> \<not> has_compute l (vms w')"
proof -
  have "andthen (on_vms (pr_teardown P l)) (\<lambda>_. andthen
        (patchStatus l (\<lambda>s. s\<lparr>ph := Expired, snapshotName := []\<rparr>)) (\<lambda>_. give No_requeue)) w = (Inr q, w')"
    using assms by (simp add: rec_expired_def)
  then obtain u w1 where 1: "on_vms (pr_teardown P l) w = (Inr u, w1)"
    and r: "andthen (patchStatus l (\<lambda>s. s\<lparr>ph := Expired, snapshotName := []\<rparr>)) (\<lambda>_. give No_requeue) w1 = (Inr q, w')"
    by (rule andthen_InrE)
  from r obtain l1 w2 where 2: "patchStatus l (\<lambda>s. s\<lparr>ph := Expired, snapshotName := []\<rparr>) w1 = (Inr l1, w2)" and 3: "give No_requeue w2 = (Inr q :: rec_error + requeue, w')"
    by (rule andthen_InrE)
  have "vms w' = vms w1"
    using 2 3 vms_on_kube [of "cr_patch (ls_name l) (upd_status (\<lambda>s. s\<lparr>ph := Expired, snapshotName := []\<rparr>))" w1]
    by (auto simp: patchStatus_def give_def)
  then show ?thesis using on_vms_Inr [OF 1] teardown_all by auto
qed

text \<open>The finalizer goes only after a teardown that succeeded.\<close>

lemma deletion_tears_down:
  assumes "rec_deleted P l w = (Inr q, w')" "finalizer \<in> set (ls_finalizers l)"
  shows "\<not> has_disk l (vms w') \<and> \<not> has_compute l (vms w')"
proof -
  have "andthen (on_vms (pr_teardown P l)) (\<lambda>_. andthen
        (update_finalizers l (filter (\<lambda>f. f \<noteq> finalizer) (ls_finalizers l))) (\<lambda>_. give No_requeue)) w = (Inr q, w')"
    using assms by (simp add: rec_deleted_def)
  then obtain u w1 where 1: "on_vms (pr_teardown P l) w = (Inr u, w1)"
    and r: "andthen (update_finalizers l (filter (\<lambda>f. f \<noteq> finalizer) (ls_finalizers l))) (\<lambda>_. give No_requeue) w1 = (Inr q, w')"
    by (rule andthen_InrE)
  from r obtain l1 w2 where 2: "update_finalizers l (filter (\<lambda>f. f \<noteq> finalizer) (ls_finalizers l)) w1 = (Inr l1, w2)" and 3: "give No_requeue w2 = (Inr q :: rec_error + requeue, w')"
    by (rule andthen_InrE)
  have "vms w' = vms w1"
    using 2 3 vms_on_kube [of "cr_patch (ls_name l) (ls_finalizers_update (\<lambda>_. filter (\<lambda>f. f \<noteq> finalizer) (ls_finalizers l)))" w1]
    by (auto simp: update_finalizers_def give_def)
  then show ?thesis using on_vms_Inr [OF 1] teardown_all by auto
qed

lemma deletion_failed_keeps_crs:
  assumes "pr_teardown P l (vms w) = (Inl x, p)"
  shows "kube (snd (rec_deleted P l w)) = kube w"
  using assms by (simp add: rec_deleted_def andthen_def on_vms_def give_def)

end

section \<open>The status a call leaves\<close>

definition status_of :: "string \<Rightarrow> 'p world \<Rightarrow> lab_status option" where
  "status_of n w = map_option ls_status (find (\<lambda>l. ls_name l = n) (crs (kube w)))"

text \<open>The status of \<open>n\<close>, if it is still there, satisfies \<open>Q\<close>.\<close>

definition status_ok :: "(lab_status \<Rightarrow> bool) \<Rightarrow> string \<Rightarrow> 'p world \<Rightarrow> bool" where
  "status_ok Q n w = (case status_of n w of None \<Rightarrow> True | Some s \<Rightarrow> Q s)"

lemma find_map_filter:
  assumes "\<And>x. ls_name (f x) = ls_name x" "distinct (map ls_name xs)"
  shows "find (\<lambda>l. ls_name l = n) (filter R (map (\<lambda>x. if ls_name x = m then f x else x) xs)) =
    (case find (\<lambda>l. ls_name l = n) xs of
       None \<Rightarrow> None
     | Some l \<Rightarrow> (let l' = (if n = m then f l else l) in if R l' then Some l' else None))"
  using assms(2)
proof (induction xs)
  case (Cons x xs)
  show ?case
  proof (cases "ls_name x = n")
    case True
    then have "find (\<lambda>l. ls_name l = n) xs = None"
      using Cons.prems True by (auto simp: find_None_iff) (metis imageI)
    then show ?thesis
      using Cons True assms(1) by (auto simp: Let_def)
  next
    case False
    then show ?thesis using Cons assms(1) by auto
  qed
qed simp

text \<open>Names are unique, and every operation of the API keeps them so.\<close>

definition names_distinct :: "'p world \<Rightarrow> bool" where
  "names_distinct w \<longleftrightarrow> distinct (map ls_name (crs (kube w)))"

lemma map_names: "(\<And>x. ls_name (f x) = ls_name x) \<Longrightarrow>
  map ls_name (map (\<lambda>x. if ls_name x = m then f x else x) xs) = map ls_name xs"
  by (induction xs) auto

lemma distinct_names_filter: "distinct (map ls_name xs) \<Longrightarrow> distinct (map ls_name (filter R xs))"
  by (induction xs) auto

lemma kube_on_kube: "kube (snd (on_kube m w)) = snd (m (kube w))"
  by (simp add: on_kube_def split: prod.split sum.split)

lemma patch_keeps_status:
  assumes "\<And>x. ls_name (f x) = ls_name x" "\<And>x. Q (ls_status x) \<Longrightarrow> m = n \<Longrightarrow> Q (ls_status (f x))"
  shows "keeps (\<lambda>w. names_distinct w \<and> status_ok Q n w) (on_kube (cr_patch m f))"
proof (rule keepsI)
  fix w :: "'a world"
  assume w: "names_distinct w \<and> status_ok Q n w"
  let ?xs = "crs (kube w)"
  let ?ys = "filter (\<lambda>x. \<not> gone x) (map (\<lambda>x. if ls_name x = m then f x else x) ?xs)"
  have d: "distinct (map ls_name ?ys)"
    using w map_names [OF assms(1), of m ?xs] by (intro distinct_names_filter) (simp add: names_distinct_def del: map_map)
  have "case map_option ls_status (find (\<lambda>l. ls_name l = n) ?ys) of None \<Rightarrow> True | Some s \<Rightarrow> Q s"
    using w assms(2) find_map_filter [OF assms(1), of ?xs n "\<lambda>x. \<not> gone x" m]
    by (auto simp: status_ok_def status_of_def names_distinct_def Let_def split: option.splits)
  then show "names_distinct (snd (on_kube (cr_patch m f) w)) \<and> status_ok Q n (snd (on_kube (cr_patch m f) w))"
    using crs_patch [of m f "kube w"] d w
    by (auto simp: names_distinct_def status_ok_def status_of_def kube_on_kube)
qed

lemma vms_keeps_status: "keeps (\<lambda>w. names_distinct w \<and> status_ok Q n w) (on_vms m)"
  by (simp add: keeps_def names_distinct_def status_ok_def status_of_def)

lemma finalizers_keep_status:
  "keeps (\<lambda>w. names_distinct w \<and> status_ok Q n w) (update_finalizers l fs)"
  unfolding update_finalizers_def by (rule patch_keeps_status) simp_all

lemma patchStatus_keeps_status:
  assumes "\<And>s. Q s \<Longrightarrow> Q (f s)"
  shows "keeps (\<lambda>w. names_distinct w \<and> status_ok Q n w) (patchStatus l f)"
  unfolding patchStatus_def by (rule patch_keeps_status) (simp_all add: assms)

text \<open>A session that is not ready stays so when the convergence does not say it is.\<close>

abbreviation not_ready :: "string \<Rightarrow> 'p world \<Rightarrow> bool" where
  "not_ready n w \<equiv> names_distinct w \<and> status_ok (\<lambda>s. ph s \<noteq> Ready) n w"

lemma not_ready_steps:
  "keeps (not_ready n) (rec_deleted P l)" "keeps (not_ready n) (rec_add_finalizer l)"
  "keeps (not_ready n) (rec_expired P l)" "keeps (not_ready n) (rec_pause P l)"
  "keeps (not_ready n) (rec_resume l)" "keeps (not_ready n) (clean_snapshot P l p)"
  unfolding rec_deleted_def rec_add_finalizer_def rec_expired_def rec_pause_def rec_resume_def clean_snapshot_def
  by (intro keeps_if keeps_recovering keeps_andthen vms_keeps_status finalizers_keep_status
      patchStatus_keeps_status keeps_give; simp)+

lemma not_ready_observed: "p \<noteq> Ready \<Longrightarrow> keeps (not_ready n) (patch_observed l p r)"
  unfolding patch_observed_def
  by (intro keeps_if keeps_andthen patchStatus_keeps_status keeps_give) simp

lemma converge_ready:
  assumes "not_ready n w" "\<not> not_ready n (snd (rec_converge P e l w))"
  shows "\<exists>r p. pr_reconcile P l (vms w) = (Inr r, p) \<and> ready_phase e r = Ready"
proof (cases "pr_reconcile P l (vms w)")
  case (Pair x p)
  have w1: "not_ready n (snd (on_vms (pr_reconcile P l) w))"
    by (rule keepsD [where P = "not_ready n", OF vms_keeps_status assms(1)])
  show ?thesis
  proof (cases x)
    case (Inl y)
    then have "snd (rec_converge P e l w) = snd (on_vms (pr_reconcile P l) w)"
      using Pair by (simp add: rec_converge_def andthen_def on_vms_def)
    then show ?thesis using assms(2) w1 by simp
  next
    case (Inr r)
    let ?rest = "andthen (patch_observed l (ready_phase e r) r) (\<lambda>_.
      andthen (clean_snapshot P l (ready_phase e r)) (\<lambda>pending.
      give (if pending then Requeue_after requeueWhilePending
            else if ready_phase e r \<noteq> Ready then Requeue_after requeueWhilePending
            else Requeue_after (requeueUntilExpiry e l))))"
    have s: "snd (rec_converge P e l w) = snd (?rest (snd (on_vms (pr_reconcile P l) w)))"
      using Pair Inr by (simp add: rec_converge_def andthen_def on_vms_def)
    show ?thesis
    proof (cases "ready_phase e r = Ready")
      case True
      then show ?thesis using Pair Inr by blast
    next
      case False
      have "keeps (not_ready n) ?rest"
        by (intro keeps_andthen not_ready_observed [OF False] not_ready_steps keeps_give)
      from keepsD [where P = "not_ready n", OF this w1] show ?thesis using s assms(2) by simp
    qed
  qed
qed

lemma session_ready:
  assumes "not_ready n w" "\<not> not_ready n (snd (rec_session P e l w))"
  shows "\<exists>r p. pr_reconcile P l (vms w) = (Inr r, p) \<and> ready_phase e r = Ready"
proof -
  have "rec_session P e l \<in> {rec_deleted P l, rec_add_finalizer l, rec_expired P l, rec_pause P l,
      rec_resume l, give No_requeue, rec_converge P e l}"
    by (simp add: rec_session_def)
  moreover have "keeps (not_ready n) (rec_session P e l) \<Longrightarrow> False"
    using keepsD [where P = "not_ready n" and m = "rec_session P e l" and s = w] assms by blast
  ultimately have "rec_session P e l = rec_converge P e l"
    by (elim insertE emptyE) (simp_all add: not_ready_steps keeps_give)
  then show ?thesis using converge_ready [OF assms(1), of P e l] assms(2) by simp
qed

lemma Reconcile_running:
  assumes "Reconcile cfg l c = (Inr r, c')" "r_phase r = Running"
  shows "r_serviceDNS r = serviceDNS_of cfg (resourceName l) \<and>
    (\<exists>v. vmis c' (resourceName l) = Some v \<and> vmi_status v = Vmi_running)"
proof (cases rule: Reconcile_cases [of cfg l c])
  case (1 x)
  then show ?thesis using assms by (simp add: give_def)
next
  case (2 g sp u)
  then have "\<exists>c5. vmi_result cfg (resourceName l) c5 = (Inr r, c')"
    using assms(1) unfolding 2 converge_def by (elim andthen_InrE) blast
  then show ?thesis
    using assms(2) by (auto simp: vmi_result_def provisioning_def failed_def elim!: attempt_Inr
        split: option.splits vmi_phase.splits)
qed

section \<open>Properties\<close>

text \<open>A failing provider call before a write to the API server leaves the resources alone.\<close>

lemma provider_error_keeps_kube:
  assumes "andthen (on_vms m) (\<lambda>_. andthen (on_kube g) (\<lambda>_. give q)) w = (Inl (Rec_provider z), w')"
  shows "kube w' = kube w"
proof (cases "on_vms m w")
  case (Pair x w1)
  then have k: "kube w1 = kube w" using kube_on_vms [of m w] by simp
  show ?thesis
  proof (cases x)
    case (Inl y)
    then show ?thesis using assms Pair k by (simp add: andthen_def)
  next
    case (Inr a)
    then show ?thesis
      using assms Pair by (auto simp: andthen_def on_kube_def give_def split: prod.splits sum.splits)
  qed
qed

lemma reconcile_found:
  assumes "find (\<lambda>x. ls_name x = n) (crs (kube w)) = Some l"
  obtains e' k where "reconcile P e n w = (Inl (Rec_api e'), w\<lparr>kube := k\<rparr>)" "crs k = crs (kube w)"
  | k where "reconcile P e n w = rec_session P e l (w\<lparr>kube := k\<rparr>)" "crs k = crs (kube w)"
proof -
  obtain b k1 where k: "api_call (kube w) = (b, k1)" by (cases "api_call (kube w)")
  have c: "crs k1 = crs (kube w)" using api_call_crs [OF k] .
  show ?thesis
  proof (cases b)
    case True
    then have "reconcile P e n w = (Inl (Rec_api Api_fault), w\<lparr>kube := k1\<rparr>)"
      using k by (simp add: reconcile_def cr_get_def)
    then show ?thesis using c that(1) by blast
  next
    case False
    then have "reconcile P e n w = rec_session P e l (w\<lparr>kube := k1\<rparr>)"
      using k c assms by (simp add: reconcile_def cr_get_def)
    then show ?thesis using c that(2) by blast
  qed
qed

text \<open>
  C18: user work is never dropped by accident: whatever calls fail, one reconciliation deletes
  the disk of a session only if the session is being deleted or has expired, or if it is to
  pause and the snapshot its status names is ready, and then that snapshot is still there
  afterwards.
\<close>

theorem disk_deleted_only_when_saved:
  assumes "find (\<lambda>x. ls_name x = n) (crs (kube w)) = Some l" "disk_of l (vms w)"
    "\<not> disk_of l (vms (snd (reconcile (kubevirt cfg) e n w)))"
  shows "ls_deleting l \<or> is_expired e l \<or>
    (paused (ls_spec l) \<and> snapshotName (ls_status l) \<noteq> [] \<and>
     snapshot_ok (snapshotName (ls_status l)) (vms (snd (reconcile (kubevirt cfg) e n w))))"
proof (cases rule: reconcile_found [OF assms(1), of "kubevirt cfg" e])
  case (1 e' k)
  then show ?thesis using assms(2,3) by simp
next
  case (2 k)
  have "disk_of l (vms (w\<lparr>kube := k\<rparr>))" using assms(2) by simp
  from kv.disk_loss [OF this, of cfg e] show ?thesis using assms(3) 2(1) by simp
qed

text \<open>
  C22: a session leaves the cluster only with its VM: when a reconciliation of a session that
  is being deleted, or of one that has just expired, succeeds, then neither its disk nor its
  VM, service and network policy exist; and if the teardown of a session being deleted
  fails, the resource keeps its finalizer, so the teardown is tried again.
\<close>

theorem gone_only_after_teardown:
  assumes "find (\<lambda>x. ls_name x = n) (crs (kube w)) = Some l" "finalizer \<in> set (ls_finalizers l)"
    "ls_deleting l \<or> (is_expired e l \<and> ph (ls_status l) \<noteq> Expired)"
  shows "case reconcile (kubevirt cfg) e n w of
      (Inr q, w') \<Rightarrow> \<not> disk_of l (vms w') \<and> \<not> compute_of l (vms w')
    | (Inl (Rec_provider x), w') \<Rightarrow> crs (kube w') = crs (kube w)
    | (Inl (Rec_api x), w') \<Rightarrow> True"
proof (cases rule: reconcile_found [OF assms(1), of "kubevirt cfg" e])
  case (1 e' k)
  then show ?thesis by simp
next
  case (2 k)
  let ?w = "w\<lparr>kube := k\<rparr>"
  obtain m where m: "m = rec_deleted (kubevirt cfg) l \<and> ls_deleting l \<or>
      m = rec_expired (kubevirt cfg) l \<and> ph (ls_status l) \<noteq> Expired"
    and r: "reconcile (kubevirt cfg) e n w = m ?w"
  proof (cases "ls_deleting l")
    case True
    then show ?thesis using 2(1) that [of "rec_deleted (kubevirt cfg) l"] by (simp add: rec_session_def)
  next
    case False
    then show ?thesis
      using 2(1) assms(2,3) that [of "rec_expired (kubevirt cfg) l"] by (simp add: rec_session_def)
  qed
  show ?thesis
  proof (cases "m ?w")
    case (Pair x w')
    show ?thesis
    proof (cases x)
      case (Inr q)
      then show ?thesis
        using m r Pair kv.deletion_tears_down [of cfg l ?w q w'] kv.expiry_tears_down [of cfg l ?w q w'] assms(2)
        by auto
    next
      case (Inl y)
      show ?thesis
      proof (cases y)
        case (Rec_provider z)
        have e: "m ?w = (Inl (Rec_provider z), w')" using Pair Inl Rec_provider by simp
        from m have "kube w' = kube ?w"
        proof (elim disjE conjE)
          assume "m = rec_deleted (kubevirt cfg) l"
          with e have "rec_deleted (kubevirt cfg) l ?w = (Inl (Rec_provider z), w')" by simp
          then show ?thesis
            unfolding rec_deleted_def if_P [OF assms(2)] update_finalizers_def
            by (rule provider_error_keeps_kube)
        next
          assume "m = rec_expired (kubevirt cfg) l" "ph (ls_status l) \<noteq> Expired"
          with e have "rec_expired (kubevirt cfg) l ?w = (Inl (Rec_provider z), w')" by simp
          then show ?thesis
            unfolding rec_expired_def if_P [OF \<open>ph (ls_status l) \<noteq> Expired\<close>] patchStatus_def
            by (rule provider_error_keeps_kube)
        qed
        then show ?thesis using r Pair Inl Rec_provider 2(2) by simp
      qed (use r Pair Inl in simp)
    qed
  qed
qed

text \<open>
  C23: two-phase readiness: a session that was not ready becomes ready in a reconciliation
  only if its VM is running and the terminal answered at the session's service name.
\<close>

theorem ready_only_after_probe:
  assumes "distinct (map ls_name (crs (kube w)))"
    "find (\<lambda>x. ls_name x = n) (crs (kube w)) = Some l" "ph (ls_status l) \<noteq> Ready"
    "find (\<lambda>x. ls_name x = n) (crs (kube (snd (reconcile (kubevirt cfg) e n w)))) = Some l'"
    "ph (ls_status l') = Ready"
  shows "probe e (serviceDNS_of cfg (resourceName l)) \<and>
    (\<exists>r p v. Reconcile cfg l (vms w) = (Inr r, p) \<and> vmis p (resourceName l) = Some v \<and> vmi_status v = Vmi_running)"
proof -
  let ?w' = "snd (reconcile (kubevirt cfg) e n w)"
  have n: "not_ready n w" "\<not> not_ready n ?w'"
    using assms by (simp_all add: names_distinct_def status_ok_def status_of_def)
  have "\<exists>r p. pr_reconcile (kubevirt cfg) l (vms w) = (Inr r, p) \<and> ready_phase e r = Ready"
  proof (cases rule: reconcile_found [OF assms(2), of "kubevirt cfg" e])
    case (1 e' k)
    then show ?thesis using n by (simp add: names_distinct_def status_ok_def status_of_def)
  next
    case (2 k)
    have "not_ready n (w\<lparr>kube := k\<rparr>)"
      using n(1) 2(2) by (simp add: names_distinct_def status_ok_def status_of_def)
    from session_ready [OF this, of "kubevirt cfg" e l] show ?thesis using n(2) 2(1) by simp
  qed
  then obtain r p where r: "Reconcile cfg l (vms w) = (Inr r, p)" "ready_phase e r = Ready"
    by (auto simp: kubevirt_def)
  have "r_phase r \<noteq> Ready"
    using r(1)
  proof (cases rule: Reconcile_cases [of cfg l "vms w"])
    case (2 g sp u)
    then have "\<exists>c5. vmi_result cfg (resourceName l) c5 = (Inr r, p)"
      using r(1) unfolding 2 converge_def by (elim andthen_InrE) blast
    then show ?thesis
      by (auto simp: vmi_result_def provisioning_def failed_def elim!: attempt_Inr
          split: option.splits vmi_phase.splits)
  qed (simp add: give_def)
  then have "r_phase r = Running" "probe e (r_serviceDNS r)"
    using r(2) by (auto simp: ready_phase_def split: if_splits)
  then show ?thesis using Reconcile_running [OF r(1)] r(1) by auto
qed

text \<open>
  a session in use is never forgotten: a successful call for a session that is not being
  deleted, has its finalizer, is not over and is not to pause asks to be called again in at
  least one second, and either within a minute or exactly when the session expires.
\<close>

theorem called_again:
  assumes "find (\<lambda>x. ls_name x = n) (crs (kube w)) = Some l" "reconcile P e n w = (Inr q, w')"
    "\<not> ls_deleting l" "finalizer \<in> set (ls_finalizers l)" "\<not> is_expired e l" "\<not> paused (ls_spec l)"
  shows "\<exists>t. q = Requeue_after t \<and> 1 \<le> t \<and>
    (t \<le> 60 \<or> (case expiresAt (ls_spec l) of None \<Rightarrow> False | Some x \<Rightarrow> later e + t = x))"
proof (cases rule: reconcile_found [OF assms(1), of P e])
  case (1 e' k)
  then show ?thesis using assms(2) by simp
next
  case (2 k)
  then have r: "rec_session P e l (w\<lparr>kube := k\<rparr>) = (Inr q, w')" using assms(2) by simp
  show ?thesis
  proof (cases "ph (ls_status l) = Paused")
    case True
    then have "rec_resume l (w\<lparr>kube := k\<rparr>) = (Inr q, w')"
      using r assms(3-6) by (simp add: rec_session_def)
    then have "q = Requeue_after 1" unfolding rec_resume_def by (elim andthen_InrE) (simp add: give_def)
    then show ?thesis by simp
  next
    case False
    then have "rec_converge P e l (w\<lparr>kube := k\<rparr>) = (Inr q, w')"
      using r assms(3-6) by (simp add: rec_session_def)
    then obtain b where "q = Requeue_after requeueWhilePending \<or> q = Requeue_after (requeueUntilExpiry e l)"
      unfolding rec_converge_def by (elim andthen_InrE) (auto simp: give_def split: if_splits)
    then show ?thesis
      by (cases "expiresAt (ls_spec l)") (auto simp: requeueWhilePending_def requeueUntilExpiry_def)
  qed
qed

text \<open>
  a paused session is forgotten: a call for it changes nothing and does not ask to be
  called again, although its time will be over and its snapshot should then go. It is torn
  down only when something else changes it or the cache is read afresh.
\<close>

theorem paused_not_called_again:
  assumes "find (\<lambda>x. ls_name x = n) (crs (kube w)) = Some l" "faults (kube w) = []"
    "\<not> ls_deleting l" "finalizer \<in> set (ls_finalizers l)" "\<not> is_expired e l"
    "paused (ls_spec l)" "ph (ls_status l) = Paused"
  shows "reconcile P e n w = (Inr No_requeue, w)"
  using assms by (simp add: reconcile_def cr_get_def rec_session_def give_def)

section \<open>A platform with one session\<close>

definition single :: "lab_session \<Rightarrow> 'p \<Rightarrow> 'p world" where
  "single l p = \<lparr>kube = \<lparr>crs = [l], faults = []\<rparr>, vms = p\<rparr>"

lemma single_sel [simp]: "kube (single l p) = \<lparr>crs = [l], faults = []\<rparr>" "vms (single l p) = p"
  by (simp_all add: single_def)

lemma reconcile_single: "reconcile P e (ls_name l) (single l p) = rec_session P e l (single l p)"
  by (simp add: reconcile_def cr_get_def single_def)

lemma on_vms_single:
  "m p = (Inr a, p') \<Longrightarrow> on_vms m (single l p) = (Inr a, single l p')"
  "m p = (Inl e, p') \<Longrightarrow> on_vms m (single l p) = (Inl (Rec_provider e), single l p')"
  by (simp_all add: on_vms_def single_def)

lemma patchStatus_single:
  "\<not> gone l \<Longrightarrow> patchStatus l f (single l p) = (Inr (upd_status f l), single (upd_status f l) p)"
  by (simp add: patchStatus_def on_kube_def cr_patch_def single_def)

lemma patch_stale:
  "\<not> gone l \<Longrightarrow> ls_name l' = ls_name l \<Longrightarrow>
   patchStatus l' f (single l p) = (Inr (upd_status f l), single (upd_status f l) p)"
  by (simp add: patchStatus_def on_kube_def cr_patch_def single_def)

text \<open>A session in use: not deleted, with its finalizer, its time not over.\<close>

definition in_use :: "env \<Rightarrow> lab_session \<Rightarrow> bool" where
  "in_use e l \<longleftrightarrow> \<not> ls_deleting l \<and> finalizer \<in> set (ls_finalizers l) \<and> \<not> is_expired e l"

lemma in_use_upd [simp]: "in_use e (upd_status f l) = in_use e l"
  by (simp add: in_use_def is_expired_def upd_status_def)

lemma in_use_not_gone [simp]: "in_use e l \<Longrightarrow> \<not> gone l"
  by (simp add: in_use_def gone_def)

lemma resourceName_upd [simp]: "resourceName (upd_status f l) = resourceName l"
  by (simp add: resourceName_def upd_status_def)

lemma ls_spec_upd [simp]: "ls_spec (upd_status f l) = ls_spec l"
  by (simp add: upd_status_def)

lemma teardown_ok:
  assumes "cfaults c = []"
  shows "TeardownDisk l c = (Inr (), c\<lparr>volumes := (volumes c)(resourceName l := None)\<rparr>)"
    and "TeardownCompute l c = (Inr (), c\<lparr>vmis := (vmis c)(resourceName l := None),
      netpols := (netpols c)(resourceName l := None), services := (services c)(resourceName l := None)\<rparr>)"
  using assms by (simp_all add: TeardownDisk_def TeardownCompute_def delete_volume_def delete_vmi_def
      delete_netpol_def delete_service_def andthen_def)

text \<open>The two calls of a pause.\<close>

lemma pause_phase_1:
  assumes "in_use e l" "paused (ls_spec l)" "ph (ls_status l) \<noteq> Paused" "snapshotName (ls_status l) = []"
    "cfaults c = []" "snapshots c (snapshot_name l) = None" "volumes c (resourceName l) = Some v"
  shows "rec_session (kubevirt cfg) e l (single l c) =
    (Inr (Requeue_after 5),
     single (upd_status (\<lambda>s. s\<lparr>snapshotName := snapshot_name l, serviceDNS := []\<rparr>) l)
       (c\<lparr>vmis := (vmis c)(resourceName l := None), netpols := (netpols c)(resourceName l := None),
          services := (services c)(resourceName l := None),
          snapshots := (snapshots c)(snapshot_name l \<mapsto> \<lparr>snap_content = vol_content v, snap_ready = False\<rparr>)\<rparr>))"
proof -
  let ?c = "c\<lparr>vmis := (vmis c)(resourceName l := None), netpols := (netpols c)(resourceName l := None),
      services := (services c)(resourceName l := None)\<rparr>"
  have 1: "on_vms (pr_teardown_compute (kubevirt cfg) l) (single l c) = (Inr (), single l ?c)"
    by (rule on_vms_single) (simp add: kubevirt_def teardown_ok assms(5))
  have 2: "on_vms (pr_snapshot (kubevirt cfg) l) (single l ?c) =
      (Inr (snapshot_name l), single l (?c\<lparr>snapshots := (snapshots c)(snapshot_name l \<mapsto>
         \<lparr>snap_content = vol_content v, snap_ready = False\<rparr>)\<rparr>))"
    by (rule on_vms_single) (simp add: kubevirt_def Snapshot_def assms(5-7))
  have rs: "rec_session (kubevirt cfg) e l = rec_pause (kubevirt cfg) l"
    using assms(1-3) by (simp add: rec_session_def in_use_def)
  show ?thesis
    unfolding rs using assms(1,4) by (simp add: rec_pause_def andthen_def 1 2 patchStatus_single give_def)
qed

lemma pause_phase_2:
  assumes "in_use e l" "paused (ls_spec l)" "ph (ls_status l) \<noteq> Paused" "snapshotName (ls_status l) = n" "n \<noteq> []"
    "cfaults c = []" "snapshots c n = Some s" "snap_ready s"
  shows "rec_session (kubevirt cfg) e l (single l c) =
    (Inr No_requeue, single (upd_status (\<lambda>s. s\<lparr>ph := Paused\<rparr>) l)
                       (c\<lparr>volumes := (volumes c)(resourceName l := None)\<rparr>))"
proof -
  let ?c = "c\<lparr>volumes := (volumes c)(resourceName l := None)\<rparr>"
  have 1: "on_vms (pr_snapshot_ready (kubevirt cfg) n) (single l c) = (Inr True, single l c)"
    by (rule on_vms_single) (simp add: kubevirt_def SnapshotReady_def assms)
  have 2: "on_vms (pr_teardown_disk (kubevirt cfg) l) (single l c) = (Inr (), single l ?c)"
    by (rule on_vms_single) (simp add: kubevirt_def teardown_ok assms)
  have rs: "rec_session (kubevirt cfg) e l = rec_pause (kubevirt cfg) l"
    using assms(1-3) by (simp add: rec_session_def in_use_def)
  show ?thesis
    unfolding rs using assms(1,4,5) 1 by (simp add: rec_pause_def recovering_def andthen_def 2 patchStatus_single give_def)
qed

lemma resume_call:
  assumes "in_use e l" "\<not> paused (ls_spec l)" "ph (ls_status l) = Paused"
  shows "rec_session P e l (single l p) =
    (Inr (Requeue_after 1), single (upd_status (\<lambda>s. s\<lparr>ph := Provisioning\<rparr>) l) p)"
  using assms by (simp add: rec_session_def in_use_def rec_resume_def gone_def andthen_def
      patchStatus_single give_def)

end
