(* ===== verification/Platform.thy ===== *)
theory Platform
  imports Reconciler
begin

text \<open>
  The platform around one session: the requests of its user, the reconciler, and the cluster
  in which its VM lives, in any order and with any failures. The question is what happens
  to the work done in the VM when the session is paused and resumed.
\<close>

section \<open>The machine\<close>

text \<open>\<open>pl_work\<close> remembers for every volume what a running VM last wrote to it.\<close>

record 'd platform =
  pl_world :: "'d cluster world"
  pl_work :: "string \<rightharpoonup> 'd"

datatype 'd pl_event =
    Pl_reconcile env
  | Pl_cluster "'d vm_event"
  | Pl_pause
  | Pl_resume
  | Pl_mark string int
  | Pl_faults "bool list" "bool list"

definition works :: "'d cluster \<Rightarrow> string \<Rightarrow> bool" where
  "works c n =
     (case (vmis c n, volumes c n) of (Some v, Some _) \<Rightarrow> vmi_status v = Vmi_running | _ \<Rightarrow> False)"

definition work_after :: "'d cluster \<Rightarrow> 'd vm_event \<Rightarrow> (string \<rightharpoonup> 'd) \<Rightarrow> (string \<rightharpoonup> 'd)" where
  "work_after c ev m =
     (case ev of Work n d \<Rightarrow> (if works c n then m(n \<mapsto> d) else m) | _ \<Rightarrow> m)"

definition pl_step :: "config \<Rightarrow> string \<Rightarrow> 'd platform \<Rightarrow> 'd pl_event \<Rightarrow> 'd platform" where
  "pl_step cfg n p ev =
     (let w = pl_world p in
      case ev of
        Pl_reconcile e \<Rightarrow> p\<lparr>pl_world := snd (reconcile (kubevirt cfg) e n w)\<rparr>
      | Pl_cluster v \<Rightarrow>
          p\<lparr>pl_world := w\<lparr>vms := vm_step (vms w) v\<rparr>, pl_work := work_after (vms w) v (pl_work p)\<rparr>
      | Pl_pause \<Rightarrow> p\<lparr>pl_world := w\<lparr>kube := snd (Pause n (kube w))\<rparr>\<rparr>
      | Pl_resume \<Rightarrow> p\<lparr>pl_world := w\<lparr>kube := snd (Resume n (kube w))\<rparr>\<rparr>
      | Pl_mark st t \<Rightarrow> p\<lparr>pl_world := w\<lparr>kube := snd (MarkStepComplete n st t (kube w))\<rparr>\<rparr>
      | Pl_faults fs gs \<Rightarrow>
          p\<lparr>pl_world := w\<lparr>kube := (kube w)\<lparr>faults := fs\<rparr>, vms := (vms w)\<lparr>cfaults := gs\<rparr>\<rparr>\<rparr>)"

text \<open>
  The time of the session is not over; it is paused only while its status names no snapshot
  (or it is paused already), and resumed only once its phase is Paused.
\<close>

definition pl_guard :: "'d platform \<Rightarrow> 'd pl_event \<Rightarrow> bool" where
  "pl_guard p ev =
     (case ev of
        Pl_reconcile e \<Rightarrow> list_all (\<lambda>l. \<not> is_expired e l) (crs (kube (pl_world p)))
      | Pl_pause \<Rightarrow>
          list_all (\<lambda>l. snapshotName (ls_status l) = [] \<or> ph (ls_status l) = Paused) (crs (kube (pl_world p)))
      | Pl_resume \<Rightarrow> list_all (\<lambda>l. ph (ls_status l) = Paused) (crs (kube (pl_world p)))
      | _ \<Rightarrow> True)"

section \<open>Where the work is\<close>

definition content_of :: "'d volume option \<Rightarrow> 'd option" where
  "content_of V = (case V of None \<Rightarrow> None | Some v \<Rightarrow> vol_content v)"

definition saved_in :: "'d snapshot option \<Rightarrow> 'd option \<Rightarrow> bool" where
  "saved_in S x \<longleftrightarrow> x = None \<or> (\<exists>s. S = Some s \<and> snap_content s = x)"

definition usable_in :: "'d snapshot option \<Rightarrow> 'd option \<Rightarrow> bool" where
  "usable_in S x \<longleftrightarrow> x = None \<or> (\<exists>s. S = Some s \<and> snap_content s = x \<and> snap_ready s)"

definition live :: "'d volume option \<Rightarrow> 'd option \<Rightarrow> bool" where
  "live V x \<longleftrightarrow> x = None \<or> content_of V = x"

text \<open>
  The invariant, over: the session is to pause; its phase is Paused; the snapshot its status
  names and the one it should name; the work; the volume, the snapshot and the VM.
\<close>

definition safe_view ::
  "bool \<Rightarrow> bool \<Rightarrow> string \<Rightarrow> string \<Rightarrow> 'd option \<Rightarrow> 'd volume option \<Rightarrow> 'd snapshot option \<Rightarrow> vmi option \<Rightarrow> bool" where
  "safe_view pz isP N sn x V S X \<longleftrightarrow>
     (content_of V = None \<longrightarrow> (case X of None \<Rightarrow> True | Some v \<Rightarrow> vmi_status v \<noteq> Vmi_running)) \<and>
     (if N = []
      then \<not> isP \<and> live V x \<and>
           (S = None \<or> pz \<and> X = None \<and> saved_in S x)
      else N = sn \<and>
        (if pz \<or> isP
         then X = None \<and> (V = None \<and> usable_in S x \<or> pz \<and> \<not> isP \<and> V \<noteq> None \<and> live V x \<and> saved_in S x)
         else live V x \<or>
              content_of V = None \<and> (\<forall>v. V = Some v \<longrightarrow> vol_source v = From_snapshot sn) \<and> usable_in S x))"

definition safe :: "lab_session \<Rightarrow> 'd option \<Rightarrow> 'd cluster \<Rightarrow> bool" where
  "safe l x c \<longleftrightarrow>
     safe_view (paused (ls_spec l)) (ph (ls_status l) = Paused) (snapshotName (ls_status l)) (snapshot_name l) x
       (volumes c (resourceName l)) (snapshots c (snapshot_name l)) (vmis c (resourceName l))"

definition good :: "string \<Rightarrow> string \<Rightarrow> 'd option \<Rightarrow> 'd cluster world \<Rightarrow> bool" where
  "good n r x w \<longleftrightarrow>
     (\<exists>l. crs (kube w) = [l] \<and> ls_name l = n \<and> resourceName l = r \<and> \<not> ls_deleting l \<and> safe l x (vms w))"

section \<open>The calls of the reconciler\<close>

lemma safe_call [simp]: "safe l x (snd (cluster_call c)) = safe l x c"
  by (simp add: safe_def)

lemma triple_attempt:
  assumes "\<And>c. P c \<Longrightarrow> P (snd (cluster_call c))" "\<And>c. P c \<Longrightarrow> E c" "triple P f Q E"
  shows "triple P (attempt e f) Q E"
proof -
  have "case attempt e f c of (Inl _, t) \<Rightarrow> E t | (Inr a, t) \<Rightarrow> Q a t" if "P c" for c
  proof -
    obtain b c1 where c: "cluster_call c = (b, c1)" by (cases "cluster_call c")
    then have "P c1" using assms(1) [OF that] by simp
    then show ?thesis
      using c assms(2,3) by (cases b) (simp_all add: attempt_def triple_def)
  qed
  then show ?thesis by (simp add: triple_def)
qed

lemma triple_on_vms:
  assumes "triple P m Q E"
  shows "triple (\<lambda>w. crs (kube w) = ls \<and> P (vms w)) (on_vms m)
    (\<lambda>a w. crs (kube w) = ls \<and> Q a (vms w)) (\<lambda>w. crs (kube w) = ls \<and> E (vms w))"
  using assms unfolding triple_def on_vms_def by (fastforce split: prod.splits sum.splits)

lemma triple_patchStatus:
  assumes "ls_name l' = ls_name l" "\<not> ls_deleting l'"
  shows "triple (\<lambda>w. crs (kube w) = [l'] \<and> Q (vms w)) (patchStatus l f)
    (\<lambda>_ w. crs (kube w) = [upd_status f l'] \<and> Q (vms w)) (\<lambda>w. crs (kube w) = [l'] \<and> Q (vms w))"
  using assms unfolding triple_def patchStatus_def on_kube_def cr_patch_def
  by (auto simp: api_call_crs gone_def upd_status_def split: prod.splits sum.splits if_splits)
lemma view_no_vm: "safe_view pz isP N sn x V S X \<Longrightarrow> safe_view pz isP N sn x V S None"
  by (auto simp: safe_view_def)

lemma view_snap:
  "safe_view True isP [] sn x V S None \<Longrightarrow>
   safe_view True isP [] sn x V (if S \<noteq> None then S else Some \<lparr>snap_content = content_of V, snap_ready = False\<rparr>) None"
  by (auto simp: safe_view_def saved_in_def live_def)

lemma view_disk:
  "safe_view True isP N sn x V (Some s) X \<Longrightarrow> N \<noteq> [] \<Longrightarrow> snap_ready s \<Longrightarrow>
   safe_view True isP N sn x None (Some s) X"
  by (auto simp: safe_view_def usable_in_def saved_in_def content_of_def split: if_splits)

text \<open>Stopping the VM, and taking a snapshot of a stopped one.\<close>

lemma attempt_state:
  "snd (attempt e f c) = snd (cluster_call c) \<or> snd (attempt e f c) = snd (f (snd (cluster_call c)))"
  by (simp add: attempt_def split: prod.split)

lemma TeardownCompute_safe:
  "triple (safe l x) (TeardownCompute l) (\<lambda>_ c. safe l x c \<and> vmis c (resourceName l) = None) (safe l x)"
proof (unfold TeardownCompute_def, rule triple_andthen)
  let ?P = "\<lambda>c. safe l x c \<and> vmis c (resourceName l) = None"
  show "triple (safe l x) (delete_vmi (resourceName l)) (\<lambda>_. ?P) (safe l x)"
    unfolding delete_vmi_def
    by (rule triple_attempt) (simp_all add: triple_def, simp add: safe_def view_no_vm)
  have "triple ?P (delete_netpol n) (\<lambda>_. ?P) (safe l x)" "triple ?P (delete_service n) (\<lambda>_. ?P) (safe l x)" for n
    unfolding delete_netpol_def delete_service_def
    by (rule triple_attempt; auto simp: triple_def safe_def)+
  then show "triple ?P (andthen (delete_netpol (resourceName l)) (\<lambda>_. delete_service (resourceName l))) (\<lambda>_. ?P) (safe l x)"
    by (rule triple_andthen)
qed

definition snapped :: "lab_session \<Rightarrow> 'd option \<Rightarrow> 'd cluster \<Rightarrow> bool" where
  "snapped l x c \<longleftrightarrow> safe l x c \<and> vmis c (resourceName l) = None \<and>
     saved_in (snapshots c (snapshot_name l)) x"

lemma Snapshot_safe:
  assumes "snapshotName (ls_status l) = []" "paused (ls_spec l)"
  shows "triple (\<lambda>c. safe l x c \<and> vmis c (resourceName l) = None) (Snapshot l)
    (\<lambda>n c. n = snapshot_name l \<and> snapped l x c) (safe l x)"
proof -
  let ?V = "\<lambda>c. volumes c (resourceName l)" and ?n = "snapshot_name l"
  let ?c = "\<lambda>c. if snapshots c ?n \<noteq> None then c
      else c\<lparr>snapshots := (snapshots c)(?n \<mapsto> \<lparr>snap_content = content_of (?V c), snap_ready = False\<rparr>)\<rparr>"
  have "snapped l x (?c c)" if "safe l x c" "vmis c (resourceName l) = None" for c
  proof -
    have "safe l x (?c c)"
      using view_snap [of "ph (ls_status l) = Paused" ?n x "?V c" "snapshots c ?n"] that assms
      by (cases "snapshots c ?n") (simp_all add: safe_def)
    moreover have "saved_in (snapshots (?c c) ?n) x"
      using that assms by (auto simp: safe_def safe_view_def saved_in_def live_def)
    ultimately show ?thesis using that by (cases "snapshots c ?n = None") (auto simp: snapped_def)
  qed
  then show ?thesis
    unfolding Snapshot_def content_of_def by (intro triple_attempt) (simp_all add: triple_def)
qed

lemma snapped_named:
  assumes "snapped l x c" "paused (ls_spec l)" "snapshotName (ls_status l) = []"
  shows "safe (upd_status (\<lambda>s. s\<lparr>snapshotName := snapshot_name l, serviceDNS := []\<rparr>) l) x c"
  using assms
  by (auto simp: snapped_def safe_def safe_view_def snapshot_name_def live_def saved_in_def usable_in_def content_of_def
      split: option.splits)

lemma SnapshotReady_safe:
  "triple (safe l x) (SnapshotReady n)
     (\<lambda>b c. safe l x c \<and> (b \<longrightarrow> (\<exists>s. snapshots c n = Some s \<and> snap_ready s))) (safe l x)"
  unfolding SnapshotReady_def
  by (rule triple_attempt) (auto simp: triple_def split: option.split)

lemma TeardownDisk_safe:
  assumes "snapshotName (ls_status l) \<noteq> []" "paused (ls_spec l)"
  shows "triple (\<lambda>c. safe l x c \<and> (\<exists>s. snapshots c (snapshotName (ls_status l)) = Some s \<and> snap_ready s))
    (TeardownDisk l)
    (\<lambda>_ c. safe l x c \<and> volumes c (resourceName l) = None) (safe l x)"
  unfolding TeardownDisk_def delete_volume_def
proof (rule triple_attempt)
  have n: "safe l x c \<Longrightarrow> snapshotName (ls_status l) = snapshot_name l" for c :: "'a cluster"
    using assms by (simp add: safe_def safe_view_def split: if_splits)
  show "triple (\<lambda>c. safe l x c \<and> (\<exists>s. snapshots c (snapshotName (ls_status l)) = Some s \<and> snap_ready s))
    (\<lambda>c. (Inr (), c\<lparr>volumes := (volumes c)(resourceName l := None)\<rparr>))
    (\<lambda>_ c. safe l x c \<and> volumes c (resourceName l) = None) (safe l x)"
  proof (rule tripleI)
    fix c assume c: "safe l x c \<and> (\<exists>s. snapshots c (snapshotName (ls_status l)) = Some s \<and> snap_ready s)"
    then obtain s where "snapshots c (snapshot_name l) = Some s" "snap_ready s" using n [of c] by auto
    then have "safe l x (c\<lparr>volumes := (volumes c)(resourceName l := None)\<rparr>)"
      using c assms view_disk [of _ _ _ x _ s] by (auto simp: safe_def)
    then show "(\<exists>a t. (Inr (), c\<lparr>volumes := (volumes c)(resourceName l := None)\<rparr>) = (Inr a, t) \<and>
        safe l x t \<and> volumes t (resourceName l) = None) \<or>
      (\<exists>e t. (Inr (), c\<lparr>volumes := (volumes c)(resourceName l := None)\<rparr>) = (Inl e, t) \<and> safe l x t)"
      by simp
  qed
qed simp_all

lemma disk_gone_paused:
  assumes "safe l x c" "volumes c (resourceName l) = None" "paused (ls_spec l)" "snapshotName (ls_status l) \<noteq> []"
  shows "safe (upd_status (\<lambda>s. s\<lparr>ph := Paused\<rparr>) l) x c"
  using assms by (auto simp: safe_def safe_view_def snapshot_name_def)
section \<open>Convergence\<close>

definition converging :: "lab_session \<Rightarrow> bool" where
  "converging l \<longleftrightarrow> \<not> paused (ls_spec l) \<and> ph (ls_status l) \<noteq> Paused"

lemma view_volume:
  "safe_view False False N sn x None S X \<Longrightarrow> vol_content v = None \<Longrightarrow>
   vol_source v = (if N \<noteq> [] then From_snapshot N else From_golden g) \<Longrightarrow>
   safe_view False False N sn x (Some v) S X"
  by (auto simp: safe_view_def live_def content_of_def split: if_splits)

lemma view_vmi:
  "safe_view False False N sn x V S X \<Longrightarrow> vmi_status v \<noteq> Vmi_running \<Longrightarrow>
   safe_view False False N sn x V S (Some v)"
  by (auto simp: safe_view_def)

lemma view_snapshot_done:
  "safe_view False False N sn x V S X \<Longrightarrow> content_of V \<noteq> None \<Longrightarrow>
   safe_view False False N sn x V None X"
  by (auto simp: safe_view_def)

lemma view_unnamed:
  "safe_view False False N sn x V None X \<Longrightarrow> content_of V \<noteq> None \<Longrightarrow>
   safe_view False False [] sn x V None X"
  by (auto simp: safe_view_def split: if_splits)

lemma volume_safe:
  assumes "converging l"
  shows "triple (safe l x) (ensureDataVolume cfg l (resourceName l) g) (\<lambda>_. safe l x) (safe l x)"
  unfolding ensureDataVolume_def using assms
  by (intro triple_if triple_fail triple_attempt)
    (auto simp: triple_def safe_def converging_def volume_source_def split: option.split intro: view_volume)

lemma secret_safe: "triple (safe l x) (ensureUserDataSecret l n u) (\<lambda>_. safe l x) (safe l x)"
  unfolding ensureUserDataSecret_def
  by (rule triple_attempt) (auto simp: triple_def safe_def)

lemma vmi_safe:
  assumes "converging l"
  shows "triple (safe l x) (ensureVMI cfg l (resourceName l) sp) (\<lambda>_. safe l x) (safe l x)"
  unfolding ensureVMI_def using assms
  by (intro triple_if triple_fail triple_attempt)
    (auto simp: triple_def safe_def converging_def split: option.split intro: view_vmi)

lemma service_safe: "triple (safe l x) (ensureService l n) (\<lambda>_. safe l x) (safe l x)"
  unfolding ensureService_def
  by (rule triple_attempt) (auto simp: triple_def safe_def)

lemma netpol_safe: "triple (safe l x) (ensureNetworkPolicy cfg l n) (\<lambda>_. safe l x) (safe l x)"
  unfolding ensureNetworkPolicy_def
  by (rule triple_attempt) (auto simp: triple_def safe_def)

text \<open>A result that says the VM runs comes with a disk that has its content.\<close>

definition result_ok :: "lab_session \<Rightarrow> 'd option \<Rightarrow> result \<Rightarrow> 'd cluster \<Rightarrow> bool" where
  "result_ok l x r c \<longleftrightarrow> safe l x c \<and> r_phase r \<in> {Provisioning, Running, Failed} \<and>
     (r_phase r = Running \<longrightarrow> content_of (volumes c (resourceName l)) \<noteq> None)"

lemma vmi_result_safe: "triple (safe l x) (vmi_result cfg (resourceName l)) (result_ok l x) (safe l x)"
  unfolding vmi_result_def
  by (rule triple_attempt)
    (auto simp: triple_def result_ok_def safe_def safe_view_def provisioning_def failed_def
      split: option.split vmi_phase.split)

lemma Reconcile_safe:
  assumes "converging l"
  shows "triple (safe l x) (Reconcile cfg l) (result_ok l x) (safe l x)"
proof -
  have f: "triple (safe l x) (give (failed m)) (result_ok l x) (safe l x)" for m
    by (rule triple_give) (simp add: result_ok_def failed_def)
  show ?thesis
    unfolding Reconcile_def Let_def
    by (auto split: sum.split option.split
        intro!: f triple_andthen [OF volume_safe [OF assms]] triple_andthen [OF secret_safe]
          triple_andthen [OF vmi_safe [OF assms]] triple_andthen [OF service_safe]
          triple_andthen [OF netpol_safe] vmi_result_safe)
qed

lemma DeleteSnapshot_safe:
  assumes "converging l" "snapshotName (ls_status l) = sn"
  shows "triple (\<lambda>c. safe l x c \<and> content_of (volumes c (resourceName l)) \<noteq> None) (DeleteSnapshot sn)
    (\<lambda>_ c. safe l x c \<and> content_of (volumes c (resourceName l)) \<noteq> None \<and> snapshots c sn = None) (safe l x)"
  unfolding DeleteSnapshot_def using assms
  by (intro triple_attempt)
    (auto simp: triple_def safe_def converging_def dest: view_snapshot_done)
section \<open>The reconciler keeps the work\<close>

abbreviation at :: "lab_session \<Rightarrow> ('d cluster \<Rightarrow> bool) \<Rightarrow> 'd cluster world \<Rightarrow> bool" where
  "at l P w \<equiv> crs (kube w) = [l] \<and> P (vms w)"

lemma goodI:
  "at l (safe l x) w \<Longrightarrow> ls_name l = n \<Longrightarrow> resourceName l = r \<Longrightarrow> \<not> ls_deleting l \<Longrightarrow> good n r x w"
  by (auto simp: good_def)

lemma upd_deleting [simp]: "ls_deleting (upd_status f l) = ls_deleting l"
  by (simp add: upd_status_def)

lemma upd_snapshot_name [simp]: "snapshot_name (upd_status f l) = snapshot_name l"
  by (simp add: snapshot_name_def)

lemma safe_upd:
  "(ph (f (ls_status l)) = Paused) = (ph (ls_status l) = Paused) \<Longrightarrow>
   snapshotName (f (ls_status l)) = snapshotName (ls_status l) \<Longrightarrow> safe (upd_status f l) x c = safe l x c"
  by (simp add: safe_def)

text \<open>The last patch of a call, from a state in which the patched session is safe.\<close>

lemma last_patch:
  assumes "ls_name l' = n" "resourceName l' = r" "\<not> ls_deleting l'" "ls_name l = n"
    "\<And>c. P c \<Longrightarrow> safe l' x c" "\<And>c. P c \<Longrightarrow> safe (upd_status f l') x c"
  shows "triple (at l' P) (andthen (patchStatus l f) (\<lambda>_. give q)) (\<lambda>_. good n r x) (good n r x)"
proof (rule triple_andthen)
  show "triple (at l' P) (patchStatus l f) (\<lambda>_. at (upd_status f l') P) (good n r x)"
    using assms by (intro triple_weaken [OF triple_patchStatus [of l' l P f]]) (auto intro: goodI)
  show "triple (at (upd_status f l') P) (give q) (\<lambda>_. good n r x) (good n r x)"
    using assms by (intro triple_give) (auto intro: goodI)
qed

lemma pause_good:
  assumes "ls_name l = n" "resourceName l = r" "\<not> ls_deleting l" "paused (ls_spec l)" "ph (ls_status l) \<noteq> Paused"
  shows "triple (at l (safe l x)) (rec_pause (kubevirt cfg) l) (\<lambda>_. good n r x) (good n r x)"
proof (cases "snapshotName (ls_status l) = []")
  case True
  have 1: "triple (at l (safe l x)) (on_vms (TeardownCompute l))
      (\<lambda>_. at l (\<lambda>c. safe l x c \<and> vmis c (resourceName l) = None)) (good n r x)"
    using assms by (intro triple_weaken [OF triple_on_vms [OF TeardownCompute_safe [of l x]]]) (auto intro: goodI)
  have 2: "triple (at l (\<lambda>c. safe l x c \<and> vmis c (resourceName l) = None)) (on_vms (Snapshot l))
      (\<lambda>s. at l (\<lambda>c. s = snapshot_name l \<and> snapped l x c)) (good n r x)"
    using assms True by (intro triple_weaken [OF triple_on_vms [OF Snapshot_safe [of l x]]]) (auto intro: goodI)
  have 3: "triple (at l (\<lambda>c. s = snapshot_name l \<and> snapped l x c))
      (andthen (patchStatus l (\<lambda>st. st\<lparr>snapshotName := s, serviceDNS := []\<rparr>)) (\<lambda>_. give (Requeue_after 5)))
      (\<lambda>_. good n r x) (good n r x)" for s
    using assms True by (intro last_patch) (auto simp: snapped_def intro: snapped_named)
  show ?thesis
    unfolding rec_pause_def if_P [OF True]
    by (simp add: kubevirt_def) (rule triple_andthen [OF 1 triple_andthen [OF 2 3]])
next
  case False
  let ?N = "snapshotName (ls_status l)"
  have 1: "triple (at l (safe l x)) (on_vms (SnapshotReady ?N))
      (\<lambda>b. at l (\<lambda>c. safe l x c \<and> (b \<longrightarrow> (\<exists>s. snapshots c ?N = Some s \<and> snap_ready s)))) (good n r x)"
    using assms by (intro triple_weaken [OF triple_on_vms [OF SnapshotReady_safe [of l x]]]) (auto intro: goodI)
  have 2: "triple (at l (\<lambda>c. safe l x c \<and> (\<exists>s. snapshots c ?N = Some s \<and> snap_ready s))) (on_vms (TeardownDisk l))
      (\<lambda>_. at l (\<lambda>c. safe l x c \<and> volumes c (resourceName l) = None)) (good n r x)"
    using assms False by (intro triple_weaken [OF triple_on_vms [OF TeardownDisk_safe [of l x]]]) (auto intro: goodI)
  have 3: "triple (at l (\<lambda>c. safe l x c \<and> volumes c (resourceName l) = None))
      (andthen (patchStatus l (\<lambda>s. s\<lparr>ph := Paused\<rparr>)) (\<lambda>_. give No_requeue)) (\<lambda>_. good n r x) (good n r x)"
    using assms False by (intro last_patch) (auto intro: disk_gone_paused)
  have 4: "triple (at l (\<lambda>c. safe l x c \<and> (b \<longrightarrow> (\<exists>s. snapshots c ?N = Some s \<and> snap_ready s))))
      (if \<not> b then give (Requeue_after 5)
       else andthen (on_vms (TeardownDisk l)) (\<lambda>_.
            andthen (patchStatus l (\<lambda>s. s\<lparr>ph := Paused\<rparr>)) (\<lambda>_. give No_requeue)))
      (\<lambda>_. good n r x) (good n r x)" for b
  proof (cases b)
    case True
    then show ?thesis using triple_andthen [OF 2 3] by simp
  next
    case False
    then show ?thesis using assms by (simp, intro triple_give) (auto intro: goodI)
  qed
  show ?thesis
    unfolding rec_pause_def if_not_P [OF False]
    by (simp only: kubevirt_def provider.simps)
      (rule triple_recovering [where Q = "\<lambda>_. good n r x", OF 1], rule 4)
qed
lemma view_resumed: "safe_view False True N sn x V S X \<Longrightarrow> safe_view False False N sn x V S X"
  by (auto simp: safe_view_def content_of_def split: if_splits)

lemma resume_good:
  assumes "ls_name l = n" "resourceName l = r" "\<not> ls_deleting l" "\<not> paused (ls_spec l)" "ph (ls_status l) = Paused"
  shows "triple (at l (safe l x)) (rec_resume l) (\<lambda>_. good n r x) (good n r x)"
  unfolding rec_resume_def using assms
  by (intro last_patch) (auto simp: safe_def intro: view_resumed)

lemma add_finalizer_good:
  assumes "ls_name l = n" "resourceName l = r" "\<not> ls_deleting l"
  shows "triple (at l (safe l x)) (rec_add_finalizer l) (\<lambda>_. good n r x) (good n r x)"
proof -
  let ?fs = "ls_finalizers l @ [finalizer]"
  have "triple (at l (safe l x)) (update_finalizers l ?fs) (\<lambda>_. good n r x) (good n r x)"
    using assms unfolding triple_def update_finalizers_def on_kube_def cr_patch_def
    by (auto simp: api_call_crs gone_def good_def safe_def resourceName_def snapshot_name_def
        split: prod.splits sum.splits if_splits)
  then show ?thesis
    unfolding rec_add_finalizer_def by (rule triple_andthen) (rule triple_give)
qed

text \<open>Convergence: \<open>l\<close> is what the call read, \<open>l'\<close> what the first patch made of it.\<close>

definition observed :: "lab_session \<Rightarrow> phase \<Rightarrow> lab_session \<Rightarrow> bool" where
  "observed l p l' \<longleftrightarrow> ls_name l' = ls_name l \<and> resourceName l' = resourceName l \<and> \<not> ls_deleting l' \<and>
     converging l' \<and> snapshotName (ls_status l') = snapshotName (ls_status l)"

lemma clean_good:
  assumes "ls_name l = n" "resourceName l = r" "observed l p l'"
  shows "triple (at l' (\<lambda>c. safe l' x c \<and> (p \<in> {Running, Ready} \<longrightarrow> content_of (volumes c (resourceName l')) \<noteq> None)))
    (clean_snapshot (kubevirt cfg) l p) (\<lambda>_. good n r x) (good n r x)"
proof (cases "snapshotName (ls_status l) = [] \<or> (p \<noteq> Running \<and> p \<noteq> Ready)")
  case True
  then show ?thesis
    unfolding clean_snapshot_def if_P [OF True] using assms
    by (intro triple_give) (auto simp: observed_def intro: goodI)
next
  case False
  let ?N = "snapshotName (ls_status l)" and ?P = "\<lambda>c. safe l' x c \<and> content_of (volumes c (resourceName l')) \<noteq> None"
  let ?Q = "\<lambda>c. safe l' x c \<and> content_of (volumes c (resourceName l')) \<noteq> None \<and> snapshots c ?N = None"
  have o: "converging l'" "snapshotName (ls_status l') = ?N" "ls_name l' = n" "resourceName l' = r" "\<not> ls_deleting l'"
    using assms by (simp_all add: observed_def)
  have 1: "triple (at l' ?P) (on_vms (DeleteSnapshot ?N)) (\<lambda>_. at l' ?Q) (good n r x)"
    using o by (intro triple_weaken [OF triple_on_vms [OF DeleteSnapshot_safe [OF o(1,2), of x]]]) (auto intro: goodI)
  have 2: "safe (upd_status (\<lambda>s. s\<lparr>snapshotName := []\<rparr>) l') x c" if "?Q c" for c
  proof -
    have "snapshot_name l' = ?N" using that False o(2) by (simp add: safe_def safe_view_def)
    then show ?thesis using that o(1,2) view_unnamed by (fastforce simp: safe_def converging_def)
  qed
  have 3: "triple (at l' ?Q) (andthen (patchStatus l (\<lambda>s. s\<lparr>snapshotName := []\<rparr>)) (\<lambda>_. give False))
      (\<lambda>_. good n r x) (good n r x)"
    using o assms(1) 2 by (intro last_patch) auto
  have "triple (at l' ?P) (clean_snapshot (kubevirt cfg) l p) (\<lambda>_. good n r x) (good n r x)"
    unfolding clean_snapshot_def if_not_P [OF False]
    by (simp only: kubevirt_def provider.simps)
      (rule triple_recovering [where Q = "\<lambda>_. good n r x", OF 1], rule 3)
  then show ?thesis by (rule triple_weaken) (use False in auto)
qed
lemma observe_good:
  assumes "ls_name l = n" "resourceName l = r" "\<not> ls_deleting l" "converging l"
    "p \<noteq> Paused" "p \<in> {Running, Ready} \<Longrightarrow> r_phase res = Running"
  obtains l' where "observed l p l'"
    "triple (at l (result_ok l x res)) (patch_observed l p res)
       (\<lambda>_. at l' (\<lambda>c. safe l' x c \<and> (p \<in> {Running, Ready} \<longrightarrow> content_of (volumes c (resourceName l')) \<noteq> None)))
       (good n r x)"
proof (cases "ph (ls_status l) \<noteq> p \<or> serviceDNS (ls_status l) \<noteq> r_serviceDNS res \<or> message (ls_status l) \<noteq> r_message res")
  case True
  let ?f = "\<lambda>s. s\<lparr>ph := p, serviceDNS := r_serviceDNS res, message := r_message res\<rparr>"
  have o: "observed l p (upd_status ?f l)"
    using assms by (simp add: observed_def converging_def)
  have s: "safe (upd_status ?f l) x c = safe l x c" for c
    using assms(4,5) by (intro safe_upd) (simp_all add: converging_def)
  have "triple (at l (result_ok l x res)) (patchStatus l ?f) (\<lambda>_. at (upd_status ?f l) (result_ok l x res)) (good n r x)"
    using assms by (intro triple_weaken [OF triple_patchStatus [of l l "result_ok l x res" ?f]])
      (auto simp: result_ok_def intro: goodI)
  then have "triple (at l (result_ok l x res)) (patch_observed l p res)
      (\<lambda>_. at (upd_status ?f l) (result_ok l x res)) (good n r x)"
    unfolding patch_observed_def if_P [OF True] by (rule triple_andthen) (rule triple_give)
  from this have "triple (at l (result_ok l x res)) (patch_observed l p res)
      (\<lambda>_. at (upd_status ?f l) (\<lambda>c. safe (upd_status ?f l) x c \<and> (p \<in> {Running, Ready} \<longrightarrow>
         content_of (volumes c (resourceName (upd_status ?f l))) \<noteq> None))) (good n r x)"
    by (rule triple_weaken) (use assms(6) s in \<open>auto simp: result_ok_def\<close>)
  then show ?thesis by (rule that [OF o])
next
  case False
  have o: "observed l p l" using assms by (simp add: observed_def)
  have "triple (at l (result_ok l x res)) (patch_observed l p res)
      (\<lambda>_. at l (\<lambda>c. safe l x c \<and> (p \<in> {Running, Ready} \<longrightarrow>
         content_of (volumes c (resourceName l)) \<noteq> None))) (good n r x)"
    unfolding patch_observed_def if_not_P [OF False]
    by (rule triple_give) (use assms(6) in \<open>auto simp: result_ok_def\<close>)
  then show ?thesis by (rule that [OF o])
qed

lemma converge_good:
  assumes "ls_name l = n" "resourceName l = r" "\<not> ls_deleting l" "converging l"
  shows "triple (at l (safe l x)) (rec_converge (kubevirt cfg) e l) (\<lambda>_. good n r x) (good n r x)"
proof -
  have 1: "triple (at l (safe l x)) (on_vms (Reconcile cfg l)) (\<lambda>res. at l (result_ok l x res)) (good n r x)"
    using assms by (intro triple_weaken [OF triple_on_vms [OF Reconcile_safe [of l x]]]) (auto intro: goodI)
  have 2: "triple (at l (result_ok l x res))
      (andthen (patch_observed l (ready_phase e res) res) (\<lambda>_.
       andthen (clean_snapshot (kubevirt cfg) l (ready_phase e res)) (\<lambda>pending. give (q pending))))
      (\<lambda>_. good n r x) (good n r x)" (is "triple ?P ?m _ _") for res and q :: "bool \<Rightarrow> requeue"
  proof (cases "r_phase res \<in> {Provisioning, Running, Failed}")
    case True
    then have p: "ready_phase e res \<noteq> Paused" "ready_phase e res \<in> {Running, Ready} \<Longrightarrow> r_phase res = Running"
      by (auto simp: ready_phase_def split: if_splits)
    obtain l' where o: "observed l (ready_phase e res) l'"
      and t: "triple ?P (patch_observed l (ready_phase e res) res)
       (\<lambda>_. at l' (\<lambda>c. safe l' x c \<and> (ready_phase e res \<in> {Running, Ready} \<longrightarrow>
          content_of (volumes c (resourceName l')) \<noteq> None))) (good n r x)"
      using observe_good [OF assms p, of x] by blast
    show ?thesis
      by (rule triple_andthen [OF t triple_andthen [OF clean_good [OF assms(1,2) o] triple_give]])
  next
    case False
    then show ?thesis by (auto simp: triple_def result_ok_def)
  qed
  show ?thesis
    unfolding rec_converge_def
    by (simp only: kubevirt_def provider.simps) (rule triple_andthen [OF 1], use 2 in \<open>simp only: kubevirt_def\<close>)
qed

lemma session_good:
  assumes "ls_name l = n" "resourceName l = r" "\<not> ls_deleting l" "\<not> is_expired e l"
  shows "triple (at l (safe l x)) (rec_session (kubevirt cfg) e l) (\<lambda>_. good n r x) (good n r x)"
  unfolding rec_session_def using assms
  by (auto simp: converging_def intro!: add_finalizer_good pause_good resume_good converge_good triple_give goodI)

lemma reconcile_good:
  assumes "good n r x w" "list_all (\<lambda>l. \<not> is_expired e l) (crs (kube w))"
  shows "good n r x (snd (reconcile (kubevirt cfg) e n w))"
proof -
  obtain l where l: "crs (kube w) = [l]" "ls_name l = n" "resourceName l = r" "\<not> ls_deleting l" "safe l x (vms w)"
    using assms(1) by (auto simp: good_def)
  have f: "find (\<lambda>x. ls_name x = n) (crs (kube w)) = Some l" using l by simp
  show ?thesis
  proof (cases rule: reconcile_found [OF f, of "kubevirt cfg" e])
    case (1 e' k)
    then show ?thesis using assms(1) by (simp add: good_def)
  next
    case (2 k)
    then have "at l (safe l x) (w\<lparr>kube := k\<rparr>)" using l by simp
    from triple_state [OF session_good [OF l(2-4), of e x cfg] this] show ?thesis
      using 2 l(1) assms(2) by simp
  qed
qed
section \<open>The other events\<close>

lemma patch_good:
  assumes "good n r x w" "\<And>l. resourceName (f l) = resourceName l" "\<And>l. ls_name (f l) = ls_name l"
    "\<And>l. ls_deleting (f l) = ls_deleting l"
    "\<And>l c. crs (kube w) = [l] \<Longrightarrow> safe l x c \<Longrightarrow> safe (f l) x c"
  shows "good n r x (w\<lparr>kube := snd (cr_patch m f (kube w))\<rparr>)"
proof -
  obtain l where l: "crs (kube w) = [l]" "ls_name l = n" "resourceName l = r" "\<not> ls_deleting l" "safe l x (vms w)"
    using assms(1) by (auto simp: good_def)
  consider "crs (snd (cr_patch m f (kube w))) = [l]" | "crs (snd (cr_patch m f (kube w))) = [f l]"
    using crs_patch [of m f "kube w"] l(1,4) assms(4) [of l] by (cases "ls_name l = m") (auto simp: gone_def)
  then show ?thesis
    using l assms by cases (auto simp: good_def)
qed

lemma get_good:
  assumes "cr_get i (kube w) = (y, k)" "good n r x w"
  shows "good n r x (w\<lparr>kube := k\<rparr>)" "crs k = crs (kube w)"
  using crs_get [OF assms(1)] assms(2) by (simp_all add: good_def)

lemma request_good:
  assumes "good n r x w"
    "\<And>l k. crs k = crs (kube w) \<Longrightarrow> good n r x (w\<lparr>kube := k\<rparr>) \<Longrightarrow> good n r x (w\<lparr>kube := snd (f l k)\<rparr>)"
  shows "good n r x (w\<lparr>kube := snd (get_then i f (kube w))\<rparr>)"
proof -
  obtain y k where k: "cr_get i (kube w) = (y, k)" by (cases "cr_get i (kube w)")
  show ?thesis
    using get_good [OF k assms(1)] assms(2) k by (cases y) (simp_all add: get_then_def)
qed

lemma view_pause:
  "safe_view pz isP N sn x V S X \<Longrightarrow> N = [] \<or> isP \<Longrightarrow> safe_view True isP N sn x V S X"
  by (auto simp: safe_view_def split: if_splits)

lemma view_resume:
  "safe_view pz True N sn x V S X \<Longrightarrow> safe_view False True N sn x V S X"
  by (auto simp: safe_view_def split: if_splits)

lemma upd_spec_names [simp]:
  "ls_deleting (upd_spec f l) = ls_deleting l" "ls_spec (upd_spec f l) = f (ls_spec l)"
  "resourceName (upd_spec (\<lambda>s. s\<lparr>paused := b\<rparr>) l) = resourceName l"
  "snapshot_name (upd_spec (\<lambda>s. s\<lparr>paused := b\<rparr>) l) = snapshot_name l"
  by (simp_all add: upd_spec_def resourceName_def snapshot_name_def)

lemma Pause_good:
  assumes "good n r x w"
    "list_all (\<lambda>l. snapshotName (ls_status l) = [] \<or> ph (ls_status l) = Paused) (crs (kube w))"
  shows "good n r x (w\<lparr>kube := snd (Pause n (kube w))\<rparr>)"
  unfolding Pause_def
proof (rule request_good [OF assms(1)], unfold snd_patched)
  fix k assume k: "crs k = crs (kube w)" "good n r x (w\<lparr>kube := k\<rparr>)"
  have "safe (upd_spec (\<lambda>s. s\<lparr>paused := True\<rparr>) l) x c" if "crs k = [l]" "safe l x c" for l c
    using that assms(2) k(1) by (auto simp: safe_def intro: view_pause)
  then show "good n r x (w\<lparr>kube := snd (cr_patch n (upd_spec (\<lambda>s. s\<lparr>paused := True\<rparr>)) k)\<rparr>)"
    using patch_good [OF k(2), of "upd_spec (\<lambda>s. s\<lparr>paused := True\<rparr>)" n] by simp
qed

lemma Resume_good:
  assumes "good n r x w" "list_all (\<lambda>l. ph (ls_status l) = Paused) (crs (kube w))"
  shows "good n r x (w\<lparr>kube := snd (Resume n (kube w))\<rparr>)"
  unfolding Resume_def
proof (rule request_good [OF assms(1)], unfold snd_patched)
  fix k assume k: "crs k = crs (kube w)" "good n r x (w\<lparr>kube := k\<rparr>)"
  have "safe (upd_spec (\<lambda>s. s\<lparr>paused := False\<rparr>) l) x c" if "crs k = [l]" "safe l x c" for l c
    using that assms(2) k(1) view_resume [of "paused (ls_spec l)"] by (simp add: safe_def)
  then show "good n r x (w\<lparr>kube := snd (cr_patch n (upd_spec (\<lambda>s. s\<lparr>paused := False\<rparr>)) k)\<rparr>)"
    using patch_good [OF k(2), of "upd_spec (\<lambda>s. s\<lparr>paused := False\<rparr>)" n] by simp
qed

lemma Mark_good:
  assumes "good n r x w"
  shows "good n r x (w\<lparr>kube := snd (MarkStepComplete n st t (kube w))\<rparr>)"
  unfolding MarkStepComplete_def
proof (rule request_good [OF assms])
  fix l k assume k: "crs k = crs (kube w)" "good n r x (w\<lparr>kube := k\<rparr>)"
  show "good n r x (w\<lparr>kube := snd (mark_after_read n st t l k)\<rparr>)"
    using k(2) patch_good [OF k(2), of "upd_status (\<lambda>s. s\<lparr>completedSteps := completedSteps (ls_status l) @ [(st, t)]\<rparr>)" n]
    by (simp add: mark_after_read_def safe_upd)
qed

text \<open>What the cluster does by itself.\<close>

lemma view_import:
  assumes "safe_view pz isP N sn x (Some v) S X" "vol_content v = None"
    "y = (case vol_source v of From_golden g \<Rightarrow> G g
          | From_snapshot m \<Rightarrow> (case (if m = sn then S else T m) of None \<Rightarrow> None
              | Some s \<Rightarrow> if snap_ready s then snap_content s else None))"
  shows "safe_view pz isP N sn x (Some (v\<lparr>vol_content := y\<rparr>)) S X"
proof (cases x)
  case None
  then show ?thesis
    using assms(1,2) by (auto simp: safe_view_def live_def usable_in_def saved_in_def content_of_def split: if_splits)
next
  case (Some d)
  then show ?thesis
    using assms by (auto simp: safe_view_def live_def usable_in_def saved_in_def content_of_def split: if_splits)
qed
lemma view_work:
  assumes "safe_view pz isP N sn x (Some v) S (Some vm)" "vmi_status vm = Vmi_running"
  shows "safe_view pz isP N sn (Some d) (Some (v\<lparr>vol_content := Some d\<rparr>)) S (Some vm)"
  using assms by (auto simp: safe_view_def live_def content_of_def split: if_splits)

lemma view_phase:
  assumes "safe_view pz isP N sn x V S (Some vm)" "p = Vmi_running \<Longrightarrow> content_of V \<noteq> None"
  shows "safe_view pz isP N sn x V S (Some (vm\<lparr>vmi_status := p\<rparr>))"
  using assms by (auto simp: safe_view_def split: if_splits)

lemma view_ready:
  "safe_view pz isP N sn x V (Some s) X \<Longrightarrow> safe_view pz isP N sn x V (Some (s\<lparr>snap_ready := True\<rparr>)) X"
  by (auto simp: safe_view_def saved_in_def usable_in_def)

lemma cluster_safe:
  assumes "safe l (m (resourceName l)) c"
  shows "safe l (work_after c ev m (resourceName l)) (vm_step c ev)"
proof (cases ev)
  case (Import n)
  show ?thesis
  proof (cases "volumes c n")
    case (Some v)
    show ?thesis
    proof (cases "n = resourceName l \<and> vol_content v = None")
      case True
      have "source_content c (vol_source v) =
        (case vol_source v of From_golden g \<Rightarrow> goldens c g
         | From_snapshot k \<Rightarrow> (case (if k = snapshot_name l then snapshots c (snapshot_name l) else snapshots c k) of
             None \<Rightarrow> None | Some s \<Rightarrow> if snap_ready s then snap_content s else None))"
        by (simp add: source_content_def split: source.split)
      with assms view_import [of _ _ _ _ "m (resourceName l)" v] show ?thesis
        using Some True Import by (simp add: vm_step_def work_after_def safe_def)
    next
      case False
      then show ?thesis using Some assms Import by (auto simp: vm_step_def work_after_def safe_def)
    qed
  qed (use assms Import in \<open>simp add: vm_step_def work_after_def\<close>)
next
  case (Vmi_phase n p)
  then show ?thesis
    using assms view_phase [of _ _ _ _ "m (resourceName l)" "volumes c n" _ _ p]
    by (auto simp: vm_step_def work_after_def safe_def content_of_def split: option.split)
next
  case (Work n d)
  then show ?thesis
    using assms view_work [of _ _ _ _ "m (resourceName l)"]
    by (auto simp: vm_step_def work_after_def works_def safe_def split: option.split)
next
  case (Snapshot_done n)
  then show ?thesis
    using assms view_ready
    by (auto simp: vm_step_def work_after_def safe_def split: option.split)
qed

definition pl_inv :: "string \<Rightarrow> string \<Rightarrow> 'd platform \<Rightarrow> bool" where
  "pl_inv n r p \<longleftrightarrow> good n r (pl_work p r) (pl_world p)"

lemma pl_step_inv:
  assumes "pl_inv n r p" "pl_guard p ev"
  shows "pl_inv n r (pl_step cfg n p ev)"
proof (cases ev)
  case (Pl_cluster v)
  obtain l where l: "crs (kube (pl_world p)) = [l]" "ls_name l = n" "resourceName l = r" "\<not> ls_deleting l"
    "safe l (pl_work p r) (vms (pl_world p))"
    using assms(1) by (auto simp: pl_inv_def good_def)
  then show ?thesis
    using cluster_safe [of l "pl_work p" "vms (pl_world p)" v] Pl_cluster
    by (auto simp: pl_step_def pl_inv_def good_def Let_def)
next
  case (Pl_faults fs gs)
  then show ?thesis using assms(1) by (auto simp: pl_step_def pl_inv_def good_def safe_def Let_def)
qed (use assms in \<open>auto simp: pl_step_def pl_inv_def pl_guard_def Let_def
       intro: reconcile_good Pause_good Resume_good Mark_good\<close>)

interpretation platform: guarded_machine "pl_step cfg n" pl_guard "pl_inv n r" for cfg n r
  by unfold_locales (rule pl_step_inv)

section \<open>Properties\<close>

text \<open>
  A platform just after the session's creation: no object of the cluster has its names yet
  (other names may be taken).
\<close>

definition created :: "lab_session \<Rightarrow> 'd cluster \<Rightarrow> bool" where
  "created l c \<longleftrightarrow>
     ph (ls_status l) = Phase_none \<and> snapshotName (ls_status l) = [] \<and> \<not> ls_deleting l \<and>
     snapshots c (snapshot_name l) = None \<and> vmis c (resourceName l) = None"

definition pl_start :: "lab_session \<Rightarrow> 'd cluster \<Rightarrow> 'd platform" where
  "pl_start l c = \<lparr>pl_world = \<lparr>kube = \<lparr>crs = [l], faults = []\<rparr>, vms = c\<rparr>, pl_work = Map.empty\<rparr>"

text \<open>
  Where the work \<open>d\<close> of session \<open>n\<close> is kept: on its disk, or in the ready snapshot its status
  names, which a resume starts from.
\<close>

definition work_kept :: "string \<Rightarrow> 'd \<Rightarrow> 'd platform \<Rightarrow> bool" where
  "work_kept n d p \<longleftrightarrow>
     list_ex (\<lambda>l. ls_name l = n \<and>
       (content_of (volumes (vms (pl_world p)) (resourceName l)) = Some d \<or>
        snapshotName (ls_status l) \<noteq> [] \<and>
        (case snapshots (vms (pl_world p)) (snapshotName (ls_status l)) of
           None \<Rightarrow> False | Some s \<Rightarrow> snap_ready s \<and> snap_content s = Some d)))
       (crs (kube (pl_world p)))"

lemma start_inv: "created l c \<Longrightarrow> pl_inv (ls_name l) (resourceName l) (pl_start l c)"
  by (auto simp: pl_inv_def good_def pl_start_def created_def safe_def safe_view_def live_def)

lemma inv_kept:
  assumes "pl_inv n r p" "pl_work p r = Some d" shows "work_kept n d p"
  using assms
  by (auto simp: pl_inv_def good_def work_kept_def safe_def safe_view_def live_def usable_in_def
      split: if_splits option.splits)

section \<open>Single steps without failures\<close>

text \<open>The session \<open>l\<close> with the fields that pausing and resuming change.\<close>

definition sess :: "lab_session \<Rightarrow> bool \<Rightarrow> phase \<Rightarrow> string \<Rightarrow> string \<Rightarrow> string \<Rightarrow> lab_session" where
  "sess l pz p N D M =
     l\<lparr>ls_spec := (ls_spec l)\<lparr>paused := pz\<rparr>,
       ls_status := (ls_status l)\<lparr>ph := p, snapshotName := N, serviceDNS := D, message := M\<rparr>\<rparr>"

lemma sess_sel [simp]:
  "ls_name (sess l pz p N D M) = ls_name l" "resourceName (sess l pz p N D M) = resourceName l"
  "snapshot_name (sess l pz p N D M) = snapshot_name l" "ls_deleting (sess l pz p N D M) = ls_deleting l"
  "paused (ls_spec (sess l pz p N D M)) = pz" "ph (ls_status (sess l pz p N D M)) = p"
  "snapshotName (ls_status (sess l pz p N D M)) = N" "serviceDNS (ls_status (sess l pz p N D M)) = D"
  "message (ls_status (sess l pz p N D M)) = M" "in_use e (sess l pz p N D M) = in_use e l"
  "owned (sess l pz p N D M) c = owned l c"
  "converging (sess l pz p N D M) = (\<not> pz \<and> p \<noteq> Paused)"
  "gone (sess l pz p N D M) = gone l"
  by (simp_all add: sess_def resourceName_def snapshot_name_def in_use_def is_expired_def owned_def
      converging_def gone_def)

lemma sess_serves [simp]: "serves cfg (sess l pz p N D M) = serves cfg l"
proof -
  have "ls_spec (sess l pz p N D M) = (ls_spec l)\<lparr>paused := pz\<rparr>" by (simp add: sess_def)
  then show ?thesis unfolding serves_def by (simp split: sum.split option.split)
qed

lemma sess_upd [simp]:
  "upd_status (\<lambda>s. s\<lparr>ph := q\<rparr>) (sess l pz p N D M) = sess l pz q N D M"
  "upd_status (\<lambda>s. s\<lparr>snapshotName := K\<rparr>) (sess l pz p N D M) = sess l pz p K D M"
  "upd_status (\<lambda>s. s\<lparr>snapshotName := K, serviceDNS := []\<rparr>) (sess l pz p N D M) = sess l pz p K [] M"
  "upd_status (\<lambda>s. s\<lparr>ph := q, serviceDNS := E, message := X\<rparr>) (sess l pz p N D M) = sess l pz q N E X"
  "upd_spec (\<lambda>s. s\<lparr>paused := b\<rparr>) (sess l pz p N D M) = sess l b p N D M"
  by (simp_all add: sess_def upd_status_def upd_spec_def)

lemma sess_self: "sess l (paused (ls_spec l)) (ph (ls_status l)) (snapshotName (ls_status l))
    (serviceDNS (ls_status l)) (message (ls_status l)) = l"
  by (simp add: sess_def)

abbreviation plat :: "lab_session \<Rightarrow> 'd cluster \<Rightarrow> (string \<rightharpoonup> 'd) \<Rightarrow> 'd platform" where
  "plat l c m \<equiv> \<lparr>pl_world = single l c, pl_work = m\<rparr>"

lemma pause_step:
  "\<not> gone l \<Longrightarrow> pl_step cfg (ls_name l) (plat (sess l pz p N D M) c m) Pl_pause = plat (sess l True p N D M) c m"
  "\<not> gone l \<Longrightarrow> pl_step cfg (ls_name l) (plat (sess l pz p N D M) c m) Pl_resume = plat (sess l False p N D M) c m"
  by (simp_all add: pl_step_def Let_def Pause_def Resume_def get_then_def cr_get_def cr_patch_def patched_def single_def)

lemma work_after_idle [simp]:
  "work_after c (Import n) m = m" "work_after c (Vmi_phase n p) m = m" "work_after c (Snapshot_done n) m = m"
  by (simp_all add: work_after_def)

lemma cluster_step:
  "pl_step cfg n (plat l c m) (Pl_cluster v) = plat l (vm_step c v) (work_after c v m)"
  by (simp add: pl_step_def Let_def single_def)

lemma rec_step:
  "rec_session (kubevirt cfg) e (sess l pz p N D M) (single (sess l pz p N D M) c) = (q, single l' c') \<Longrightarrow>
   pl_step cfg (ls_name l) (plat (sess l pz p N D M) c m) (Pl_reconcile e) = plat l' c' m"
  using reconcile_single [of "kubevirt cfg" e "sess l pz p N D M" c] by (simp add: pl_step_def Let_def)

lemma pause_1_step:
  assumes "in_use e l" "p \<noteq> Paused" "cfaults c = []" "snapshots c (snapshot_name l) = None"
    "volumes c (resourceName l) = Some v"
  shows "pl_step cfg (ls_name l) (plat (sess l True p [] D M) c m) (Pl_reconcile e) =
    plat (sess l True p (snapshot_name l) [] M)
      (c\<lparr>vmis := (vmis c)(resourceName l := None), netpols := (netpols c)(resourceName l := None),
         services := (services c)(resourceName l := None),
         snapshots := (snapshots c)(snapshot_name l \<mapsto> \<lparr>snap_content = vol_content v, snap_ready = False\<rparr>)\<rparr>) m"
  using pause_phase_1 [of e "sess l True p [] D M" c v cfg] assms by (intro rec_step) simp

lemma pause_2_step:
  assumes "in_use e l" "p \<noteq> Paused" "cfaults c = []" "snapshots c N = Some s" "snap_ready s" "N \<noteq> []"
  shows "pl_step cfg (ls_name l) (plat (sess l True p N D M) c m) (Pl_reconcile e) =
    plat (sess l True Paused N D M) (c\<lparr>volumes := (volumes c)(resourceName l := None)\<rparr>) m"
  using pause_phase_2 [of e "sess l True p N D M" N c s cfg] assms by (intro rec_step) simp

lemma resume_step:
  assumes "in_use e l"
  shows "pl_step cfg (ls_name l) (plat (sess l False Paused N D M) c m) (Pl_reconcile e) =
    plat (sess l False Provisioning N D M) c m"
  using resume_call [of e "sess l False Paused N D M" "kubevirt cfg" c] assms by (intro rec_step) simp

lemma converge_single:
  fixes l :: lab_session and c c' :: "'d cluster"
  assumes "in_use e l" "converging l" "Reconcile cfg l c = (Inr r, c')" "cfaults c' = []"
  defines "l1 \<equiv> upd_status (\<lambda>s. s\<lparr>ph := ready_phase e r, serviceDNS := r_serviceDNS r, message := r_message r\<rparr>) l"
  defines "clean \<equiv> snapshotName (ls_status l) \<noteq> [] \<and> ready_phase e r \<in> {Running, Ready}"
  shows "\<exists>q. rec_session (kubevirt cfg) e l (single l c) =
    (Inr q, if clean then single (upd_status (\<lambda>s. s\<lparr>snapshotName := []\<rparr>) l1)
                        (c'\<lparr>snapshots := (snapshots c')(snapshotName (ls_status l) := None)\<rparr>)
        else single l1 c')"
proof -
  have rs: "rec_session (kubevirt cfg) e l = rec_converge (kubevirt cfg) e l"
    using assms(1,2) by (simp add: rec_session_def in_use_def converging_def)
  have g: "\<not> gone l" "ls_name l1 = ls_name l" "\<not> gone l1" using assms(1) by (simp_all add: l1_def)
  have 1: "on_vms (pr_reconcile (kubevirt cfg) l) (single l c) = (Inr r, single l c')"
    by (rule on_vms_single) (simp add: kubevirt_def assms(3))
  have 2: "patch_observed l (ready_phase e r) r (single l c') = (Inr (), single l1 c')"
  proof (cases "ph (ls_status l) \<noteq> ready_phase e r \<or> serviceDNS (ls_status l) \<noteq> r_serviceDNS r \<or> message (ls_status l) \<noteq> r_message r")
    case True
    then show ?thesis
      using g by (simp add: patch_observed_def andthen_def give_def patchStatus_single l1_def)
  next
    case False
    then have "l1 = l" by (simp add: l1_def upd_status_def)
    then show ?thesis using False by (simp add: patch_observed_def give_def)
  qed
  have 3: "on_vms (pr_delete_snapshot (kubevirt cfg) N) (single l1 c') =
      (Inr (), single l1 (c'\<lparr>snapshots := (snapshots c')(N := None)\<rparr>))" for N
    by (rule on_vms_single) (simp add: kubevirt_def DeleteSnapshot_def assms(4))
  have 4: "\<exists>b. clean_snapshot (kubevirt cfg) l (ready_phase e r) (single l1 c') =
      (Inr b, if clean then single (upd_status (\<lambda>s. s\<lparr>snapshotName := []\<rparr>) l1)
                        (c'\<lparr>snapshots := (snapshots c')(snapshotName (ls_status l) := None)\<rparr>)
              else single l1 c')"
    using g by (auto simp: clean_snapshot_def recovering_def 3 andthen_def patch_stale give_def clean_def)
  show ?thesis
    unfolding rs rec_converge_def using 1 2 4 by (auto simp: andthen_def give_def)
qed
lemma converge_step:
  fixes c :: "'d cluster"
  assumes "in_use e l" "p \<noteq> Paused" "serves cfg l" "owned l c" "cfaults c = []"
  obtains c' where "all_there cfg l c'" "owned l c'" "cfaults c' = []" "snapshots c' = snapshots c" "goldens c' = goldens c"
    "volumes c (resourceName l) \<noteq> None \<Longrightarrow> volumes c' = volumes c"
    "volumes c (resourceName l) = None \<Longrightarrow> N \<noteq> [] \<Longrightarrow> volumes c' (resourceName l) =
       Some \<lparr>vol_owner = sessionID (ls_spec l), vol_source = From_snapshot N, vol_content = None\<rparr>"
    "vmis c (resourceName l) = None \<Longrightarrow> (\<exists>v. vmis c' (resourceName l) = Some v \<and> vmi_status v = Vmi_pending)"
    "vmis c (resourceName l) \<noteq> None \<Longrightarrow> vmis c' = vmis c"
    "\<And>r. r = vm_result cfg (resourceName l) (vmis c' (resourceName l)) \<Longrightarrow>
       pl_step cfg (ls_name l) (plat (sess l False p N D M) c m) (Pl_reconcile e) =
       (if N \<noteq> [] \<and> ready_phase e r \<in> {Running, Ready}
        then plat (sess l False (ready_phase e r) [] (r_serviceDNS r) (r_message r)) (c'\<lparr>snapshots := (snapshots c')(N := None)\<rparr>) m
        else plat (sess l False (ready_phase e r) N (r_serviceDNS r) (r_message r)) c' m)"
proof -
  let ?l = "sess l False p N D M"
  obtain g sp u where R: "Reconcile cfg ?l c = (Inr (vm_result cfg (resourceName ?l)
      (vmis (converged cfg ?l g sp u c) (resourceName ?l))), converged cfg ?l g sp u c)"
    by (rule Reconcile_serves [of cfg ?l c]) (use assms in simp_all)
  let ?c = "converged cfg ?l g sp u c"
  have id: "sessionID (ls_spec ?l) = sessionID (ls_spec l)" "vm_ports ?l = vm_ports l"
    by (simp_all add: sess_def vm_ports_def)
  show ?thesis
  proof (rule that [of ?c])
    show "all_there cfg l ?c"
      using converged_there [of ?l c cfg g sp u] assms(4) id by (simp add: all_there_def)
    show "owned l ?c" using converged_owned [of ?l c cfg g sp u] assms(4) by simp
    show "volumes c (resourceName l) \<noteq> None \<Longrightarrow> volumes ?c = volumes c"
      "vmis c (resourceName l) \<noteq> None \<Longrightarrow> vmis ?c = vmis c"
      by (auto simp: converged_def Let_def map_upd_triv)
    show "volumes c (resourceName l) = None \<Longrightarrow> N \<noteq> [] \<Longrightarrow> volumes ?c (resourceName l) =
       Some \<lparr>vol_owner = sessionID (ls_spec l), vol_source = From_snapshot N, vol_content = None\<rparr>"
      using converged_volume [of cfg ?l g sp u c] id by (simp add: volume_source_def)
    show "vmis c (resourceName l) = None \<Longrightarrow> \<exists>v. vmis ?c (resourceName l) = Some v \<and> vmi_status v = Vmi_pending"
      using converged_vmi [of cfg ?l g sp u c] by simp
  next
    fix r assume r: "r = vm_result cfg (resourceName l) (vmis ?c (resourceName l))"
    have e: "in_use e ?l" "converging ?l" "cfaults ?c = []" using assms by simp_all
    show "pl_step cfg (ls_name l) (plat ?l c m) (Pl_reconcile e) =
       (if N \<noteq> [] \<and> ready_phase e r \<in> {Running, Ready}
        then plat (sess l False (ready_phase e r) [] (r_serviceDNS r) (r_message r)) (?c\<lparr>snapshots := (snapshots ?c)(N := None)\<rparr>) m
        else plat (sess l False (ready_phase e r) N (r_serviceDNS r) (r_message r)) ?c m)"
      using converge_single [OF e(1,2) R e(3)] r
      by (auto intro!: rec_step split: if_splits)
  qed (use assms in simp_all)
qed

lemma vm_result_pending: "vmi_status v = Vmi_pending \<Longrightarrow> vm_result cfg n (Some v) = provisioning"
  by (simp add: vm_result_def)

lemma vm_result_running: "vmi_status v = Vmi_running \<Longrightarrow>
    vm_result cfg n (Some v) = \<lparr>r_phase = Running, r_serviceDNS = serviceDNS_of cfg n, r_message = []\<rparr>"
  by (simp add: vm_result_def)

lemma provisioning_sel [simp]:
  "ready_phase e provisioning = Provisioning" "r_serviceDNS provisioning = []" "r_message provisioning = []"
  by (simp_all add: ready_phase_def provisioning_def)

text \<open>A session in use with its work on the disk: what pausing starts from.\<close>

definition settled :: "config \<Rightarrow> env \<Rightarrow> lab_session \<Rightarrow> 'd cluster \<Rightarrow> bool" where
  "settled cfg e l c \<longleftrightarrow>
     in_use e l \<and> serves cfg l \<and> owned l c \<and> cfaults c = [] \<and>
     \<not> paused (ls_spec l) \<and> ph (ls_status l) = Ready \<and> snapshotName (ls_status l) = [] \<and>
     snapshots c (snapshot_name l) = None \<and> content_of (volumes c (resourceName l)) \<noteq> None"

definition pause_events :: "env \<Rightarrow> lab_session \<Rightarrow> 'd pl_event list" where
  "pause_events e l = [Pl_pause, Pl_reconcile e, Pl_cluster (Snapshot_done (snapshot_name l)), Pl_reconcile e]"

lemma pause_events_ok:
  assumes "settled cfg e l c"
  obtains c' where "foldl (pl_step cfg (ls_name l)) (plat l c m) (pause_events e l) =
      plat (sess l True Paused (snapshot_name l) [] (message (ls_status l))) c' m"
    "volumes c' (resourceName l) = None" "vmis c' (resourceName l) = None"
    "snapshots c' (snapshot_name l) = Some \<lparr>snap_content = content_of (volumes c (resourceName l)), snap_ready = True\<rparr>"
    "owned l c'" "cfaults c' = []"
proof -
  have s: "in_use e l" "owned l c" "cfaults c = []" "snapshots c (snapshot_name l) = None"
    using assms by (simp_all add: settled_def)
  obtain v where v: "volumes c (resourceName l) = Some v" "vol_content v \<noteq> None"
    using assms by (auto simp: settled_def content_of_def split: option.splits)
  have l: "l = sess l False Ready [] (serviceDNS (ls_status l)) (message (ls_status l))"
    using assms sess_self [of l] by (simp add: settled_def)
  let ?c1 = "c\<lparr>vmis := (vmis c)(resourceName l := None), netpols := (netpols c)(resourceName l := None),
      services := (services c)(resourceName l := None),
      snapshots := (snapshots c)(snapshot_name l \<mapsto> \<lparr>snap_content = vol_content v, snap_ready = False\<rparr>)\<rparr>"
  let ?c2 = "?c1\<lparr>snapshots := (snapshots c)(snapshot_name l \<mapsto> \<lparr>snap_content = vol_content v, snap_ready = True\<rparr>)\<rparr>"
  let ?c3 = "?c2\<lparr>volumes := (volumes c)(resourceName l := None)\<rparr>"
  have sn: "snapshot_name l \<noteq> []" by (simp add: snapshot_name_def)
  have "foldl (pl_step cfg (ls_name l)) (plat l c m) (pause_events e l) =
      foldl (pl_step cfg (ls_name l)) (plat (sess l False Ready [] (serviceDNS (ls_status l)) (message (ls_status l))) c m) (pause_events e l)"
    using l by simp
  also have "\<dots> = plat (sess l True Paused (snapshot_name l) [] (message (ls_status l))) ?c3 m"
    using s v sn by (simp add: pause_events_def pause_step pause_1_step [OF s(1) _ s(3,4) v(1)] cluster_step
        vm_step_def work_after_def pause_2_step [OF s(1)])
  finally have f: "foldl (pl_step cfg (ls_name l)) (plat l c m) (pause_events e l) =
      plat (sess l True Paused (snapshot_name l) [] (message (ls_status l))) ?c3 m" .
  show ?thesis
    by (rule that [OF f]) (use s v in \<open>simp_all add: content_of_def, simp add: owned_def Let_def\<close>)
qed
text \<open>
  Resuming: the request, the phase back to Provisioning, a new disk and VM, the import of the
  snapshot, the start of the VM, and the call that sees it run.
\<close>

definition resume_events :: "env \<Rightarrow> lab_session \<Rightarrow> 'd pl_event list" where
  "resume_events e l =
     [Pl_resume, Pl_reconcile e, Pl_reconcile e, Pl_cluster (Import (resourceName l)),
      Pl_cluster (Vmi_phase (resourceName l) Vmi_running), Pl_reconcile e]"

text \<open>
  C20: pausing and resuming restores the session: from a session in use, if no call fails and
  the snapshot, the import and the VM get ready in turn, four steps pause it with neither a disk
  nor a VM left, and six more bring back a running VM on a disk with exactly the content it
  had, with the snapshot deleted and no longer named by the status.
\<close>

theorem pause_resume_restores:
  assumes "settled cfg e l c"
  shows "\<exists>l' c'. foldl (pl_step cfg (ls_name l)) (plat l c m) (pause_events e l @ resume_events e l) = plat l' c' m \<and>
    ph (ls_status l') \<in> {Running, Ready} \<and> snapshotName (ls_status l') = [] \<and>
    content_of (volumes c' (resourceName l)) = content_of (volumes c (resourceName l)) \<and>
    snapshots c' (snapshot_name l) = None \<and>
    (\<exists>v. vmis c' (resourceName l) = Some v \<and> vmi_status v = Vmi_running)"
proof -
  let ?r = "resourceName l" and ?sn = "snapshot_name l" and ?M = "message (ls_status l)"
  let ?d = "content_of (volumes c ?r)" and ?step = "pl_step cfg (ls_name l)"
  have s: "in_use e l" "serves cfg l" "?d \<noteq> None" using assms by (simp_all add: settled_def)
  have sn: "?sn \<noteq> []" by (simp add: snapshot_name_def)
  obtain c1 where 1: "foldl ?step (plat l c m) (pause_events e l) = plat (sess l True Paused ?sn [] ?M) c1 m"
    "volumes c1 ?r = None" "vmis c1 ?r = None"
    "snapshots c1 ?sn = Some \<lparr>snap_content = ?d, snap_ready = True\<rparr>" "owned l c1" "cfaults c1 = []"
    by (rule pause_events_ok [OF assms])
  obtain c2 where 2: "owned l c2" "cfaults c2 = []" "snapshots c2 = snapshots c1"
    "volumes c2 ?r = Some \<lparr>vol_owner = sessionID (ls_spec l), vol_source = From_snapshot ?sn, vol_content = None\<rparr>"
    "\<exists>v. vmis c2 ?r = Some v \<and> vmi_status v = Vmi_pending"
    "\<And>r. r = vm_result cfg ?r (vmis c2 ?r) \<Longrightarrow> ?step (plat (sess l False Provisioning ?sn [] ?M) c1 m) (Pl_reconcile e) =
       (if ?sn \<noteq> [] \<and> ready_phase e r \<in> {Running, Ready}
        then plat (sess l False (ready_phase e r) [] (r_serviceDNS r) (r_message r)) (c2\<lparr>snapshots := (snapshots c2)(?sn := None)\<rparr>) m
        else plat (sess l False (ready_phase e r) ?sn (r_serviceDNS r) (r_message r)) c2 m)"
    by (rule converge_step [OF s(1) _ s(2) 1(5,6), of Provisioning ?sn "[]" ?M m]) (use 1(2,3) sn in auto)
  obtain v where v: "vmis c2 ?r = Some v" "vmi_status v = Vmi_pending" using 2(5) by blast
  let ?vol = "\<lparr>vol_owner = sessionID (ls_spec l), vol_source = From_snapshot ?sn, vol_content = ?d\<rparr>"
  let ?c3 = "c2\<lparr>volumes := (volumes c2)(?r \<mapsto> ?vol), vmis := (vmis c2)(?r \<mapsto> v\<lparr>vmi_status := Vmi_running\<rparr>)\<rparr>"
  have o3: "owned l ?c3" "cfaults ?c3 = []" using 2(1,2) v by (simp_all add: owned_def Let_def)
  obtain c4 where 4: "snapshots c4 = snapshots ?c3" "volumes c4 = volumes ?c3" "vmis c4 = vmis ?c3"
    "\<And>r. r = vm_result cfg ?r (vmis c4 ?r) \<Longrightarrow> ?step (plat (sess l False Provisioning ?sn [] []) ?c3 m) (Pl_reconcile e) =
       (if ?sn \<noteq> [] \<and> ready_phase e r \<in> {Running, Ready}
        then plat (sess l False (ready_phase e r) [] (r_serviceDNS r) (r_message r)) (c4\<lparr>snapshots := (snapshots c4)(?sn := None)\<rparr>) m
        else plat (sess l False (ready_phase e r) ?sn (r_serviceDNS r) (r_message r)) c4 m)"
    by (rule converge_step [OF s(1) _ s(2) o3, of Provisioning ?sn "[]" "[]" m]) auto
  let ?res = "\<lparr>r_phase = Running, r_serviceDNS = serviceDNS_of cfg ?r, r_message = []\<rparr>"
  have r4: "vm_result cfg ?r (vmis c4 ?r) = ?res" using 4(3) by (simp add: vm_result_running)
  have i: "vm_step (vm_step c2 (Import ?r)) (Vmi_phase ?r Vmi_running) = ?c3"
    using 2(3,4) v 1(4) s(3) by (auto simp: vm_step_def source_content_def)
  have st2: "?step (plat (sess l False Provisioning ?sn [] ?M) c1 m) (Pl_reconcile e) =
      plat (sess l False Provisioning ?sn [] []) c2 m"
    using 2(6) [OF refl] v by (simp add: vm_result_pending)
  have p: "ready_phase e ?res = Running \<or> ready_phase e ?res = Ready" by (simp add: ready_phase_def)
  have st4: "?step (plat (sess l False Provisioning ?sn [] []) ?c3 m) (Pl_reconcile e) =
      plat (sess l False (ready_phase e ?res) [] (serviceDNS_of cfg ?r) []) (c4\<lparr>snapshots := (snapshots c4)(?sn := None)\<rparr>) m"
    using 4(4) [OF r4 [symmetric]] p sn by simp
  have "foldl ?step (plat l c m) (pause_events e l @ resume_events e l) =
      plat (sess l False (ready_phase e ?res) [] (serviceDNS_of cfg ?r) []) (c4\<lparr>snapshots := (snapshots c4)(?sn := None)\<rparr>) m"
    using 1(1) s(1) st2 i st4
    by (simp add: resume_events_def pause_step resume_step cluster_step work_after_def)
  moreover have "content_of (volumes c4 ?r) = ?d" "\<exists>v. vmis c4 ?r = Some v \<and> vmi_status v = Vmi_running"
    using 4(2,3) by (simp_all add: content_of_def)
  ultimately show ?thesis
    using p by (intro exI [of _ "sess l False (ready_phase e ?res) [] (serviceDNS_of cfg ?r) []"]
        exI [of _ "c4\<lparr>snapshots := (snapshots c4)(?sn := None)\<rparr>"]) simp
qed
text \<open>
  A user who pauses, changes their mind at once, goes on working and pauses again: no call
  fails, but the second request to pause comes before the snapshot of the first is deleted.
\<close>

definition hasty_events :: "env \<Rightarrow> lab_session \<Rightarrow> 'd \<Rightarrow> 'd pl_event list" where
  "hasty_events e l d =
     [Pl_pause, Pl_reconcile e, Pl_resume, Pl_reconcile e,
      Pl_cluster (Vmi_phase (resourceName l) Vmi_running), Pl_cluster (Work (resourceName l) d),
      Pl_cluster (Snapshot_done (snapshot_name l)), Pl_pause, Pl_reconcile e]"

text \<open>
  without the two conditions on requests work is lost, even when nothing fails: a session
  that is paused, resumed before the pause completed, worked in and paused again ends up
  Paused with its disk deleted and a snapshot of before that work, the VM object still there.
\<close>

theorem hasty_pause_loses_work:
  assumes "settled cfg e l c"
  shows "let p = foldl (pl_step cfg (ls_name l)) (plat l c m) (hasty_events e l d);
             c' = vms (pl_world p)
         in pl_work p (resourceName l) = Some d \<and>
            crs (kube (pl_world p)) = [sess l True Paused (snapshot_name l) [] []] \<and>
            volumes c' (resourceName l) = None \<and>
            snapshots c' (snapshot_name l) = Some \<lparr>snap_content = content_of (volumes c (resourceName l)), snap_ready = True\<rparr> \<and>
            vmis c' (resourceName l) \<noteq> None"
proof -
  let ?r = "resourceName l" and ?sn = "snapshot_name l" and ?M = "message (ls_status l)"
  let ?step = "pl_step cfg (ls_name l)"
  have s: "in_use e l" "serves cfg l" "owned l c" "cfaults c = []" "snapshots c ?sn = None"
    using assms by (simp_all add: settled_def)
  obtain v where v: "volumes c ?r = Some v" "vol_content v \<noteq> None"
    using assms by (auto simp: settled_def content_of_def split: option.splits)
  have l: "l = sess l False Ready [] (serviceDNS (ls_status l)) ?M"
    using assms sess_self [of l] by (simp add: settled_def)
  have sn: "?sn \<noteq> []" by (simp add: snapshot_name_def)
  let ?c1 = "c\<lparr>vmis := (vmis c)(?r := None), netpols := (netpols c)(?r := None),
      services := (services c)(?r := None),
      snapshots := (snapshots c)(?sn \<mapsto> \<lparr>snap_content = vol_content v, snap_ready = False\<rparr>)\<rparr>"
  have o1: "owned l ?c1" "cfaults ?c1 = []" using s(3,4) by (simp_all add: owned_def Let_def)
  obtain c2 where 2: "owned l c2" "cfaults c2 = []" "snapshots c2 = snapshots ?c1" "volumes c2 = volumes c"
    "\<exists>w. vmis c2 ?r = Some w \<and> vmi_status w = Vmi_pending"
    "\<And>r. r = vm_result cfg ?r (vmis c2 ?r) \<Longrightarrow> ?step (plat (sess l False Ready ?sn [] ?M) ?c1 m) (Pl_reconcile e) =
       (if ?sn \<noteq> [] \<and> ready_phase e r \<in> {Running, Ready}
        then plat (sess l False (ready_phase e r) [] (r_serviceDNS r) (r_message r)) (c2\<lparr>snapshots := (snapshots c2)(?sn := None)\<rparr>) m
        else plat (sess l False (ready_phase e r) ?sn (r_serviceDNS r) (r_message r)) c2 m)"
    by (rule converge_step [OF s(1) _ s(2) o1, of Ready ?sn "[]" ?M m]) (use v in auto)
  obtain w where w: "vmis c2 ?r = Some w" "vmi_status w = Vmi_pending" using 2(5) by blast
  let ?c3 = "c2\<lparr>vmis := (vmis c2)(?r \<mapsto> w\<lparr>vmi_status := Vmi_running\<rparr>),
      volumes := (volumes c)(?r \<mapsto> v\<lparr>vol_content := Some d\<rparr>),
      snapshots := (snapshots c2)(?sn \<mapsto> \<lparr>snap_content = vol_content v, snap_ready = True\<rparr>)\<rparr>"
  have i: "vm_step (vm_step (vm_step c2 (Vmi_phase ?r Vmi_running)) (Work ?r d)) (Snapshot_done ?sn) = ?c3"
    using 2(3,4) v w by (auto simp: vm_step_def)
  have wk: "work_after (vm_step c2 (Vmi_phase ?r Vmi_running)) (Work ?r d) m = m(?r \<mapsto> d)"
    using 2(4) v w by (auto simp: vm_step_def work_after_def works_def)
  have c3: "cfaults ?c3 = []" "snapshots ?c3 ?sn = Some \<lparr>snap_content = vol_content v, snap_ready = True\<rparr>"
    using 2(2) by simp_all
  have st2: "?step (plat (sess l False Ready ?sn [] ?M) ?c1 m) (Pl_reconcile e) =
      plat (sess l False Provisioning ?sn [] []) c2 m"
    using 2(6) [OF refl] w by (simp add: vm_result_pending)
  have "foldl ?step (plat l c m) (hasty_events e l d) =
      foldl ?step (plat (sess l False Ready [] (serviceDNS (ls_status l)) ?M) c m) (hasty_events e l d)"
    using l by simp
  also have "\<dots> = plat (sess l True Paused ?sn [] []) (?c3\<lparr>volumes := (volumes ?c3)(?r := None)\<rparr>) (m(?r \<mapsto> d))"
    using s(1) sn st2 i wk pause_2_step [OF s(1) _ c3(1,2), of Provisioning]
    by (simp add: hasty_events_def pause_step pause_1_step [OF s(1) _ s(4,5) v(1)] cluster_step)
  finally show ?thesis by (simp add: v(1) content_of_def)
qed
section \<open>Concrete runs\<close>

definition sample_env :: env where
  "sample_env = \<lparr>now = 0, later = 0, probe = (\<lambda>_. True)\<rparr>"

definition first_work :: "string pl_event list" where
  "first_work = [Pl_reconcile sample_env, Pl_cluster (Import ''lab-01234567''),
     Pl_cluster (Vmi_phase ''lab-01234567'' Vmi_running), Pl_cluster (Work ''lab-01234567'' ''work'')]"

lemma sample_names: "resourceName (sample_session ''0123456789'') = ''lab-01234567''"
  "ls_name (sample_session ''0123456789'') = ''0123456789''"
  by (simp_all add: sample_eval)

lemma sample_in_use: "in_use sample_env (sample_session i)"
  by (simp add: in_use_def sample_session_def new_session_def is_expired_def sample_env_def finalizer_def)

lemma sample_first_call:
  "\<exists>l' c' v. pl_step sample_config ''0123456789'' (pl_start (sample_session ''0123456789'') empty_cluster)
      (Pl_reconcile sample_env) = plat l' c' Map.empty \<and>
    volumes c' ''lab-01234567'' = Some \<lparr>vol_owner = ''0123456789'', vol_source = From_golden ''golden-base'', vol_content = None\<rparr> \<and>
    vmis c' ''lab-01234567'' = Some v \<and> goldens c' ''golden-base'' = Some ''fresh''"
proof -
  let ?l = "sample_session ''0123456789''"
  have f: "cfaults empty_cluster = []" by (simp add: empty_cluster_def)
  have s: "snapshotName (ls_status ?l) = []" "converging ?l"
    by (simp_all add: sample_session_def new_session_def converging_def)
  obtain g sp u where R: "Reconcile sample_config ?l empty_cluster =
      (Inr (vm_result sample_config (resourceName ?l) (vmis (converged sample_config ?l g sp u empty_cluster) (resourceName ?l))),
       converged sample_config ?l g sp u empty_cluster)"
    by (rule Reconcile_serves [OF sample_serves empty_owned f])
  let ?c = "converged sample_config ?l g sp u empty_cluster"
  have v: "volumes ?c ''lab-01234567'' = Some \<lparr>vol_owner = ''0123456789'', vol_source = From_golden ''golden-base'', vol_content = None\<rparr>"
    using sample_reconciled R by simp
  have m: "\<exists>v. vmis ?c ''lab-01234567'' = Some v"
    using converged_vmi [of sample_config ?l g sp u empty_cluster] sample_names by simp
  have g: "goldens ?c ''golden-base'' = Some ''fresh''" by (simp add: empty_cluster_def)
  have c: "cfaults ?c = []" by (simp add: f)
  obtain q l' where "rec_session (kubevirt sample_config) sample_env ?l (single ?l empty_cluster) = (q, single l' ?c)"
    using converge_single [OF sample_in_use s(2) R c] s(1) by auto
  then have "pl_step sample_config ''0123456789'' (pl_start ?l empty_cluster) (Pl_reconcile sample_env) = plat l' ?c Map.empty"
    using reconcile_single [of "kubevirt sample_config" sample_env ?l empty_cluster] sample_names(2)
    by (simp add: pl_step_def Let_def pl_start_def single_def)
  then show ?thesis using v m g by blast
qed


definition live_session :: lab_session where
  "live_session = sess (sample_session ''0123456789'') False Ready [] [] []"

definition live_cluster :: "string cluster" where
  "live_cluster = empty_cluster\<lparr>volumes := [''lab-01234567'' \<mapsto>
     \<lparr>vol_owner = ''0123456789'', vol_source = From_golden ''golden-base'', vol_content = Some ''work''\<rparr>]\<rparr>"

lemma live_settled: "settled sample_config sample_env live_session live_cluster"
  using sample_serves [of "''0123456789''"] sample_in_use [of "''0123456789''"] sample_names
  by (simp add: settled_def live_session_def live_cluster_def owned_def Let_def empty_cluster_def content_of_def)
    (simp add: sample_session_def new_session_def sess_def)

lemma live_names: "resourceName live_session = ''lab-01234567''" "ls_name live_session = ''0123456789''"
  "snapshot_name live_session = ''lab-01234567-snap''"
  using sample_names by (simp_all add: live_session_def snapshot_name_def)

theorem pause_resume_restores_witness:
  "\<exists>l' c'. foldl (pl_step sample_config ''0123456789'') (plat live_session live_cluster Map.empty)
      (pause_events sample_env live_session @ resume_events sample_env live_session) = plat l' c' Map.empty \<and>
    content_of (volumes c' ''lab-01234567'') = Some ''work''"
proof -
  have "content_of (volumes live_cluster ''lab-01234567'') = Some ''work''"
    by (simp add: live_cluster_def content_of_def)
  then show ?thesis
    using pause_resume_restores [OF live_settled, of Map.empty] unfolding live_names by auto
qed

theorem hasty_pause_loses_work_witness:
  "\<not> work_kept ''0123456789'' ''more'' (foldl (pl_step sample_config ''0123456789'')
     (plat live_session live_cluster Map.empty) (hasty_events sample_env live_session ''more''))"
proof -
  have "content_of (volumes live_cluster ''lab-01234567'') = Some ''work''"
    by (simp add: live_cluster_def content_of_def)
  then show ?thesis
    using hasty_pause_loses_work [OF live_settled, of Map.empty "''more''"]
    unfolding live_names Let_def work_kept_def by (simp add: live_names content_of_def)
qed
text \<open>A call that finds the snapshot ready, one for a deleted session, one that finds the VM running.\<close>

definition saving_session :: lab_session where
  "saving_session = sess live_session True Ready ''lab-01234567-snap'' [] []"

definition saved_cluster :: "string cluster" where
  "saved_cluster = live_cluster\<lparr>snapshots := [''lab-01234567-snap'' \<mapsto> \<lparr>snap_content = Some ''work'', snap_ready = True\<rparr>],
     vmis := [''lab-01234567'' \<mapsto> \<lparr>vmi_owner = ''0123456789'', vmi_status = Vmi_running,
       vmi_spec = \<lparr>CPU = ''4'', Memory = ''8Gi''\<rparr>, vmi_dataplane = ''none''\<rparr>]\<rparr>"

lemma live_in_use: "in_use sample_env live_session"
  using sample_in_use by (simp add: live_session_def)

lemma found_single: "find (\<lambda>x. ls_name x = ls_name l) (crs (kube (single l c))) = Some l"
  by simp

lemma live_id: "sessionID (ls_spec live_session) = ''0123456789''"
  by (simp add: live_session_def sess_def sample_session_def new_session_def)

lemma saved_owned: "owned live_session saved_cluster"
  using live_names live_id by (simp add: owned_def saved_cluster_def live_cluster_def empty_cluster_def)

lemma saving_names: "ls_name saving_session = ''0123456789''" "resourceName saving_session = ''lab-01234567''"
  using live_names by (simp_all add: saving_session_def)

theorem disk_deleted_only_when_saved_witness:
  "snapshot_ok ''lab-01234567-snap''
     (vms (snd (reconcile (kubevirt sample_config) sample_env ''0123456789'' (single saving_session saved_cluster))))"
proof -
  let ?w = "single saving_session saved_cluster"
  have u: "in_use sample_env saving_session" using live_in_use by (simp add: saving_session_def)
  have p: "reconcile (kubevirt sample_config) sample_env ''0123456789'' ?w =
      (Inr No_requeue, single (sess live_session True Paused ''lab-01234567-snap'' [] [])
        (saved_cluster\<lparr>volumes := (volumes saved_cluster)(''lab-01234567'' := None)\<rparr>))"
    using reconcile_single [of "kubevirt sample_config" sample_env saving_session saved_cluster] saving_names
      pause_phase_2 [OF u, of "''lab-01234567-snap''" saved_cluster
        "\<lparr>snap_content = Some ''work'', snap_ready = True\<rparr>" sample_config]
    by (simp add: saving_session_def saved_cluster_def live_cluster_def empty_cluster_def)
  have "ls_deleting saving_session \<or> is_expired sample_env saving_session \<or>
    (paused (ls_spec saving_session) \<and> snapshotName (ls_status saving_session) \<noteq> [] \<and>
     snapshot_ok (snapshotName (ls_status saving_session))
       (vms (snd (reconcile (kubevirt sample_config) sample_env ''0123456789'' ?w))))"
  proof (rule disk_deleted_only_when_saved)
    show "find (\<lambda>x. ls_name x = ''0123456789'') (crs (kube ?w)) = Some saving_session"
      using saving_names by simp
    show "disk_of saving_session (vms ?w)"
      using saving_names by (simp add: disk_of_def saved_cluster_def live_cluster_def)
    show "\<not> disk_of saving_session (vms (snd (reconcile (kubevirt sample_config) sample_env ''0123456789'' ?w)))"
      unfolding p using saving_names by (simp add: disk_of_def)
  qed
  then show ?thesis using u by (simp add: in_use_def) (simp add: saving_session_def)
qed

definition deleted_session :: lab_session where
  "deleted_session = live_session\<lparr>ls_deleting := True\<rparr>"

theorem gone_only_after_teardown_witness:
  "\<not> compute_of deleted_session
     (vms (snd (reconcile (kubevirt sample_config) sample_env ''0123456789'' (single deleted_session saved_cluster))))"
proof -
  let ?w = "single deleted_session saved_cluster"
  let ?r = "reconcile (kubevirt sample_config) sample_env ''0123456789'' ?w"
  have n: "ls_name deleted_session = ''0123456789''" "finalizer \<in> set (ls_finalizers deleted_session)"
    "ls_deleting deleted_session"
    using live_names live_in_use by (simp_all add: deleted_session_def in_use_def)
  have c: "cfaults saved_cluster = []" by (simp add: saved_cluster_def live_cluster_def empty_cluster_def)
  have r: "?r = rec_deleted (kubevirt sample_config) deleted_session ?w"
    using reconcile_single [of "kubevirt sample_config" sample_env deleted_session saved_cluster] n
    by (simp add: rec_session_def)
  have t: "on_vms (pr_teardown (kubevirt sample_config) deleted_session) ?w =
      (Inr (), single deleted_session (snd (Teardown deleted_session saved_cluster)))"
    by (rule on_vms_single) (simp add: kubevirt_def Teardown_def TeardownCompute_def TeardownDisk_def andthen_def
        delete_vmi_def delete_netpol_def delete_service_def delete_volume_def DeleteSnapshot_def give_def c)
  have "fst ?r = Inr No_requeue"
    using n by (simp add: r rec_deleted_def andthen_def t update_finalizers_def on_kube_def cr_patch_def give_def)
  then have "?r = (Inr No_requeue, snd ?r)" by (simp add: prod_eq_iff)
  then show ?thesis
    using gone_only_after_teardown [of "''0123456789''" ?w deleted_session sample_env sample_config] n
    by (auto split: prod.splits)
qed

theorem ready_only_after_probe_witness:
  "probe sample_env (serviceDNS_of sample_config ''lab-01234567'')"
proof -
  let ?l = "sess live_session False Running [] [] []"
  let ?w = "single ?l saved_cluster"
  have c: "cfaults saved_cluster = []" by (simp add: saved_cluster_def live_cluster_def empty_cluster_def)
  have o: "owned ?l saved_cluster"
    using saved_owned by simp
  have s: "serves sample_config ?l" "in_use sample_env ?l"
    using live_settled by (simp_all add: settled_def)
  obtain c' where 1: "vmis c' = vmis saved_cluster"
    "\<And>r. r = vm_result sample_config (resourceName live_session) (vmis c' (resourceName live_session)) \<Longrightarrow>
       pl_step sample_config (ls_name live_session) (plat ?l saved_cluster Map.empty) (Pl_reconcile sample_env) =
       plat (sess live_session False (ready_phase sample_env r) [] (r_serviceDNS r) (r_message r)) c' Map.empty"
    by (rule converge_step [of sample_env live_session Running sample_config saved_cluster "[]" "[]" "[]" Map.empty])
      (use s o c live_names in \<open>simp_all add: saved_cluster_def\<close>)
  have "pl_step sample_config ''0123456789'' (plat ?l saved_cluster Map.empty) (Pl_reconcile sample_env) =
      plat (sess live_session False Ready [] (serviceDNS_of sample_config ''lab-01234567'') []) c' Map.empty"
    using 1(2) [OF refl] live_names 1(1)
    by (simp add: saved_cluster_def vm_result_def ready_phase_def serviceDNS_of_def sample_env_def)
  then have w: "snd (reconcile (kubevirt sample_config) sample_env ''0123456789'' ?w) =
      single (sess live_session False Ready [] (serviceDNS_of sample_config ''lab-01234567'') []) c'"
    by (simp add: pl_step_def Let_def)
  show ?thesis
    using ready_only_after_probe [of ?w "''0123456789''" ?l sample_config sample_env
        "sess live_session False Ready [] (serviceDNS_of sample_config ''lab-01234567'') []"] w live_names by simp
qed

theorem called_again_witness:
  "\<exists>q t. fst (reconcile (kubevirt sample_config) sample_env ''0123456789'' (single live_session live_cluster)) = Inr q \<and>
     q = Requeue_after t \<and> 1 \<le> t"
proof -
  have s: "serves sample_config live_session" "owned live_session live_cluster" "cfaults live_cluster = []"
    using live_settled by (simp_all add: settled_def)
  obtain g sp u where R: "Reconcile sample_config live_session live_cluster =
      (Inr (vm_result sample_config (resourceName live_session)
        (vmis (converged sample_config live_session g sp u live_cluster) (resourceName live_session))),
       converged sample_config live_session g sp u live_cluster)"
    by (rule Reconcile_serves [OF s])
  have f: "cfaults (converged sample_config live_session g sp u live_cluster) = []" using s(3) by simp
  have l: "converging live_session" "\<not> paused (ls_spec live_session)"
    by (simp_all add: live_session_def)
  obtain q w' where "rec_session (kubevirt sample_config) sample_env live_session (single live_session live_cluster) = (Inr q, w')"
    using converge_single [OF live_in_use l(1) R f] by blast
  then have q: "reconcile (kubevirt sample_config) sample_env ''0123456789'' (single live_session live_cluster) = (Inr q, w')"
    using reconcile_single [of "kubevirt sample_config" sample_env live_session live_cluster] live_names(2) by simp
  have "\<exists>t. q = Requeue_after t \<and> 1 \<le> t \<and>
    (t \<le> 60 \<or> (case expiresAt (ls_spec live_session) of None \<Rightarrow> False | Some x \<Rightarrow> later sample_env + t = x))"
    by (rule called_again [OF _ q]) (use live_in_use live_names l in \<open>simp_all add: in_use_def\<close>)
  then show ?thesis using q by auto
qed

theorem paused_not_called_again_witness:
  "reconcile (kubevirt sample_config) sample_env ''0123456789''
     (single (sess live_session True Paused ''lab-01234567-snap'' [] []) saved_cluster) =
   (Inr No_requeue, single (sess live_session True Paused ''lab-01234567-snap'' [] []) saved_cluster)"
proof (rule paused_not_called_again)
  let ?l = "sess live_session True Paused ''lab-01234567-snap'' [] []"
  have "in_use sample_env ?l" using live_in_use by simp
  then show "\<not> ls_deleting ?l" "finalizer \<in> set (ls_finalizers ?l)" "\<not> is_expired sample_env ?l"
    unfolding in_use_def by blast+
qed (use live_names in simp_all)

end
