(* ===== verification/Vm_Files.thy ===== *)
theory Vm_Files
  imports Ide_Tree "HOL-Library.AList" "HOL-Library.Product_Lexorder" "HOL-Library.List_Lexorder"
    "HOL-Library.Char_ord" "HOL-Library.Sublist" "HOL-Library.Multiset"
begin

text \<open>
  The file service in the VM: the \<^verbatim>\<open>/files\<close> branches of \<^verbatim>\<open>do_GET\<close> and \<^verbatim>\<open>do_PUT\<close> of
  \<^verbatim>\<open>vm/lab-inject.py\<close>, with what they use of \<^verbatim>\<open>os.path\<close> and of the kernel's path lookup.

  A file system lists its paths, each the names from the root down, with what is there; the
  root itself is always a directory, and the working directory of the service. The order of
  the list is the order \<^verbatim>\<open>os.listdir\<close> happens to give. \<^verbatim>\<open>realpath\<close> follows \<open>n\<close> links, any number
  the caller chooses, and takes what needs more for a loop; the kernel follows 40. The
  service runs as root, so permissions never refuse; the disk is never full and nothing else
  writes to it during a request. Paths with NUL characters are left out.
\<close>

section \<open>The file system\<close>

datatype node = File string | Dir | Link string

type_synonym path = "string list"

type_synonym fs = "(path \<times> node) list"

definition lookup :: "fs \<Rightarrow> path \<Rightarrow> node option" where
  "lookup f p = (if p = [] then Some Dir else map_of f p)"

definition link_at :: "fs \<Rightarrow> path \<Rightarrow> string option" where
  "link_at f p = (case lookup f p of Some (Link t) \<Rightarrow> Some t | _ \<Rightarrow> None)"

text \<open>
  Following \<open>rest\<close> from the directory \<open>p\<close>: the path reached, and what is left when a link is met
  that may not be followed any more. The kernel (\<open>strict\<close>) also stops where it is not in a
  directory; \<^verbatim>\<open>realpath\<close> goes on.
\<close>

function walk :: "bool \<Rightarrow> nat \<Rightarrow> fs \<Rightarrow> path \<Rightarrow> string list \<Rightarrow> path \<times> string list" where
  "walk strict n f p [] = (p, [])"
| "walk strict n f p (c # cs) =
     (if strict \<and> lookup f p \<noteq> Some Dir then (p, c # cs)
      else if c = [] \<or> c = ''.'' then walk strict n f p cs
      else if c = ''..'' then walk strict n f (butlast p) cs
      else (case link_at f (p @ [c]) of
              None \<Rightarrow> walk strict n f (p @ [c]) cs
            | Some t \<Rightarrow>
                (case n of
                   0 \<Rightarrow> (p, c # cs)
                 | Suc m \<Rightarrow>
                     walk strict m f (if starts_with ''/'' t then [] else p)
                       (split_on (CHR ''/'') t @ cs))))"
  by pat_completeness auto
termination
  by (relation "measures [\<lambda>(b, n, f, p, cs). n, \<lambda>(b, n, f, p, cs). length cs]") simp_all

declare walk.simps(2) [simp del]

text \<open>\<^verbatim>\<open>normpath\<close> of an absolute path.\<close>

fun norm_path :: "path \<Rightarrow> string list \<Rightarrow> path" where
  "norm_path p [] = p"
| "norm_path p (c # cs) =
     (if c = [] \<or> c = ''.'' then norm_path p cs
      else if c = ''..'' then norm_path (butlast p) cs
      else norm_path (p @ [c]) cs)"

text \<open>
  \<^verbatim>\<open>os.path.realpath\<close>: at a loop of links it stops resolving and only normalises the rest.
\<close>

definition realpath :: "nat \<Rightarrow> fs \<Rightarrow> string \<Rightarrow> path" where
  "realpath n f s =
     (case walk False n f [] (split_on (CHR ''/'') s) of (p, rest) \<Rightarrow> norm_path p rest)"

definition resolves :: "nat \<Rightarrow> fs \<Rightarrow> string \<Rightarrow> bool" where
  "resolves n f s \<longleftrightarrow> snd (walk False n f [] (split_on (CHR ''/'') s)) = []"

definition path_str :: "path \<Rightarrow> string" where
  "path_str p = (if p = [] then ''/'' else concat (map (\<lambda>c. CHR ''/'' # c) p))"

text \<open>What the kernel finds at a path.\<close>

definition kernel_walk :: "fs \<Rightarrow> path \<Rightarrow> path \<times> string list" where
  "kernel_walk f p = walk True 40 f [] p"

definition stat_of :: "fs \<Rightarrow> path \<Rightarrow> node option" where
  "stat_of f p = (case kernel_walk f p of (q, rest) \<Rightarrow> if rest = [] then lookup f q else None)"

definition isdir :: "fs \<Rightarrow> path \<Rightarrow> bool" where
  "isdir f p \<longleftrightarrow> stat_of f p = Some Dir"

definition listdir :: "fs \<Rightarrow> path \<Rightarrow> string list" where
  "listdir f p =
     (let q = fst (kernel_walk f p)
      in map last (filter (\<lambda>k. k \<noteq> [] \<and> butlast k = q) (map fst f)))"

text \<open>
  \<^verbatim>\<open>os.makedirs(p, exist_ok=True)\<close>, from the root down; an error leaves what it made before.
\<close>

fun makedirs :: "fs \<Rightarrow> path \<Rightarrow> string list \<Rightarrow> bool \<times> fs" where
  "makedirs f p [] = (True, f)"
| "makedirs f p (c # cs) =
     (if isdir f (p @ [c]) then makedirs f (p @ [c]) cs
      else (let q = fst (kernel_walk f p) @ [c]
            in if lookup f q \<noteq> None then (False, f)
               else makedirs (AList.update q Dir f) (p @ [c]) cs))"

text \<open>\<^verbatim>\<open>open(p, 'wb')\<close> and the write.\<close>

definition write_file :: "fs \<Rightarrow> path \<Rightarrow> string \<Rightarrow> fs option" where
  "write_file f p content =
     (case kernel_walk f p of (q, rest) \<Rightarrow>
        if rest \<noteq> [] \<or> lookup f q = Some Dir then None
        else Some (AList.update q (File content) f))"

section \<open>The handlers\<close>

datatype response = Code nat | Listing "entry list" | Content string

definition entry_at :: "fs \<Rightarrow> path \<Rightarrow> string \<Rightarrow> entry" where
  "entry_at f p name =
     \<lparr>e_name = name, e_path = path_str (p @ [name]),
      e_type = (if isdir f (p @ [name]) then ''dir'' else ''file'')\<rparr>"

definition entry_key :: "entry \<Rightarrow> bool \<times> string" where
  "entry_key e = (e_type e = ''file'', lower (e_name e))"

definition get_files :: "nat \<Rightarrow> fs \<Rightarrow> string \<Rightarrow> response" where
  "get_files n f s =
     (let p = realpath n f s
      in if \<not> starts_with ''/root'' (path_str p) then Code 403
         else (case stat_of f p of
                 Some Dir \<Rightarrow> Listing (sort_key entry_key (map (entry_at f p) (listdir f p)))
               | Some (File c) \<Rightarrow> Content c
               | _ \<Rightarrow> Code 404))"

definition put_files :: "nat \<Rightarrow> fs \<Rightarrow> string \<Rightarrow> string \<Rightarrow> nat \<times> fs" where
  "put_files n f s content =
     (let p = realpath n f s
      in if \<not> starts_with ''/root'' (path_str p) then (403, f)
         else (case makedirs f [] (butlast p) of
                 (False, f1) \<Rightarrow> (500, f1)
               | (True, f1) \<Rightarrow>
                   (case write_file f1 p content of None \<Rightarrow> (500, f1) | Some f2 \<Rightarrow> (200, f2))))"

section \<open>Paths without links\<close>

definition proper :: "string \<Rightarrow> bool" where
  "proper c \<longleftrightarrow> c \<noteq> [] \<and> c \<noteq> ''.'' \<and> c \<noteq> ''..'' \<and> CHR ''/'' \<notin> set c"

definition wf_fs :: "fs \<Rightarrow> bool" where
  "wf_fs f \<longleftrightarrow>
     distinct (map fst f) \<and>
     list_all (\<lambda>(p, x). p \<noteq> [] \<and> list_all proper p \<and> lookup f (butlast p) = Some Dir) f"

fun real_from :: "fs \<Rightarrow> path \<Rightarrow> string list \<Rightarrow> bool" where
  "real_from f p [] = True"
| "real_from f p (c # cs) = (proper c \<and> link_at f (p @ [c]) = None \<and> real_from f (p @ [c]) cs)"

abbreviation real :: "fs \<Rightarrow> path \<Rightarrow> bool" where
  "real f \<equiv> real_from f []"

fun dirs_from :: "fs \<Rightarrow> path \<Rightarrow> string list \<Rightarrow> bool" where
  "dirs_from f p [] = True"
| "dirs_from f p (c # cs) = (lookup f p = Some Dir \<and> dirs_from f (p @ [c]) cs)"

lemma real_from_append: "real_from f p (cs @ ds) \<longleftrightarrow> real_from f p cs \<and> real_from f (p @ cs) ds"
  by (induction cs arbitrary: p) auto

lemma dirs_from_append: "dirs_from f p (cs @ ds) \<longleftrightarrow> dirs_from f p cs \<and> dirs_from f (p @ cs) ds"
  by (induction cs arbitrary: p) auto

lemma real_snoc [simp]: "real f (p @ [c]) \<longleftrightarrow> real f p \<and> proper c \<and> link_at f (p @ [c]) = None"
  by (simp add: real_from_append)

lemma real_butlast: "real f p \<Longrightarrow> real f (butlast p)"
  by (cases p rule: rev_cases) simp_all

lemma link_at_Nil [simp]: "link_at f [] = None"
  by (simp add: link_at_def lookup_def)

lemma real_no_link: "real f p \<Longrightarrow> link_at f p = None"
  by (cases p rule: rev_cases) simp_all

lemma walk_step:
  "proper c \<Longrightarrow> link_at f (p @ [c]) = None \<Longrightarrow> (strict \<Longrightarrow> lookup f p = Some Dir) \<Longrightarrow>
   walk strict n f p (c # cs) = walk strict n f (p @ [c]) cs"
  by (auto simp: proper_def walk.simps(2))

lemma walk_of_real:
  "real_from f p cs \<Longrightarrow> (strict \<Longrightarrow> dirs_from f p cs) \<Longrightarrow> walk strict n f p cs = (p @ cs, [])"
  by (induction cs arbitrary: p) (simp_all add: walk_step)

lemma kernel_walk_real: "real f p \<Longrightarrow> dirs_from f [] p \<Longrightarrow> kernel_walk f p = (p, [])"
  by (simp add: kernel_walk_def walk_of_real)

text \<open>Whatever a lookup reaches without a loop is real, and names stay free of separators.\<close>

definition free :: "string list \<Rightarrow> bool" where
  "free cs \<longleftrightarrow> list_all (\<lambda>c. CHR ''/'' \<notin> set c) cs"

lemma free_split [simp]: "free (split_on (CHR ''/'') s)"
  using split_on_parts_free by (fastforce simp: free_def list_all_iff)

lemma free_simps [simp]: "free []" "free (c # cs) \<longleftrightarrow> CHR ''/'' \<notin> set c \<and> free cs"
  "free (cs @ ds) \<longleftrightarrow> free cs \<and> free ds"
  by (auto simp: free_def)

lemma free_butlast: "free p \<Longrightarrow> free (butlast p)"
  by (cases p rule: rev_cases) simp_all

lemma walk_real:
  "real f p \<Longrightarrow> free cs \<Longrightarrow> walk strict n f p cs = (q, []) \<Longrightarrow> real f q"
proof (induction strict n f p cs rule: walk.induct)
  case (2 strict n f p c cs)
  then show ?case
    using real_butlast [of f p]
    by (cases n) (auto simp: walk.simps(2) proper_def split: if_splits option.splits)
qed simp

lemma walk_free:
  "free p \<Longrightarrow> free cs \<Longrightarrow> walk strict n f p cs = (q, rest) \<Longrightarrow> free q \<and> free rest"
proof (induction strict n f p cs rule: walk.induct)
  case (2 strict n f p c cs)
  then show ?case
    using free_butlast [of p]
    by (cases n) (auto simp: walk.simps(2) split: if_splits option.splits)
qed simp

lemma norm_path_free: "free p \<Longrightarrow> free cs \<Longrightarrow> free (norm_path p cs)"
  by (induction p cs rule: norm_path.induct) (auto simp: free_butlast)

lemma realpath_free: "free (realpath n f s)"
  by (auto simp: realpath_def split: prod.split intro!: norm_path_free dest!: walk_free [rotated 2])

lemma realpath_real: "resolves n f s \<Longrightarrow> real f (realpath n f s)"
  using walk_real [of f "[]" "split_on (CHR ''/'') s" False n]
  by (auto simp: realpath_def resolves_def split: prod.split)

section \<open>What a request leaves in place\<close>

text \<open>A lookup depends on the links, and in the kernel on the directories.\<close>

lemma walk_cong:
  "link_at f' = link_at f \<Longrightarrow> strict \<longrightarrow> (\<forall>x. lookup f' x = Some Dir \<longleftrightarrow> lookup f x = Some Dir) \<Longrightarrow>
   walk strict n f' p cs = walk strict n f p cs"
proof (induction strict n f p cs rule: walk.induct)
  case (2 strict n f p c cs)
  then show ?case
    by (cases n) (auto simp: walk.simps(2) split: option.splits)
qed simp

lemma lookup_update:
  "q \<noteq> [] \<Longrightarrow> lookup (AList.update q x f) p = (if p = q then Some x else lookup f p)"
  by (simp add: lookup_def update_conv')

lemma link_at_update:
  "q \<noteq> [] \<Longrightarrow> link_at f q = None \<Longrightarrow> \<forall>t. x \<noteq> Link t \<Longrightarrow> link_at (AList.update q x f) = link_at f"
  by (rule ext) (auto simp: link_at_def lookup_update split: option.splits node.splits)

lemma makedirs_links: "makedirs f p cs = (b, f1) \<Longrightarrow> link_at f1 = link_at f"
proof (induction f p cs rule: makedirs.induct)
  case (2 f p c cs)
  have "lookup f (fst (kernel_walk f p) @ [c]) = None \<Longrightarrow>
    link_at (AList.update (fst (kernel_walk f p) @ [c]) Dir f) = link_at f"
    by (rule link_at_update) (simp_all add: link_at_def)
  then show ?case
    using 2 by (auto simp: Let_def split: if_splits)
qed simp

lemma realpath_cong: "link_at f' = link_at f \<Longrightarrow> realpath n f' s = realpath n f s"
  using walk_cong [of f' f False] by (simp add: realpath_def)

section \<open>Writing\<close>

lemma write_file_SomeD:
  assumes "write_file f p content = Some f2" and "free p"
  obtains q where "kernel_walk f p = (q, [])" "q \<noteq> []" "lookup f q \<noteq> Some Dir" "link_at f q = None"
    "f2 = AList.update q (File content) f"
proof -
  obtain q where q: "kernel_walk f p = (q, [])" "lookup f q \<noteq> Some Dir"
    "f2 = AList.update q (File content) f"
    using assms(1) by (auto simp: write_file_def split: prod.splits if_splits)
  moreover have "q \<noteq> []"
    using q(2) by (auto simp: lookup_def)
  moreover have "link_at f q = None"
    using q(1) walk_real [of f "[]" p True 40 q] assms(2) by (simp add: kernel_walk_def real_no_link)
  ultimately show thesis
    using that by blast
qed

lemma write_file_stat:
  assumes "write_file f p content = Some f2" and "free p"
  shows "link_at f2 = link_at f" and "stat_of f2 p = Some (File content)"
proof -
  obtain q where q: "kernel_walk f p = (q, [])" "q \<noteq> []" "lookup f q \<noteq> Some Dir" "link_at f q = None"
    "f2 = AList.update q (File content) f"
    using assms by (rule write_file_SomeD)
  show l: "link_at f2 = link_at f"
    using q by (simp add: link_at_update)
  have "kernel_walk f2 p = kernel_walk f p"
    unfolding kernel_walk_def using l q by (intro walk_cong) (simp_all add: lookup_update)
  then show "stat_of f2 p = Some (File content)"
    using q by (simp add: stat_of_def lookup_update)
qed

lemma put_files_200:
  assumes "put_files n f s content = (200, f')"
  obtains f1 where "makedirs f [] (butlast (realpath n f s)) = (True, f1)"
    "write_file f1 (realpath n f s) content = Some f'" "starts_with ''/root'' (path_str (realpath n f s))"
  using assms that by (auto simp: put_files_def Let_def split: if_splits prod.splits bool.splits option.splits)

text \<open>
  C31: A write that the service answered with 200 is read back: the next request for the same
  path string returns exactly the bytes written, whatever links and missing directories the
  path goes through.
\<close>

theorem put_then_get:
  assumes "put_files n f s content = (200, f')"
  shows "get_files n f' s = Content content"
proof -
  obtain f1 where f1: "makedirs f [] (butlast (realpath n f s)) = (True, f1)"
    "write_file f1 (realpath n f s) content = Some f'"
    "starts_with ''/root'' (path_str (realpath n f s))"
    using assms by (rule put_files_200)
  have "realpath n f' s = realpath n f s"
    using makedirs_links [OF f1(1)] write_file_stat(1) [OF f1(2) realpath_free]
    by (intro realpath_cong) simp
  then show ?thesis
    using f1(3) write_file_stat(2) [OF f1(2) realpath_free] by (simp add: get_files_def)
qed

text \<open>What a write changes, when the path has no loop of links.\<close>

lemma link_at_dir: "lookup f p = Some Dir \<Longrightarrow> link_at f p = None"
  by (simp add: link_at_def)

lemma dirs_from_update:
  "lookup f q = None \<Longrightarrow> q \<noteq> [] \<Longrightarrow> dirs_from f p cs \<Longrightarrow> dirs_from (AList.update q Dir f) p cs"
  by (induction cs arbitrary: p) (auto simp: lookup_update)

lemma isdir_real: "real f p \<Longrightarrow> dirs_from f [] p \<Longrightarrow> isdir f p \<longleftrightarrow> lookup f p = Some Dir"
  by (simp add: isdir_def stat_of_def kernel_walk_real)

lemma makedirs_real:
  assumes "makedirs f p cs = (b, f1)" and "real_from f p cs" and "real f p" and "dirs_from f [] p"
    and "lookup f p = Some Dir"
  shows "(\<forall>x. lookup f1 x \<noteq> lookup f x \<longrightarrow>
            strict_prefix p x \<and> prefix x (p @ cs) \<and> lookup f x = None \<and> lookup f1 x = Some Dir) \<and>
         (b \<longrightarrow> dirs_from f1 [] (p @ cs) \<and> lookup f1 (p @ cs) = Some Dir)"
  using assms
proof (induction f p cs rule: makedirs.induct)
  case (2 f p c cs)
  note prems = 2(3-)
  have real: "real f (p @ [c])" and dirs: "dirs_from f [] (p @ [c])"
    using prems by (simp_all add: dirs_from_append)
  have step: "strict_prefix (p @ [c]) x \<Longrightarrow> strict_prefix p x" for x
    by (auto simp: strict_prefix_def prefix_def)
  show ?case
  proof (cases "isdir f (p @ [c])")
    case True
    then have "lookup f (p @ [c]) = Some Dir"
      using isdir_real [OF real dirs] by simp
    then show ?thesis
      using 2(1) [OF True] prems True real dirs step by simp
  next
    case False
    have q: "fst (kernel_walk f p) = p"
      using prems by (simp add: kernel_walk_real)
    show ?thesis
    proof (cases "lookup f (p @ [c])")
      case (Some x)
      then show ?thesis
        using prems(1) False q by (simp add: Let_def)
    next
      case None
      let ?g = "AList.update (p @ [c]) Dir f"
      have links: "link_at ?g = link_at f"
        using None by (intro link_at_update) (simp_all add: link_at_def)
      have real_g: "real_from ?g a xs = real_from f a xs" for a xs
        by (induction xs arbitrary: a) (simp_all add: links)
      have "makedirs ?g (p @ [c]) cs = (b, f1)"
        using prems(1) False q None by (simp add: Let_def)
      then have IH: "(\<forall>x. lookup f1 x \<noteq> lookup ?g x \<longrightarrow>
          strict_prefix (p @ [c]) x \<and> prefix x ((p @ [c]) @ cs) \<and> lookup ?g x = None \<and>
          lookup f1 x = Some Dir) \<and>
        (b \<longrightarrow> dirs_from f1 [] ((p @ [c]) @ cs) \<and> lookup f1 ((p @ [c]) @ cs) = Some Dir)"
        using 2(2) [OF False refl] q None prems(2-) real dirs
        by (simp add: real_g links dirs_from_update lookup_update [of "p @ [c]" _ f "p @ [c]"])
      have "lookup f1 x \<noteq> lookup f x \<Longrightarrow> strict_prefix p x \<and> prefix x (p @ c # cs) \<and>
        lookup f x = None \<and> lookup f1 x = Some Dir" for x
      proof (cases "x = p @ [c]")
        case True
        then show ?thesis
          using conjunct1 [OF IH, THEN spec, of x] None by (auto simp: lookup_update strict_prefix_def)
      next
        case x: False
        assume "lookup f1 x \<noteq> lookup f x"
        then show ?thesis
          using conjunct1 [OF IH, THEN spec, of x] x step [of x] by (simp add: lookup_update)
      qed
      then show ?thesis
        using conjunct2 [OF IH] by simp
    qed
  qed
qed simp

lemma path_str_root:
  assumes "starts_with ''/root'' (path_str p)" and "free p"
  shows "p \<noteq> [] \<and> starts_with ''root'' (hd p)"
proof (cases p)
  case Nil
  then show ?thesis
    using assms by (simp add: path_str_def starts_with_def)
next
  case (Cons c cs)
  define r where "r = concat (map (\<lambda>c. CHR ''/'' # c) cs)"
  have r: "r = [] \<or> hd r = CHR ''/''"
    unfolding r_def by (cases cs) auto
  have "take 4 (c @ r) = ''root''"
    using assms(1) Cons by (simp add: path_str_def starts_with_def r_def eval_nat_numeral)
  then have split: "take 4 c @ take (4 - length c) r = ''root''"
    by simp
  have "take (4 - length c) r = []"
  proof (rule ccontr)
    assume "take (4 - length c) r \<noteq> []"
    then have "CHR ''/'' \<in> set (take (4 - length c) r)"
      using r by (cases r; cases "4 - length c") auto
    then have "CHR ''/'' \<in> set (take 4 c @ take (4 - length c) r)"
      by simp
    also have "take 4 c @ take (4 - length c) r = ''root''"
      by (rule split)
    finally show False
      by simp
  qed
  then have "take 4 c = ''root''"
    using split by (simp only: append_Nil2)
  then show ?thesis
    using Cons by (simp add: starts_with_def eval_nat_numeral)
qed

text \<open>
  C24: A write stays where it belongs: unless the path has a loop of links, a request that is not
  refused changes nothing but the file that the path resolves to, which gets the content, and
  missing directories above it, which are made; all of them are below a directory of the
  root whose name begins with \<^verbatim>\<open>root\<close>. A refused one changes nothing.
\<close>

theorem put_confined:
  assumes "resolves n f s" and "put_files n f s content = (code, f')" and "lookup f' x \<noteq> lookup f x"
  shows "code \<noteq> 403 \<and> x \<noteq> [] \<and> starts_with ''root'' (hd x) \<and> prefix x (realpath n f s) \<and>
    (lookup f x = None \<and> lookup f' x = Some Dir \<or>
     x = realpath n f s \<and> code = 200 \<and> lookup f' x = Some (File content))"
proof -
  define p where "p = realpath n f s"
  have root: "starts_with ''/root'' (path_str p)"
    using assms by (auto simp: put_files_def p_def Let_def split: if_splits)
  then have p: "p \<noteq> []" "starts_with ''root'' (hd p)"
    using path_str_root [of p] realpath_free [of n f s] by (simp_all add: p_def)
  have real: "real f p"
    using assms(1) p_def realpath_real by simp
  obtain b f1 where f1: "makedirs f [] (butlast p) = (b, f1)"
    by (cases "makedirs f [] (butlast p)")
  have real1: "real_from f1 a xs = real_from f a xs" for a xs
    by (induction xs arbitrary: a) (simp_all add: makedirs_links [OF f1])
  have mk: "(\<forall>x. lookup f1 x \<noteq> lookup f x \<longrightarrow>
      x \<noteq> [] \<and> prefix x (butlast p) \<and> lookup f x = None \<and> lookup f1 x = Some Dir) \<and>
    (b \<longrightarrow> dirs_from f1 [] (butlast p) \<and> lookup f1 (butlast p) = Some Dir)"
    using makedirs_real [OF f1 real_butlast [OF real]] by (simp add: lookup_def)
  have below: "prefix x p \<and> hd x = hd p" if "x \<noteq> []" "prefix x (butlast p)" for x
    using that prefix_order.order_trans [OF that(2) prefixeq_butlast] by (auto simp: prefix_def)
  have walk1: "kernel_walk f1 p = (p, [])" if b
  proof (rule kernel_walk_real)
    show "real f1 p"
      using real real1 by simp
    show "dirs_from f1 [] p"
      using mk that p(1) dirs_from_append [of f1 "[]" "butlast p" "[last p]"] by simp
  qed
  consider (made) "\<not> b" "code = 500" "f' = f1" | (failed) b "code = 500" "f' = f1"
    | (written) b "code = 200" "f' = AList.update p (File content) f1"
    using assms(2) root f1 walk1
    by (auto simp: put_files_def write_file_def p_def [symmetric] Let_def split: if_splits bool.splits option.splits)
  then show ?thesis
  proof cases
    case written
    show ?thesis
      using assms(3) written mk p below [of x] by (cases "x = p") (auto simp: lookup_update p_def [symmetric])
  qed (use assms(3) mk p below [of x] in \<open>auto simp: p_def [symmetric]\<close>)
qed

section \<open>Listing\<close>

lemma split_path_str: "p \<noteq> [] \<Longrightarrow> free p \<Longrightarrow> split_on (CHR ''/'') (path_str p) = [] # p"
proof (induction p)
  case (Cons c cs)
  then show ?case
  proof (cases cs)
    case Nil
    then show ?thesis
      using Cons by (simp add: path_str_def split_on_free)
  next
    case (Cons d ds)
    then have "split_on (CHR ''/'') (concat (map (\<lambda>c. CHR ''/'' # c) cs)) = [] # cs"
      using Cons.IH Cons.prems by (simp add: path_str_def)
    then show ?thesis
      using Cons.prems Cons split_on_append_sep [of "CHR ''/''" c] by (simp add: path_str_def split_on_free)
  qed
qed simp

lemma real_free: "real_from f p cs \<Longrightarrow> free cs"
  by (induction cs arbitrary: p) (auto simp: proper_def)

lemma path_string_real: "real f p \<Longrightarrow> realpath n f (path_str p) = p"
proof (cases "p = []")
  case True
  have "split_on (CHR ''/'') ''/'' = [[], []]"
    by simp
  then show ?thesis
    using True by (simp add: realpath_def path_str_def walk.simps)
next
  case False
  assume "real f p"
  then show ?thesis
    using False walk_of_real [of f "[]" p False n]
    by (simp add: realpath_def split_path_str real_free walk.simps)
qed

lemma wf_lookup:
  assumes "wf_fs f" and "lookup f p = Some x" and "p \<noteq> []"
  shows "list_all proper p" and "lookup f (butlast p) = Some Dir"
  using assms by (auto simp: wf_fs_def lookup_def list_all_iff dest!: map_of_SomeD)

lemma wf_parents: "wf_fs f \<Longrightarrow> lookup f p \<noteq> None \<Longrightarrow> real f (butlast p) \<and> dirs_from f [] p"
proof (induction p rule: rev_induct)
  case (snoc c p)
  then have "lookup f p = Some Dir"
    using wf_lookup(2) [of f "p @ [c]"] by auto
  then have "real f (butlast p) \<and> dirs_from f [] p" "p \<noteq> [] \<Longrightarrow> proper (last p)" "link_at f p = None"
    using snoc wf_lookup(1) [of f p] by (auto simp: list_all_iff link_at_dir)
  then show ?case
    using \<open>lookup f p = Some Dir\<close> by (cases p rule: rev_cases) (auto simp: dirs_from_append butlast_append)
qed simp

lemma wf_real: "wf_fs f \<Longrightarrow> lookup f p \<noteq> None \<Longrightarrow> link_at f p = None \<Longrightarrow> real f p"
  using wf_parents [of f p] wf_lookup(1) [of f p] by (cases p rule: rev_cases) auto

lemma walk_strict_real:
  "real_from f p cs \<Longrightarrow> walk True n f p cs = (q, []) \<Longrightarrow> q = p @ cs"
proof (induction cs arbitrary: p)
  case (Cons c cs)
  then have "lookup f p = Some Dir"
    by (auto simp: walk.simps(2) split: if_splits)
  then show ?case
    using Cons.IH [of "p @ [c]"] Cons.prems by (simp add: walk_step)
qed simp

lemma stat_real: "wf_fs f \<Longrightarrow> real f p \<Longrightarrow> stat_of f p = lookup f p"
proof (cases "lookup f p")
  case None
  assume "real f p"
  then have "snd (kernel_walk f p) = [] \<Longrightarrow> fst (kernel_walk f p) = p"
    using walk_strict_real [of f "[]" p 40 "fst (kernel_walk f p)"]
    by (cases "kernel_walk f p") (simp add: kernel_walk_def)
  then show ?thesis
    using None by (auto simp: stat_of_def split: prod.split)
next
  case (Some x)
  assume "wf_fs f" "real f p"
  then have "kernel_walk f p = (p, [])"
    using wf_parents [of f p] Some by (simp add: kernel_walk_real)
  then show ?thesis
    by (simp add: stat_of_def)
qed

lemma get_files_real:
  assumes "wf_fs f" and "real f p" and "starts_with ''/root'' (path_str p)"
  shows "get_files n f (path_str p) =
    (case lookup f p of
       Some Dir \<Rightarrow> Listing (sort_key entry_key (map (entry_at f p) (listdir f p)))
     | Some (File c) \<Rightarrow> Content c
     | _ \<Rightarrow> Code 404)"
  using assms by (simp add: get_files_def path_string_real stat_real)

lemma listdir_names:
  assumes "wf_fs f" and "kernel_walk f p = (p, [])"
  shows "distinct (listdir f p)" and "name \<in> set (listdir f p) \<longleftrightarrow> lookup f (p @ [name]) \<noteq> None"
proof -
  have "inj_on last {k. k \<noteq> [] \<and> butlast k = p}"
    by (auto simp: inj_on_def) (metis append_butlast_last_id)
  then show "distinct (listdir f p)"
    using assms by (auto simp: listdir_def wf_fs_def distinct_map elim: inj_on_subset)
  have "name \<in> set (listdir f p) \<longleftrightarrow> (\<exists>k \<in> set (map fst f). k \<noteq> [] \<and> butlast k = p \<and> last k = name)"
    using assms(2) by (auto simp: listdir_def)
  also have "\<dots> \<longleftrightarrow> (\<exists>k \<in> set (map fst f). k = p @ [name])"
    by (intro bex_cong refl) (metis append_butlast_last_id snoc_eq_iff_butlast)
  also have "\<dots> \<longleftrightarrow> lookup f (p @ [name]) \<noteq> None"
    by (simp add: lookup_def map_of_eq_None_iff)
  finally show "name \<in> set (listdir f p) \<longleftrightarrow> lookup f (p @ [name]) \<noteq> None" .
qed

lemma starts_with_longer:
  assumes "starts_with a s"
  shows "starts_with a (s @ t)"
proof -
  have "s = a @ drop (length a) s"
    using assms append_take_drop_id [of "length a" s] by (simp add: starts_with_def)
  then have "s @ t = a @ drop (length a) s @ t"
    by simp
  then show ?thesis
    by (metis starts_with_append)
qed

lemma path_str_snoc: "p \<noteq> [] \<Longrightarrow> path_str (p @ [c]) = path_str p @ CHR ''/'' # c"
  by (simp add: path_str_def)

text \<open>
  The listing of a directory names every file in it exactly once and nothing else,
  directories first and each kind in the order of the names in lower case; a request for the
  path of an entry that is no link opens it: a directory is listed, a file gives its content.
\<close>

theorem listing_complete:
  assumes "wf_fs f" and "resolves n f s" and "get_files n f s = Listing es"
  shows "distinct (map e_name es) \<and> sorted (map entry_key es) \<and>
    (\<forall>name. (\<exists>e \<in> set es. e_name e = name) = (lookup f (realpath n f s @ [name]) \<noteq> None)) \<and>
    (\<forall>e \<in> set es. \<forall>x. lookup f (realpath n f s @ [e_name e]) = Some x \<longrightarrow>
       (case x of
          File c \<Rightarrow> e_type e = ''file'' \<and> get_files n f (e_path e) = Content c
        | Dir \<Rightarrow> e_type e = ''dir'' \<and> (\<exists>fs. get_files n f (e_path e) = Listing fs)
        | Link t \<Rightarrow> True))"
proof -
  define p where "p = realpath n f s"
  have real: "real f p"
    using assms(2) by (simp add: p_def realpath_real)
  have root: "starts_with ''/root'' (path_str p)" "stat_of f p = Some Dir"
    and es: "es = sort_key entry_key (map (entry_at f p) (listdir f p))"
    using assms(3) by (auto simp: get_files_def p_def Let_def split: if_splits option.splits node.splits)
  have dir: "lookup f p = Some Dir"
    using stat_real [OF assms(1) real] root by simp
  have p: "p \<noteq> []"
    using path_str_root [OF root(1) real_free [OF real]] by simp
  have walk: "kernel_walk f p = (p, [])"
    using wf_parents [OF assms(1), of p] dir real by (simp add: kernel_walk_real)
  note names = listdir_names [OF assms(1) walk]
  have name_at: "e_name (entry_at f p c) = c" "e_path (entry_at f p c) = path_str (p @ [c])" for c
    by (simp_all add: entry_at_def)
  have "map e_name (map (entry_at f p) (listdir f p)) = listdir f p"
    by (simp add: comp_def name_at)
  then have "mset (map e_name es) = mset (listdir f p)"
    unfolding es by (metis mset_map mset_sort)
  then have "distinct (map e_name es)"
    using names(1) mset_eq_imp_distinct_iff by blast
  moreover have "sorted (map entry_key es)"
    by (simp add: es)
  moreover have "(\<exists>e \<in> set es. e_name e = name) = (lookup f (p @ [name]) \<noteq> None)" for name
    using names(2) [of name] by (auto simp: es name_at)
  moreover have "(case x of
          File c \<Rightarrow> e_type e = ''file'' \<and> get_files n f (e_path e) = Content c
        | Dir \<Rightarrow> e_type e = ''dir'' \<and> (\<exists>fs. get_files n f (e_path e) = Listing fs)
        | Link t \<Rightarrow> True)" if e: "e \<in> set es" and x: "lookup f (p @ [e_name e]) = Some x" for e x
  proof (cases "link_at f (p @ [e_name e])")
    case None
    have real_e: "real f (p @ [e_name e])"
      using wf_real [OF assms(1) _ None] x by simp
    have "e_path e = path_str (p @ [e_name e])"
      "e_type e = (if isdir f (p @ [e_name e]) then ''dir'' else ''file'')"
      using e by (auto simp: es entry_at_def)
    then show ?thesis
      using get_files_real [OF assms(1) real_e] stat_real [OF assms(1) real_e] x root p
      by (auto simp: path_str_snoc starts_with_longer isdir_def split: node.split)
  next
    case (Some t)
    then show ?thesis
      using x by (auto simp: link_at_def split: node.splits)
  qed
  ultimately show ?thesis
    by (simp add: p_def)
qed

section \<open>Examples\<close>

definition home :: fs where
  "home =
     [([''root''], Dir), ([''root'', ''notes''], Dir), ([''root'', ''b.yaml''], File ''x''),
      ([''root'', ''A.md''], File ''y''), ([''root'', ''link''], Link ''/srv/data''),
      ([''srv''], Dir), ([''srv'', ''data''], File ''z''), ([''root'', ''loop''], Link ''loop'')]"

lemmas file_defs =
  put_files_def get_files_def realpath_def resolves_def walk.simps path_str_def starts_with_def
  lookup_def link_at_def stat_of_def kernel_walk_def isdir_def write_file_def Let_def

theorem put_then_get_witness:
  "\<exists>f'. put_files 40 home ''/root/notes/../sub/c.txt'' ''hi'' = (200, f') \<and>
    get_files 40 f' ''/root/notes/../sub/c.txt'' = Content ''hi''"
proof -
  obtain f' where "put_files 40 home ''/root/notes/../sub/c.txt'' ''hi'' = (200, f')"
    by (simp add: file_defs home_def)
  then show ?thesis
    using put_then_get by blast
qed

theorem put_confined_witness:
  "\<exists>f'. put_files 40 home ''/root/sub/c.txt'' ''hi'' = (200, f') \<and>
     lookup f' [''root'', ''sub''] \<noteq> lookup home [''root'', ''sub''] \<and>
     starts_with ''root'' (hd [''root'', ''sub''])"
proof -
  obtain f' where f': "put_files 40 home ''/root/sub/c.txt'' ''hi'' = (200, f')"
    "lookup f' [''root'', ''sub''] \<noteq> lookup home [''root'', ''sub'']"
    by (simp add: file_defs home_def)
  moreover have "resolves 40 home ''/root/sub/c.txt''"
    by (simp add: file_defs home_def)
  ultimately show ?thesis
    using put_confined by blast
qed

lemma home_listing:
  "get_files 40 home ''/root'' =
     Listing [\<lparr>e_name = ''notes'', e_path = ''/root/notes'', e_type = ''dir''\<rparr>,
       \<lparr>e_name = ''A.md'', e_path = ''/root/A.md'', e_type = ''file''\<rparr>,
       \<lparr>e_name = ''b.yaml'', e_path = ''/root/b.yaml'', e_type = ''file''\<rparr>,
       \<lparr>e_name = ''link'', e_path = ''/root/link'', e_type = ''file''\<rparr>,
       \<lparr>e_name = ''loop'', e_path = ''/root/loop'', e_type = ''file''\<rparr>]"
  by code_simp

theorem listing_complete_witness:
  "sorted (map entry_key [\<lparr>e_name = ''notes'', e_path = ''/root/notes'', e_type = ''dir''\<rparr>,
       \<lparr>e_name = ''A.md'', e_path = ''/root/A.md'', e_type = ''file''\<rparr>,
       \<lparr>e_name = ''b.yaml'', e_path = ''/root/b.yaml'', e_type = ''file''\<rparr>,
       \<lparr>e_name = ''link'', e_path = ''/root/link'', e_type = ''file''\<rparr>,
       \<lparr>e_name = ''loop'', e_path = ''/root/loop'', e_type = ''file''\<rparr>])"
proof -
  have "wf_fs home" "resolves 40 home ''/root''"
    by (code_simp, code_simp)
  then show ?thesis
    using listing_complete [OF _ _ home_listing] by blast
qed

lemma loop_stuck: "walk False n home [''root''] (''loop'' # cs) = ([''root''], ''loop'' # cs)"
proof (induction n)
  case 0
  then show ?case
    by (simp add: walk.simps(2) lookup_def link_at_def home_def)
next
  case (Suc n)
  have "link_at home [''root'', ''loop''] = Some ''loop''"
    by (simp add: lookup_def link_at_def home_def)
  then show ?case
    using Suc by (simp add: walk.simps(2) starts_with_def)
qed

text \<open>
  The check can be passed by: behind a loop of links \<^verbatim>\<open>realpath\<close> no longer resolves, so the
  path it returns begins with \<^verbatim>\<open>/root\<close> and still ends in a link. The write goes where the link
  points, here to \<^verbatim>\<open>/srv/data\<close>; the link named directly is refused. So is
  the check passed by any other name that begins with \<^verbatim>\<open>root\<close>.
\<close>

theorem check_passed_by:
  "put_files (Suc n) home ''/root/link'' ''!'' = (403, home) \<and>
   fst (put_files (Suc n) home ''/root/loop/../link'' ''!'') = 200 \<and>
   lookup (snd (put_files (Suc n) home ''/root/loop/../link'' ''!'')) [''srv'', ''data''] =
     Some (File ''!'') \<and>
   fst (put_files (Suc n) home ''/rootkit/x'' ''!'') = 200"
proof (intro conjI)
  have "realpath (Suc n) home ''/root/link'' = [''srv'', ''data'']"
    by (simp add: file_defs home_def)
  then show "put_files (Suc n) home ''/root/link'' ''!'' = (403, home)"
    by (simp add: file_defs)
  have p: "realpath (Suc n) home ''/root/loop/../link'' = [''root'', ''link'']"
  proof -
    have "link_at home [''root''] = None"
      by (simp add: lookup_def link_at_def home_def)
    then show ?thesis
      by (simp add: realpath_def walk.simps(2) [of _ _ _ "[]"] loop_stuck)
  qed
  have "put_files (Suc n) home ''/root/loop/../link'' ''!'' =
      (200, AList.update [''srv'', ''data''] (File ''!'') home)"
    unfolding put_files_def p by (simp add: file_defs home_def eval_nat_numeral)
  then show "fst (put_files (Suc n) home ''/root/loop/../link'' ''!'') = 200"
    and "lookup (snd (put_files (Suc n) home ''/root/loop/../link'' ''!'')) [''srv'', ''data''] =
      Some (File ''!'')"
    by (simp_all add: lookup_update)
  have "realpath (Suc n) home ''/rootkit/x'' = [''rootkit'', ''x'']"
    by (simp add: file_defs home_def)
  then show "fst (put_files (Suc n) home ''/rootkit/x'' ''!'') = 200"
    by (simp add: file_defs home_def)
qed

section \<open>Links end\<close>

text \<open>
  A link is plain when the path it names has no link in it, from the root or from the directory
  it is in. Where all links are plain, no path is a loop: each of its components costs at most
  one link.
\<close>

definition names_of :: "string \<Rightarrow> string list" where
  "names_of t = filter (\<lambda>c. c \<noteq> [] \<and> c \<noteq> ''.'') (split_on (CHR ''/'') t)"

definition plain_links :: "fs \<Rightarrow> bool" where
  "plain_links f \<longleftrightarrow>
     list_all (\<lambda>(q, x). case x of
         Link t \<Rightarrow> real_from f (if starts_with ''/'' t then [] else butlast q) (names_of t)
       | _ \<Rightarrow> True) f"

lemma plain_linksD:
  assumes "plain_links f" and "link_at f (p @ [c]) = Some t"
  shows "real_from f (if starts_with ''/'' t then [] else p) (names_of t)"
proof -
  have "map_of f (p @ [c]) = Some (Link t)"
    using assms(2) by (auto simp: link_at_def lookup_def split: option.splits node.splits if_splits)
  then have "(p @ [c], Link t) \<in> set f"
    by (rule map_of_SomeD)
  then show ?thesis
    using assms(1) by (fastforce simp: plain_links_def list_all_iff)
qed

lemma walk_link:
  "link_at f (p @ [c]) = Some t \<Longrightarrow> c \<notin> {[], ''.'', ''..''} \<Longrightarrow> (strict \<Longrightarrow> lookup f p = Some Dir) \<Longrightarrow>
   walk strict (Suc m) f p (c # cs) = walk strict m f (if starts_with ''/'' t then [] else p) (split_on (CHR ''/'') t @ cs)"
  by (auto simp: walk.simps(2))

lemma walk_names:
  "real_from f p (filter (\<lambda>c. c \<noteq> [] \<and> c \<noteq> ''.'') xs) \<Longrightarrow>
   walk False n f p (xs @ cs) = walk False n f (p @ filter (\<lambda>c. c \<noteq> [] \<and> c \<noteq> ''.'') xs) cs"
proof (induction xs arbitrary: p)
  case (Cons c xs)
  show ?case
  proof (cases "c = [] \<or> c = ''.''")
    case True
    then show ?thesis
      using Cons by (auto simp: walk.simps(2))
  next
    case False
    then show ?thesis
      using Cons by (simp add: walk_step)
  qed
qed simp

lemma walk_plain: "plain_links f \<Longrightarrow> length cs \<le> n \<Longrightarrow> snd (walk False n f p cs) = []"
proof (induction cs arbitrary: n p)
  case (Cons c cs)
  show ?case
  proof (cases "c = [] \<or> c = ''.'' \<or> c = ''..'' \<or> link_at f (p @ [c]) = None")
    case True
    then show ?thesis
      using Cons by (auto simp: walk.simps(2))
  next
    case False
    then obtain t m where t: "link_at f (p @ [c]) = Some t" "n = Suc m"
      using Cons.prems(2) by (cases n) auto
    let ?p = "if starts_with ''/'' t then [] else p"
    have "walk False n f p (c # cs) = walk False m f ?p (split_on (CHR ''/'') t @ cs)"
      using False t by (simp add: walk_link)
    also have "\<dots> = walk False m f (?p @ names_of t) cs"
      using plain_linksD [OF Cons.prems(1) t(1)] unfolding names_of_def by (rule walk_names)
    finally show ?thesis
      using Cons t by simp
  qed
qed simp

text \<open>A lookup that ends does not depend on how many more links might have been followed.\<close>

lemma walk_more: "snd (walk strict n f p cs) = [] \<Longrightarrow> walk strict (n + k) f p cs = walk strict n f p cs"
proof (induction strict n f p cs rule: walk.induct)
  case (2 strict n f p c cs)
  show ?case
  proof (cases "strict \<and> lookup f p \<noteq> Some Dir \<or> c = [] \<or> c = ''.'' \<or> c = ''..'' \<or> link_at f (p @ [c]) = None")
    case True
    then show ?thesis
      using 2 by (auto simp: walk.simps(2))
  next
    case False
    then obtain t m where t: "link_at f (p @ [c]) = Some t" "n = Suc m"
      using "2.prems" by (cases n) (auto simp: walk.simps(2))
    then have "walk strict (Suc m + j) f p (c # cs) =
        walk strict (m + j) f (if starts_with ''/'' t then [] else p) (split_on (CHR ''/'') t @ cs)" for j
      using False by (simp add: walk_link)
    from this [of 0] this [of k] show ?thesis
      using False "2.IH"(4) [of t m] "2.prems" t by simp
  qed
qed simp



end
