(* ===== verification/Vm_Commands.thy ===== *)
theory Vm_Commands
  imports Lab_Prelude "HOL-Library.Word"
begin

unbundle bit_operations_syntax

text \<open>
  The commands of the service in the VM (\<^verbatim>\<open>do_POST\<close>, \<^verbatim>\<open>cdp_navigate\<close> and the \<^verbatim>\<open>/services\<close> branch
  of \<^verbatim>\<open>do_GET\<close> of \<^verbatim>\<open>vm/lab-inject.py\<close>): keys for the terminal, the check of a step, and the
  navigation of the browser over its debugging socket. What scripts, \<^verbatim>\<open>kubectl\<close> and the browser do
  is a parameter, and strings are free of NUL; a socket gives its chunks and then times out or, once closed by the peer,
  gives empty ones.
\<close>

section \<open>The debugging socket\<close>

type_synonym byte = "8 word"

text \<open>A client's frame: final, text, masked. \<^verbatim>\<open>struct.pack('>H', n)\<close> raises above 65535.\<close>

definition masked :: "byte list \<Rightarrow> byte list \<Rightarrow> byte list" where
  "masked key msg = map2 (\<lambda>i b. b XOR key ! (i mod 4)) [0..<length msg] msg"

definition frame_header :: "nat \<Rightarrow> byte list option" where
  "frame_header n =
     (if n < 126 then Some [0x81, 0x80 OR of_nat n]
      else if n < 65536 then Some [0x81, 0xFE, of_nat (n div 256), of_nat (n mod 256)]
      else None)"

definition frame :: "byte list \<Rightarrow> byte list \<Rightarrow> byte list option" where
  "frame key msg = map_option (\<lambda>h. h @ key @ masked key msg) (frame_header (length msg))"

text \<open>
  The loop that waits for the end of the answer's header: what was received when it ends,
  \<open>Inl\<close> for the exception of a time-out. On a closed socket \<^verbatim>\<open>recv\<close> gives nothing and does not
  fail.
\<close>

definition header_end :: "byte list" where "header_end = [13, 10, 13, 10]"

fun has_infix :: "'a list \<Rightarrow> 'a list \<Rightarrow> bool" where
  "has_infix p [] = (p = [])"
| "has_infix p (x # xs) = (take (length p) (x # xs) = p \<or> has_infix p xs)"

partial_function (option) recv_header :: "bool \<Rightarrow> byte list list \<Rightarrow> byte list \<Rightarrow> (unit + byte list) option" where
  "recv_header shut cs buf =
     (if has_infix header_end buf then Some (Inr buf)
      else case cs of
             [] \<Rightarrow> if shut then recv_header shut [] buf else Some (Inl ())
           | c # cs' \<Rightarrow> recv_header shut cs' (buf @ c))"

declare recv_header.simps [code]

text \<open>What a receiver makes of the bytes, by the WebSocket protocol.\<close>

definition unframe :: "byte list \<Rightarrow> (byte list \<times> byte list) option" where
  "unframe bs =
     (case bs of
        b0 # b1 # r \<Rightarrow>
          (if b0 \<noteq> 0x81 \<or> b1 AND 0x80 = 0 then None
           else (let l = unat (b1 AND 0x7F);
                     (n, r1) = (if l = 126 then (unat (r ! 0) * 256 + unat (r ! 1), drop 2 r) else (l, r))
                 in if l = 127 \<or> length r1 < 4 + n then None
                    else Some (masked (take 4 r1) (take n (drop 4 r1)), drop n (drop 4 r1))))
      | _ \<Rightarrow> None)"

section \<open>Frames\<close>

lemma length_masked [simp]: "length (masked key msg) = length msg"
  by (simp add: masked_def)

lemma masked_masked: "masked key (masked key msg) = msg"
  by (rule nth_equalityI) (simp_all add: masked_def xor.assoc)

lemma short_length: "n < 126 \<Longrightarrow> (0x80 OR of_nat n :: byte) AND 0x80 \<noteq> 0 \<and> unat ((0x80 OR of_nat n :: byte) AND 0x7F) = n"
proof -
  assume n: "n < 126"
  have "\<forall>m < 126. (0x80 OR of_nat m :: byte) AND 0x80 \<noteq> 0 \<and> unat ((0x80 OR of_nat m :: byte) AND 0x7F) = m"
    by code_simp
  then show ?thesis
    using n by blast
qed

lemma unat_byte: "n < 256 \<Longrightarrow> unat (of_nat n :: byte) = n"
  by (simp add: unat_of_nat)

text \<open>
  The frame that navigates the browser is read back by any receiver that follows the
  protocol, as the message that was sent, with whatever mask, for every message that is short
  enough to be framed at all, that is below 65536 bytes.
\<close>

theorem frame_read_back:
  assumes "length key = 4" and "frame key msg = Some bs"
  shows "unframe (bs @ rest) = Some (msg, rest)"
proof (cases "length msg < 126")
  case True
  then have "bs = [0x81, 0x80 OR of_nat (length msg)] @ key @ masked key msg"
    using assms(2) by (simp add: frame_def frame_header_def)
  then show ?thesis
    using assms(1) short_length [OF True] True by (simp add: unframe_def Let_def masked_masked)
next
  case False
  then have n: "length msg < 65536"
    "bs = [0x81, 0xFE, of_nat (length msg div 256), of_nat (length msg mod 256)] @ key @ masked key msg"
    using assms(2) by (auto simp: frame_def frame_header_def split: if_splits)
  have "unat (of_nat (length msg div 256) :: byte) * 256 + unat (of_nat (length msg mod 256) :: byte) = length msg"
    using n(1) by (simp add: unat_byte)
  moreover have "(0xFE :: byte) AND 0x80 \<noteq> 0" "unat ((0xFE :: byte) AND 0x7F) = 126"
    by code_simp+
  ultimately show ?thesis
    using assms(1) by (simp add: unframe_def Let_def n(2) masked_masked)
qed

theorem frame_read_back_witness:
  "\<exists>bs. frame [1, 2, 3, 4] [72, 105] = Some bs \<and> unframe (bs @ [7]) = Some ([72, 105], [7])"
proof -
  obtain bs where "frame [1, 2, 3, 4] [72, 105] = Some bs"
    by (simp add: frame_def frame_header_def)
  then show ?thesis
    using frame_read_back [of "[1, 2, 3, 4]" "[72, 105]" bs "[7]"] by simp
qed

section \<open>Waiting for the browser\<close>

lemma has_infix_append: "has_infix p xs \<Longrightarrow> has_infix p (xs @ ys)"
proof (induction xs)
  case Nil
  then show ?case
    by (cases ys) auto
next
  case (Cons x xs)
  have "take (length p) ((x # xs) @ ys) = p" if "take (length p) (x # xs) = p"
    using that by (metis append_eq_conv_conj append_take_drop_id append.assoc)
  then show ?case
    using Cons by auto
qed

lemma recv_header_closed:
  assumes "recv_header shut cs buf = Some r" and shut
  shows "has_infix header_end (buf @ concat cs)"
proof -
  have "shut \<longrightarrow> has_infix header_end (buf @ concat cs)"
  proof (rule recv_header.raw_induct [where P = "\<lambda>s cs buf r. s \<longrightarrow> has_infix header_end (buf @ concat cs)", OF _ assms(1)])
    fix rec s cs buf r
    assume ih: "\<And>s cs buf r. rec s cs buf = Some r \<Longrightarrow> s \<longrightarrow> has_infix header_end (buf @ concat cs)"
      and r: "(if has_infix header_end buf then Some (Inr buf)
        else case cs of [] \<Rightarrow> if s then rec s [] buf else Some (Inl ()) | c # cs' \<Rightarrow> rec s cs' (buf @ c)) = Some r"
    show "s \<longrightarrow> has_infix header_end (buf @ concat cs)"
      using r ih [of s "[]" buf r] ih [of s "tl cs" "buf @ hd cs" r] has_infix_append [of header_end buf]
      by (cases cs) (auto split: if_splits)
  qed
  then show ?thesis
    using assms(2) by simp
qed

lemma recv_header_ends:
  "\<not> shut \<or> has_infix header_end (buf @ concat cs) \<Longrightarrow> \<exists>r. recv_header shut cs buf = Some r"
proof (induction cs arbitrary: buf)
  case Nil
  then show ?case
    by (subst recv_header.simps) auto
next
  case (Cons c cs)
  then have "\<exists>r. recv_header shut cs (buf @ c) = Some r"
    by simp
  then show ?case
    by (subst recv_header.simps) auto
qed

text \<open>
  The loop that waits for the browser's answer ends exactly if the header comes to its
  end or the socket stays open, so that the time-out ends it: when the browser closes the
  socket before, the loop runs for ever.
\<close>

lemma handshake_ends_iff:
  "(\<exists>r. recv_header shut cs [] = Some r) \<longleftrightarrow> \<not> shut \<or> has_infix header_end (concat cs)"
  using recv_header_closed [of shut cs "[]"] recv_header_ends [of shut "[]" cs] by (cases shut) auto

section \<open>The handlers\<close>

datatype json = J_null | J_bool bool | J_int int | J_str string | J_list "json list" | J_obj "(string \<times> json) list"

text \<open>Truth of a value in Python.\<close>

fun truthy :: "json \<Rightarrow> bool" where
  "truthy J_null = False"
| "truthy (J_bool b) = b"
| "truthy (J_int i) = (i \<noteq> 0)"
| "truthy (J_str s) = (s \<noteq> [])"
| "truthy (J_list xs) = (xs \<noteq> [])"
| "truthy (J_obj m) = (m \<noteq> [])"

text \<open>
  \<^verbatim>\<open>body.get(key, '')\<close>; \<open>None\<close> where the body is no object and \<^verbatim>\<open>get\<close> raises. Of equal keys
  the last counts.
\<close>

definition get_field :: "json \<Rightarrow> string \<Rightarrow> json option" where
  "get_field body k =
     (case body of
        J_obj m \<Rightarrow> Some (case map_of (rev m) k of None \<Rightarrow> J_str [] | Some v \<Rightarrow> v)
      | _ \<Rightarrow> None)"

datatype run = No_file | Exit int | Run_fails

datatype effect = Tmux "string list" | Bash string | Cdp json

datatype answer = Empty nat | Passes bool | Dropped

text \<open>
  What the VM does for a script, what \<^verbatim>\<open>str\<close> makes of a value that is no string, and whether
  \<^verbatim>\<open>cdp_navigate\<close> ends for an address.
\<close>

record vm_env =
  run_script :: "string \<Rightarrow> run"
  py_str :: "json \<Rightarrow> string"
  cdp_ends :: "json \<Rightarrow> bool"

definition script_of :: "vm_env \<Rightarrow> json \<Rightarrow> string" where
  "script_of v st = ''/opt/scenario/verify/step'' @ (case st of J_str s \<Rightarrow> s | _ \<Rightarrow> py_str v st) @ ''.sh''"

text \<open>Data that is no string makes \<^verbatim>\<open>subprocess.run\<close> raise, and nothing is typed.\<close>

definition post_cmd :: "json \<Rightarrow> effect list \<times> answer" where
  "post_cmd body =
     (case get_field body ''data'' of
        Some (J_str s) \<Rightarrow>
          ((if s \<noteq> [] then [Tmux [''send-keys'', ''-t'', ''main'', ''-l'', s], Tmux [''send-keys'', ''-t'', ''main'', ''Enter'']]
            else []), Empty 200)
      | _ \<Rightarrow> ([], Empty 200))"

definition post_verify :: "vm_env \<Rightarrow> json \<Rightarrow> effect list \<times> answer" where
  "post_verify v body =
     (case get_field body ''step'' of
        None \<Rightarrow> ([], Dropped)
      | Some st \<Rightarrow>
          (case run_script v (script_of v st) of
             No_file \<Rightarrow> ([], Passes False)
           | Exit c \<Rightarrow> ([Bash (script_of v st)], Passes (c = 0))
           | Run_fails \<Rightarrow> ([Bash (script_of v st)], Passes False)))"

text \<open>\<open>None\<close>: the handler does not end. Whatever is true is sent to the browser.\<close>

definition post_navigate :: "vm_env \<Rightarrow> json \<Rightarrow> (effect list \<times> answer) option" where
  "post_navigate v body =
     (case get_field body ''url'' of
        None \<Rightarrow> Some ([], Dropped)
      | Some u \<Rightarrow>
          (if \<not> truthy u then Some ([], Empty 200)
           else if cdp_ends v u then Some ([Cdp u], Empty 200) else None))"

text \<open>\<open>body\<close> is what \<^verbatim>\<open>json.loads\<close> gives; where it fails the handler goes on with an empty object.\<close>

definition do_POST :: "vm_env \<Rightarrow> string \<Rightarrow> json option \<Rightarrow> (effect list \<times> answer) option" where
  "do_POST v path body =
     (let b = (case body of None \<Rightarrow> J_obj [] | Some b \<Rightarrow> b)
      in if path = ''/cmd'' then Some (post_cmd b)
         else if path = ''/verify'' then Some (post_verify v b)
         else if path = ''/navigate'' then post_navigate v b
         else Some ([], Empty 404))"

text \<open>The server takes one request after the other; what does not end lets no later one in.\<close>

fun serve_posts :: "vm_env \<Rightarrow> (string \<times> json option) list \<Rightarrow> (effect list \<times> answer) list" where
  "serve_posts v [] = []"
| "serve_posts v ((p, b) # rs) =
     (case do_POST v p b of None \<Rightarrow> [] | Some a \<Rightarrow> a # serve_posts v rs)"

section \<open>Services\<close>

definition ends_with :: "string \<Rightarrow> string \<Rightarrow> bool" where
  "ends_with p s \<longleftrightarrow> starts_with (rev p) (rev s)"

definition https :: "string \<Rightarrow> string" where
  "https h = ''https://'' @ h"

text \<open>The inner loop over the hosts of one item, and the loop over the items.\<close>

fun host_loop :: "string \<Rightarrow> string list \<Rightarrow> string list \<times> (string \<times> string) list \<Rightarrow> string list \<times> (string \<times> string) list" where
  "host_loop name [] acc = acc"
| "host_loop name (h # hs) (seen, out) =
     (if ends_with ''.uds.dev'' h \<and> h \<notin> set seen
      then host_loop name hs (seen @ [h], out @ [(name, https h)])
      else host_loop name hs (seen, out))"

definition services_of :: "(string \<times> string list) list \<Rightarrow> (string \<times> string) list" where
  "services_of items = snd (foldl (\<lambda>acc (name, hs). host_loop name hs acc) ([], []) items)"

text \<open>\<open>None\<close>: an exception on the way, which gives the empty list.\<close>

definition get_services :: "(string \<times> string list) list option \<Rightarrow> (string \<times> string) list" where
  "get_services items = (case items of None \<Rightarrow> [] | Some xs \<Rightarrow> services_of xs)"

definition firsts :: "'a list \<Rightarrow> 'a list" where
  "firsts xs = rev (remdups (rev xs))"

lemma firsts_snoc: "firsts (xs @ [x]) = (if x \<in> set xs then firsts xs else firsts xs @ [x])"
  by (simp add: firsts_def)

lemma set_firsts [simp]: "set (firsts xs) = set xs" and distinct_firsts [simp]: "distinct (firsts xs)"
  by (simp_all add: firsts_def)

lemma host_loop_firsts:
  "seen = firsts (filter (ends_with ''.uds.dev'') xs) \<Longrightarrow> map snd out = map https seen \<Longrightarrow>
   host_loop name hs (seen, out) = (seen', out') \<Longrightarrow>
   seen' = firsts (filter (ends_with ''.uds.dev'') (xs @ hs)) \<and> map snd out' = map https seen'"
proof (induction hs arbitrary: xs seen out)
  case (Cons h hs)
  show ?case
  proof (cases "ends_with ''.uds.dev'' h \<and> h \<notin> set seen")
    case True
    then have "seen @ [h] = firsts (filter (ends_with ''.uds.dev'') (xs @ [h]))"
      using Cons.prems(1) by (auto simp: firsts_snoc)
    moreover have "map snd (out @ [(name, https h)]) = map https (seen @ [h])"
      using Cons.prems(2) by simp
    moreover have "host_loop name hs (seen @ [h], out @ [(name, https h)]) = (seen', out')"
      using Cons.prems(3) True by simp
    ultimately show ?thesis
      using Cons.IH [of "seen @ [h]" "xs @ [h]"] by (simp only: append.assoc append.simps)
  next
    case False
    then have "seen = firsts (filter (ends_with ''.uds.dev'') (xs @ [h]))"
      using Cons.prems(1) by (auto simp: firsts_snoc)
    moreover have "host_loop name hs (seen, out) = (seen', out')"
      using Cons.prems(3) False by simp
    ultimately show ?thesis
      using Cons.IH [of seen "xs @ [h]" out] Cons.prems(2) by (simp only: append.assoc append.simps)
  qed
qed auto

lemma services_loop:
  "foldl (\<lambda>acc (name, hs). host_loop name hs acc) ([], []) items = (seen, out) \<Longrightarrow>
   seen = firsts (filter (ends_with ''.uds.dev'') (concat (map snd items))) \<and> map snd out = map https seen"
proof (induction items arbitrary: seen out rule: rev_induct)
  case Nil
  then show ?case
    by (simp add: firsts_def)
next
  case (snoc x items)
  obtain seen1 out1 where 1: "foldl (\<lambda>acc (name, hs). host_loop name hs acc) ([], []) items = (seen1, out1)"
    by fastforce
  moreover have "host_loop (fst x) (snd x) (seen1, out1) = (seen, out)"
    using snoc.prems 1 by (cases x) simp
  ultimately show ?case
    using snoc.IH [OF 1] host_loop_firsts [of seen1 "concat (map snd items)" out1 "fst x" "snd x" seen out] by simp
qed

text \<open>
  The services of the VM are the hosts under \<^verbatim>\<open>.uds.dev\<close> that any item names, each once, in
  the order in which they are first named.
\<close>

theorem services_listed_once:
  "map snd (services_of items) =
     map https (firsts (filter (ends_with ''.uds.dev'') (concat (map snd items)))) \<and>
   distinct (map snd (services_of items))"
proof -
  obtain seen out where "foldl (\<lambda>acc (name, hs). host_loop name hs acc) ([], []) items = (seen, out)"
    by fastforce
  from services_loop [OF this] this show ?thesis
    by (simp add: services_of_def distinct_map inj_on_def https_def)
qed

section \<open>The navigation of the browser\<close>

text \<open>\<^verbatim>\<open>s.replace('ws://', '')\<close>.\<close>

fun without_scheme :: "string \<Rightarrow> string" where
  "without_scheme [] = []"
| "without_scheme (c # s) =
     (if starts_with ''ws://'' (c # s) then without_scheme (drop 4 s) else c # without_scheme s)"

text \<open>
  The path of the debugging socket of the first page among the browser's targets: \<open>Inl\<close> for an
  exception, \<open>Inr None\<close> where there is no page.
\<close>

definition cdp_target :: "json \<Rightarrow> unit + string option" where
  "cdp_target targets =
     (case targets of
        J_list ts \<Rightarrow>
          (if list_ex (\<lambda>t. get_field t ''type'' = None) ts then Inl ()
           else (case filter (\<lambda>t. get_field t ''type'' = Some (J_str ''page'')) ts of
                   [] \<Rightarrow> Inr None
                 | t # _ \<Rightarrow>
                     (case t of
                        J_obj m \<Rightarrow>
                          (case map_of (rev m) ''webSocketDebuggerUrl'' of
                             Some (J_str u) \<Rightarrow>
                               (case dropWhile (\<lambda>c. c \<noteq> CHR ''/'') (without_scheme u) of
                                  [] \<Rightarrow> Inl ()
                                | _ # path \<Rightarrow> Inr (Some (CHR ''/'' # path)))
                           | _ \<Rightarrow> Inl ())
                      | _ \<Rightarrow> Inl ())))
      | _ \<Rightarrow> Inl ())"

text \<open>
  \<^verbatim>\<open>cdp_navigate\<close>: it finds no page, raises, or sends a frame over the socket of a path; \<open>None\<close>
  where it does not end. \<open>msg\<close> is the encoded command, \<open>key\<close> the random mask.
\<close>

datatype navigation = No_page | Raises | Sent string "byte list"

definition cdp_navigate :: "json \<Rightarrow> bool \<Rightarrow> byte list list \<Rightarrow> byte list \<Rightarrow> byte list \<Rightarrow> navigation option" where
  "cdp_navigate targets shut chunks key msg =
     (case cdp_target targets of
        Inl _ \<Rightarrow> Some Raises
      | Inr None \<Rightarrow> Some No_page
      | Inr (Some path) \<Rightarrow>
          (case recv_header shut chunks [] of
             None \<Rightarrow> None
           | Some (Inl _) \<Rightarrow> Some Raises
           | Some (Inr _) \<Rightarrow>
               (case frame key msg of None \<Rightarrow> Some Raises | Some f \<Rightarrow> Some (Sent path f))))"

text \<open>
  C33: A navigation ends except in one case: there is a page to navigate, and the browser closes
  the socket before the header of its answer is complete; then the loop that waits for the
  header runs for ever. An open socket ends the loop by its time-out, whatever arrives.
\<close>

theorem navigation_ends_iff:
  "cdp_navigate targets shut chunks key msg = None \<longleftrightarrow>
     (\<exists>path. cdp_target targets = Inr (Some path)) \<and> shut \<and> \<not> has_infix header_end (concat chunks)"
proof (cases "\<exists>path. cdp_target targets = Inr (Some path)")
  case True
  then have "cdp_navigate targets shut chunks key msg = None \<longleftrightarrow> recv_header shut chunks [] = None"
    by (auto simp: cdp_navigate_def split: option.split sum.split)
  then show ?thesis
    using True handshake_ends_iff [of shut chunks] by auto
qed (auto simp: cdp_navigate_def split: sum.split option.split)

section \<open>One request after the other\<close>

text \<open>A navigation that does not end is the last thing the service does; files and checks wait behind it.\<close>

lemma endless_navigation_blocks:
  assumes "\<not> cdp_ends v u" and "truthy u"
  shows "serve_posts v (rs @ (''/navigate'', Some (J_obj [(''url'', u)])) # later) = serve_posts v rs"
proof (induction rs)
  case Nil
  then show ?case
    using assms by (simp add: do_POST_def post_navigate_def get_field_def)
next
  case (Cons r rs)
  then show ?case
    by (cases r) (simp split: option.split)
qed

end
