(* ===== verification/Base64url.thy ===== *)
theory Base64url
  imports Lab_Prelude
begin

text \<open>
  \<^verbatim>\<open>base64.RawURLEncoding\<close> of Go, which the server uses on demo tokens and on the payload of
  JWTs: the URL alphabet, no padding. Decoding skips line breaks and does not look at the
  unused bits of the last character, as the package documents for its non-strict mode.
\<close>

definition alphabet :: string where
  "alphabet = ''ABCDEFGHIJKLMNOPQRSTUVWXYZabcdefghijklmnopqrstuvwxyz0123456789-_''"

definition enc_char :: "nat \<Rightarrow> char" where
  "enc_char n = alphabet ! n"

definition dec_char :: "char \<Rightarrow> nat option" where
  "dec_char c = map_of (zip alphabet [0..<64]) c"

fun enc_bytes :: "nat list \<Rightarrow> nat list" where
  "enc_bytes [] = []"
| "enc_bytes [a] = [a div 4, a mod 4 * 16]"
| "enc_bytes [a, b] = [a div 4, a mod 4 * 16 + b div 16, b mod 16 * 4]"
| "enc_bytes (a # b # c # r) =
     [a div 4, a mod 4 * 16 + b div 16, b mod 16 * 4 + c div 64, c mod 64] @ enc_bytes r"

fun dec_bytes :: "nat list \<Rightarrow> nat list option" where
  "dec_bytes [] = Some []"
| "dec_bytes [w] = None"
| "dec_bytes [w, x] = Some [w * 4 + x div 16]"
| "dec_bytes [w, x, y] = Some [w * 4 + x div 16, x mod 16 * 16 + y div 4]"
| "dec_bytes (w # x # y # z # r) =
     map_option (\<lambda>s. [w * 4 + x div 16, x mod 16 * 16 + y div 4, y mod 4 * 64 + z] @ s) (dec_bytes r)"

definition encode :: "string \<Rightarrow> string" where
  "encode s = map enc_char (enc_bytes (map char_code s))"

definition decode :: "string \<Rightarrow> string option" where
  "decode t =
     (let cs = map dec_char (filter (\<lambda>c. char_code c \<notin> {10, 13}) t)
      in if None \<in> set cs then None else map_option (map char_of) (dec_bytes (map the cs)))"

text \<open>The alphabet is its own inverse.\<close>

lemma length_alphabet: "length alphabet = 64"
  by code_simp

lemma distinct_alphabet: "distinct alphabet"
  by code_simp

lemma dec_enc_char [simp]: "n < 64 \<Longrightarrow> dec_char (enc_char n) = Some n"
  using length_alphabet distinct_alphabet
  by (simp add: dec_char_def enc_char_def map_of_zip_nth)

lemma alphabet_plain: "list_all (\<lambda>c. char_code c > 32 \<and> c \<noteq> CHR ''.'') alphabet"
  by code_simp

lemma enc_char_plain: "n < 64 \<Longrightarrow> char_code (enc_char n) > 32 \<and> enc_char n \<noteq> CHR ''.''"
  using alphabet_plain length_alphabet by (simp add: enc_char_def list_all_length)

lemma enc_bytes_bound: "\<forall>x \<in> set bs. x < 256 \<Longrightarrow> y \<in> set (enc_bytes bs) \<Longrightarrow> y < 64"
  by (induction bs rule: enc_bytes.induct) auto

lemma dec_enc_bytes: "\<forall>x \<in> set bs. x < 256 \<Longrightarrow> dec_bytes (enc_bytes bs) = Some bs"
  by (induction bs rule: enc_bytes.induct) (auto simp: div_mult2_eq [symmetric])

lemma encode_plain: "c \<in> set (encode s) \<Longrightarrow> char_code c > 32 \<and> c \<noteq> CHR ''.''"
  using enc_bytes_bound [of "map char_code s"] enc_char_plain by (auto simp: encode_def char_code_bound)

theorem decode_encode [simp]: "decode (encode s) = Some s"
proof -
  have bytes: "\<forall>x \<in> set (map char_code s). x < 256"
    by (simp add: char_code_bound)
  let ?s = "enc_bytes (map char_code s)"
  have no_break: "filter (\<lambda>c. char_code c \<notin> {10, 13}) (encode s) = encode s"
    using encode_plain [of _ s] by (intro filter_True) fastforce
  have vals: "map dec_char (encode s) = map Some ?s"
    using enc_bytes_bound [OF bytes] by (auto simp: encode_def)
  have "None \<notin> set (map Some ?s)" "map the (map Some ?s) = ?s"
    by (simp_all add: comp_def)
  moreover have "map char_of (map char_code s) = s"
    by (simp add: comp_def)
  ultimately show ?thesis
    unfolding decode_def no_break vals Let_def using dec_enc_bytes [OF bytes] by (simp only: if_False option.map)
qed

end
