(* ===== verification/Access.thy ===== *)
theory Access
  imports Vm_Provider Base64url
begin

text \<open>
  Who may do what: the handlers of \<^verbatim>\<open>cmd/labserver/main.go\<close> for one session and for
  administrators, with the checks before them.

  A request shows its \<^verbatim>\<open>Authorization\<close> header (empty when there is none) and its cookie
  \<^verbatim>\<open>lab_client_id\<close>. What \<^verbatim>\<open>json.Unmarshal\<close> makes of a JWT payload, the SHA-256 digest and
  the answers of the VM are parameters. A handler gives its reply, the call it makes to the
  VM, and the resources it leaves; bodies of replies are kept where they carry session data.
\<close>

section \<open>Requests and replies\<close>

record http_request =
  authorization :: string
  client_cookie :: "string option"

record link =
  l_label :: string
  l_url :: string

datatype vm_call = Call (c_dns: string) (c_port: nat) (c_path: string)

datatype verify_answer = Unreachable | Unreadable | Answer bool bool

record server =
  email_claim :: "string \<Rightarrow> string option"
  groups_claim :: "string \<Rightarrow> string list option"
  digest :: "string \<Rightarrow> string"
  load :: "string \<Rightarrow> scenario_error + scenario"
  links_of :: "string \<Rightarrow> link list"
  ttl :: int
  aeGroup :: string
  devMode :: bool
  vm_post :: "vm_call \<Rightarrow> string \<Rightarrow> nat option"
  vm_verify :: "vm_call \<Rightarrow> string \<Rightarrow> verify_answer"
  vm_services :: "vm_call \<Rightarrow> link list option"

datatype reply =
    Status nat
  | Session_reply nat session
  | Sessions_reply "session list"
  | Services_reply "link list"
  | Verified bool
  | Page string
  | Proxied

type_synonym handler = "k8s \<Rightarrow> reply \<times> vm_call option \<times> k8s"

section \<open>Identity\<close>

definition bearer :: "http_request \<Rightarrow> string option" where
  "bearer r =
     (if starts_with ''Bearer '' (authorization r)
      then Some (trim_prefix ''Bearer '' (authorization r)) else None)"

definition jwt_payload :: "string \<Rightarrow> string option" where
  "jwt_payload token =
     (let parts = split_n 3 (CHR ''.'') token
      in if length parts < 2 then None else decode (parts ! 1))"

definition emailFromJWT :: "server \<Rightarrow> string \<Rightarrow> string" where
  "emailFromJWT s token =
     (case jwt_payload token of
        None \<Rightarrow> []
      | Some p \<Rightarrow> (case email_claim s p of None \<Rightarrow> [] | Some e \<Rightarrow> lower (trim e)))"

definition groupsFromJWT :: "server \<Rightarrow> string \<Rightarrow> string list" where
  "groupsFromJWT s token =
     (case jwt_payload token of
        None \<Rightarrow> []
      | Some p \<Rightarrow> (case groups_claim s p of None \<Rightarrow> [] | Some gs \<Rightarrow> gs))"

definition authedEmail :: "server \<Rightarrow> http_request \<Rightarrow> string" where
  "authedEmail s r = (case bearer r of Some t \<Rightarrow> emailFromJWT s t | None \<Rightarrow> [])"

definition groupsFromRequest :: "server \<Rightarrow> http_request \<Rightarrow> string list" where
  "groupsFromRequest s r = (case bearer r of Some t \<Rightarrow> groupsFromJWT s t | None \<Rightarrow> [])"

definition ownsSession :: "server \<Rightarrow> http_request \<Rightarrow> session \<Rightarrow> bool" where
  "ownsSession s r sess =
     (case bearer r of
        Some t \<Rightarrow>
          (let email = emailFromJWT s t
           in if email = [] then False else equal_fold email (s_userEmail sess))
      | None \<Rightarrow> (case client_cookie r of None \<Rightarrow> False | Some v \<Rightarrow> v \<noteq> [] \<and> v = s_clientID sess))"

definition emailClientID :: "server \<Rightarrow> string \<Rightarrow> string" where
  "emailClientID s email = digest s (lower (trim email))"

text \<open>\<^verbatim>\<open>clientID\<close>; \<open>i\<close> is the UUID it would draw for a new cookie.\<close>

definition client_of :: "server \<Rightarrow> http_request \<Rightarrow> string \<Rightarrow> string" where
  "client_of s r i =
     (if authedEmail s r \<noteq> [] then emailClientID s (authedEmail s r)
      else (case client_cookie r of None \<Rightarrow> i | Some v \<Rightarrow> if v \<noteq> [] then v else i))"

definition isAE :: "server \<Rightarrow> string list \<Rightarrow> string \<Rightarrow> bool" where
  "isAE s groups email =
     (if groups \<noteq> [] then list_ex (\<lambda>g. g = aeGroup s) groups
      else if devMode s then trim email \<noteq> []
      else False)"

definition alnum :: "char \<Rightarrow> bool" where
  "alnum c \<longleftrightarrow>
     (97 \<le> char_code c \<and> char_code c \<le> 122) \<or> (65 \<le> char_code c \<and> char_code c \<le> 90) \<or>
     (48 \<le> char_code c \<and> char_code c \<le> 57)"

definition validServiceDNS :: "string \<Rightarrow> bool" where
  "validServiceDNS s \<longleftrightarrow> s \<noteq> [] \<and> list_all (\<lambda>c. alnum c \<or> c = CHR ''-'' \<or> c = CHR ''.'') s"

section \<open>The handlers of one session\<close>

definition owned_session :: "server \<Rightarrow> http_request \<Rightarrow> string \<Rightarrow> (session \<Rightarrow> handler) \<Rightarrow> handler" where
  "owned_session s r i h k =
     (case Get i k of
        (None, k1) \<Rightarrow> (Status 404, None, k1)
      | (Some sess, k1) \<Rightarrow> if \<not> ownsSession s r sess then (Status 403, None, k1) else h sess k1)"

definition checked :: "bool \<Rightarrow> nat \<Rightarrow> handler \<Rightarrow> handler" where
  "checked b code h k = (if \<not> b then (Status code, None, k) else h k)"

definition vm_up :: "session \<Rightarrow> bool" where
  "vm_up sess \<longleftrightarrow> s_status sess = Status_ready \<and> s_serviceDNS sess \<noteq> []"

definition changing :: "(k8s \<Rightarrow> (mgr_error + unit) \<times> k8s) \<Rightarrow> handler" where
  "changing m k = (case m k of (Inl _, k1) \<Rightarrow> (Status 500, None, k1) | (Inr _, k1) \<Rightarrow> (Status 204, None, k1))"

definition getSession :: "server \<Rightarrow> http_request \<Rightarrow> string \<Rightarrow> handler" where
  "getSession s r i = owned_session s r i (\<lambda>sess k. (Session_reply 200 sess, None, k))"

definition deleteSession :: "server \<Rightarrow> http_request \<Rightarrow> string \<Rightarrow> int \<Rightarrow> handler" where
  "deleteSession s r i now = owned_session s r i (\<lambda>_. changing (Expire i now))"

definition pauseSession :: "server \<Rightarrow> http_request \<Rightarrow> string \<Rightarrow> handler" where
  "pauseSession s r i = owned_session s r i (\<lambda>_. changing (Pause i))"

definition resumeSession :: "server \<Rightarrow> http_request \<Rightarrow> string \<Rightarrow> handler" where
  "resumeSession s r i = owned_session s r i (\<lambda>_. changing (Resume i))"

definition verify_body :: "server \<Rightarrow> string \<Rightarrow> string \<Rightarrow> int \<Rightarrow> session \<Rightarrow> handler" where
  "verify_body s i st now sess =
     checked (vm_up sess) 503 (checked (validServiceDNS (s_serviceDNS sess)) 500 (\<lambda>k.
         (let c = Call (s_serviceDNS sess) 7680 ''/verify''
          in case vm_verify s c st of
               Unreachable \<Rightarrow> (Status 502, Some c, k)
             | Unreadable \<Rightarrow> (Status 502, Some c, k)
             | Answer passed pass \<Rightarrow>
                 (Verified (passed \<or> pass), Some c,
                  if passed \<or> pass then snd (MarkStepComplete i st now k) else k))))"

definition verifyStep :: "server \<Rightarrow> http_request \<Rightarrow> string \<Rightarrow> string \<Rightarrow> int \<Rightarrow> handler" where
  "verifyStep s r i st now = owned_session s r i (verify_body s i st now)"

text \<open>\<open>body\<close> is the request's body, \<open>None\<close> when reading it fails or it is too long.\<close>

definition post_to_vm :: "server \<Rightarrow> string \<Rightarrow> string option \<Rightarrow> session \<Rightarrow> handler" where
  "post_to_vm s path body sess =
     checked (validServiceDNS (s_serviceDNS sess)) 500 (\<lambda>k.
       (case body of
          None \<Rightarrow> (Status 400, None, k)
        | Some b \<Rightarrow>
            (let c = Call (s_serviceDNS sess) 7680 path
             in case vm_post s c b of None \<Rightarrow> (Status 502, Some c, k) | Some n \<Rightarrow> (Status n, Some c, k))))"

definition injectCmd :: "server \<Rightarrow> http_request \<Rightarrow> string \<Rightarrow> string option \<Rightarrow> handler" where
  "injectCmd s r i body =
     owned_session s r i (\<lambda>sess. checked (vm_up sess) 503 (post_to_vm s ''/cmd'' body sess))"

definition navigateBrowser :: "server \<Rightarrow> http_request \<Rightarrow> string \<Rightarrow> string option \<Rightarrow> handler" where
  "navigateBrowser s r i body =
     owned_session s r i (\<lambda>sess.
       checked (s_browserEnabled sess \<and> vm_up sess) 503 (post_to_vm s ''/navigate'' body sess))"

definition merge_services :: "link list \<Rightarrow> link list \<Rightarrow> link list" where
  "merge_services own detected = own @ filter (\<lambda>d. l_url d \<notin> set (map l_url own)) detected"

definition services_body :: "server \<Rightarrow> session \<Rightarrow> handler" where
  "services_body s sess k =
     (let own = (case load s (s_scenario sess) of Inl _ \<Rightarrow> [] | Inr _ \<Rightarrow> links_of s (s_scenario sess))
      in if s_browserEnabled sess \<and> vm_up sess \<and> validServiceDNS (s_serviceDNS sess)
         then (let c = Call (s_serviceDNS sess) 7680 ''/services''
               in (Services_reply (case vm_services s c of None \<Rightarrow> own
                                   | Some ds \<Rightarrow> merge_services own ds), Some c, k))
         else (Services_reply own, None, k))"

definition sessionServices :: "server \<Rightarrow> http_request \<Rightarrow> string \<Rightarrow> handler" where
  "sessionServices s r i = owned_session s r i (services_body s)"

definition proxied :: "nat \<Rightarrow> string \<Rightarrow> session \<Rightarrow> handler" where
  "proxied port strip sess =
     checked (validServiceDNS (s_serviceDNS sess)) 500
       (\<lambda>k. (Proxied, Some (Call (s_serviceDNS sess) port strip), k))"

definition browserProxy :: "server \<Rightarrow> http_request \<Rightarrow> string \<Rightarrow> handler" where
  "browserProxy s r i =
     owned_session s r i (\<lambda>sess.
       checked (s_browserEnabled sess) 404 (checked (vm_up sess) 503 (proxied 6080 (''/vnc/'' @ i) sess)))"

definition idePage :: "server \<Rightarrow> http_request \<Rightarrow> string \<Rightarrow> handler" where
  "idePage s r i = owned_session s r i (\<lambda>_ k. (Page ''ide.html'', None, k))"

definition ideFileProxy :: "server \<Rightarrow> http_request \<Rightarrow> string \<Rightarrow> handler" where
  "ideFileProxy s r i =
     owned_session s r i (\<lambda>sess.
       checked (s_status sess = Status_ready) 503 (proxied 7680 (''/ide-api/'' @ i) sess))"

definition proxyToVM :: "server \<Rightarrow> http_request \<Rightarrow> string \<Rightarrow> nat \<Rightarrow> string \<Rightarrow> handler" where
  "proxyToVM s r i port strip =
     owned_session s r i (\<lambda>sess. checked (vm_up sess) 503 (proxied port strip sess))"

definition terminalProxy :: "server \<Rightarrow> http_request \<Rightarrow> string \<Rightarrow> handler" where
  "terminalProxy s r i = proxyToVM s r i 7681 (''/t/'' @ i)"

definition shellProxy :: "server \<Rightarrow> http_request \<Rightarrow> string \<Rightarrow> handler" where
  "shellProxy s r i = proxyToVM s r i 7682 (''/t/'' @ i @ ''/shell'')"

datatype route =
    Get_session | Delete_session int | Pause_session | Resume_session
  | Verify string int | Cmd "string option" | Navigate "string option" | Services
  | Terminal | Shell | Browser | Ide_page | Ide_files

definition serve :: "server \<Rightarrow> http_request \<Rightarrow> string \<Rightarrow> route \<Rightarrow> handler" where
  "serve s r i rt =
     (case rt of
        Get_session \<Rightarrow> getSession s r i
      | Delete_session now \<Rightarrow> deleteSession s r i now
      | Cmd body \<Rightarrow> injectCmd s r i body
      | Navigate body \<Rightarrow> navigateBrowser s r i body
      | Verify st now \<Rightarrow> verifyStep s r i st now
      | Services \<Rightarrow> sessionServices s r i
      | Pause_session \<Rightarrow> pauseSession s r i
      | Resume_session \<Rightarrow> resumeSession s r i
      | Terminal \<Rightarrow> terminalProxy s r i
      | Shell \<Rightarrow> shellProxy s r i
      | Browser \<Rightarrow> browserProxy s r i
      | Ide_page \<Rightarrow> idePage s r i
      | Ide_files \<Rightarrow> ideFileProxy s r i)"

section \<open>The other handlers\<close>

definition createSession :: "server \<Rightarrow> http_request \<Rightarrow> string option \<Rightarrow> string \<Rightarrow> string \<Rightarrow> int \<Rightarrow> handler" where
  "createSession s r scenario_id i j now k =
     (case scenario_id of
        None \<Rightarrow> (Status 400, None, k)
      | Some sid \<Rightarrow>
          (if sid = [] then (Status 400, None, k)
           else (case Create (load s) (ttl s) (client_of s r j) sid (authedEmail s r) [] i now k of
                   (Inl Session_exists, k1) \<Rightarrow> (Status 409, None, k1)
                 | (Inl _, k1) \<Rightarrow> (Status 500, None, k1)
                 | (Inr sess, k1) \<Rightarrow> (Session_reply 201 sess, None, k1))))"

definition getMySession :: "server \<Rightarrow> http_request \<Rightarrow> string \<Rightarrow> handler" where
  "getMySession s r j k =
     (case GetActive (client_of s r j) k of
        (None, k1) \<Rightarrow> (Status 404, None, k1) | (Some sess, k1) \<Rightarrow> (Session_reply 200 sess, None, k1))"

definition getConfig :: "server \<Rightarrow> http_request \<Rightarrow> int \<times> bool" where
  "getConfig s r = (ttl s div 60, isAE s (groupsFromRequest s r) (authedEmail s r))"

definition getScenario :: "server \<Rightarrow> string \<Rightarrow> (nat + scenario)" where
  "getScenario s sid = (case load s sid of Inl _ \<Rightarrow> Inl 404 | Inr sc \<Rightarrow> Inr sc)"

definition requireAE :: "server \<Rightarrow> http_request \<Rightarrow> handler \<Rightarrow> handler" where
  "requireAE s r h k =
     (if \<not> isAE s (groupsFromRequest s r) (authedEmail s r) then (Status 403, None, k) else h k)"

definition adminListSessions :: handler where
  "adminListSessions k = (case All_sessions k of (ss, k1) \<Rightarrow> (Sessions_reply ss, None, k1))"

definition adminDeleteSession :: "string \<Rightarrow> int \<Rightarrow> handler" where
  "adminDeleteSession i now = changing (Expire i now)"

section \<open>Who reaches what\<close>

text \<open>What a caller may do to a VM of a session it owns.\<close>

definition vm_target :: "session \<Rightarrow> vm_call \<Rightarrow> bool" where
  "vm_target sess c \<longleftrightarrow>
     s_status sess = Status_ready \<and> c_dns c = s_serviceDNS sess \<and> validServiceDNS (c_dns c) \<and>
     (c_port c \<in> {7680, 7681, 7682} \<or> c_port c = 6080 \<and> s_browserEnabled sess)"

lemma owned_session_cases:
  assumes "owned_session s r i h k = (rep, c, k')"
  obtains "rep \<in> {Status 403, Status 404}" "c = None" "crs k' = crs k"
  | l k1 where "l \<in> set (crs k)" "ls_name l = i" "ownsSession s r (lsToSession l)" "crs k1 = crs k"
      "h (lsToSession l) k1 = (rep, c, k')"
proof (cases "cr_get i k")
  case (Pair res k1)
  note same = crs_get [OF Pair]
  show thesis
  proof (cases res)
    case (Inl e)
    then show thesis
      using assms Pair same that(1) by (simp add: owned_session_def Get_def)
  next
    case (Inr l)
    then have l: "l \<in> set (crs k)" "ls_name l = i"
      using Pair by (auto simp: cr_get_def api_call_crs split: prod.splits if_splits option.splits dest!: find_name)
    show thesis
      using assms Pair Inr same that l
      by (cases "ownsSession s r (lsToSession l)") (auto simp: owned_session_def Get_def)
  qed
qed

lemma checked_call: "checked b n h k = (rep, Some c, k') \<Longrightarrow> b \<and> h k = (rep, Some c, k')"
  by (auto simp: checked_def split: if_splits)

lemma post_to_vm_call:
  "post_to_vm s p body sess k = (rep, Some c, k') \<Longrightarrow> s_status sess = Status_ready \<Longrightarrow> vm_target sess c"
  by (auto simp: post_to_vm_def vm_target_def Let_def split: option.splits dest!: checked_call)

lemma proxied_call:
  "proxied port p sess k = (rep, Some c, k') \<Longrightarrow> s_status sess = Status_ready \<Longrightarrow>
   port \<in> {7680, 7681, 7682} \<or> port = 6080 \<and> s_browserEnabled sess \<Longrightarrow> vm_target sess c"
  by (auto simp: proxied_def vm_target_def dest!: checked_call)

lemma changing_call [simp]: "changing m k \<noteq> (rep, Some c, k')"
  by (auto simp: changing_def split: prod.splits sum.splits)

lemmas handler_defs =
  getSession_def deleteSession_def pauseSession_def resumeSession_def verifyStep_def injectCmd_def
  navigateBrowser_def sessionServices_def browserProxy_def idePage_def ideFileProxy_def
  proxyToVM_def terminalProxy_def shellProxy_def

text \<open>The part of each handler after the owner check.\<close>

definition body_of :: "server \<Rightarrow> string \<Rightarrow> route \<Rightarrow> session \<Rightarrow> handler" where
  "body_of s i rt sess =
     (case rt of
        Get_session \<Rightarrow> (\<lambda>k. (Session_reply 200 sess, None, k))
      | Delete_session now \<Rightarrow> changing (Expire i now)
      | Cmd body \<Rightarrow> checked (vm_up sess) 503 (post_to_vm s ''/cmd'' body sess)
      | Navigate body \<Rightarrow> checked (s_browserEnabled sess \<and> vm_up sess) 503 (post_to_vm s ''/navigate'' body sess)
      | Verify st now \<Rightarrow> verify_body s i st now sess
      | Services \<Rightarrow> services_body s sess
      | Pause_session \<Rightarrow> changing (Pause i)
      | Resume_session \<Rightarrow> changing (Resume i)
      | Terminal \<Rightarrow> checked (vm_up sess) 503 (proxied 7681 (''/t/'' @ i) sess)
      | Shell \<Rightarrow> checked (vm_up sess) 503 (proxied 7682 (''/t/'' @ i @ ''/shell'') sess)
      | Browser \<Rightarrow> checked (s_browserEnabled sess) 404 (checked (vm_up sess) 503 (proxied 6080 (''/vnc/'' @ i) sess))
      | Ide_page \<Rightarrow> (\<lambda>k. (Page ''ide.html'', None, k))
      | Ide_files \<Rightarrow> checked (s_status sess = Status_ready) 503 (proxied 7680 (''/ide-api/'' @ i) sess))"

lemma serve_body: "serve s r i rt = owned_session s r i (body_of s i rt)"
  by (cases rt) (simp_all add: serve_def handler_defs body_of_def [abs_def])

lemma verify_body_call: "verify_body s i st now sess k = (rep, Some c, k') \<Longrightarrow> vm_target sess c"
  by (auto simp: verify_body_def vm_target_def vm_up_def Let_def split: verify_answer.splits dest!: checked_call)

lemma services_body_call: "services_body s sess k = (rep, Some c, k') \<Longrightarrow> vm_target sess c"
  by (auto simp: services_body_def vm_target_def vm_up_def Let_def split: if_splits)

lemma body_call: "body_of s i rt sess k = (rep, Some c, k') \<Longrightarrow> vm_target sess c"
  by (cases rt)
    (auto simp: body_of_def vm_up_def intro: verify_body_call services_body_call
      dest!: checked_call dest: post_to_vm_call proxied_call)

text \<open>
  C2: Only the owner of a session reaches its VM: whatever request makes the server call a VM,
  the call goes to the service of a ready session with that id which the requester owns, by
  the email of the token or, without one, by the cookie; its name cannot redirect the call,
  the port is one of the platform's own and the desktop's only if the session has a browser.
\<close>

theorem vm_reached_by_owner:
  assumes "serve s r i rt k = (rep, Some c, k')"
  shows "\<exists>l \<in> set (crs k). ls_name l = i \<and> ownsSession s r (lsToSession l) \<and> vm_target (lsToSession l) c"
  using assms unfolding serve_body
  by (cases rule: owned_session_cases) (use body_call in auto)

section \<open>What a request leaves in place\<close>

text \<open>What no request may change: whose session it is, and its phase, which is the operator's.\<close>

definition ident ::
  "lab_session \<Rightarrow> string \<times> (string \<rightharpoonup> string) \<times> string \<times> string \<times> string \<times> string \<times> phase" where
  "ident l =
     (ls_name l, ls_labels l, sessionID (ls_spec l), clientID (ls_spec l), userEmail (ls_spec l),
      scenarioID (ls_spec l), ph (ls_status l))"

definition none_gone :: "k8s \<Rightarrow> bool" where
  "none_gone k \<longleftrightarrow> list_all (\<lambda>l. \<not> gone l) (crs k)"

definition others :: "string \<Rightarrow> k8s \<Rightarrow> lab_session list" where
  "others i k = filter (\<lambda>l. ls_name l \<noteq> i) (crs k)"

definition only_touches :: "string \<Rightarrow> (k8s \<Rightarrow> 'a \<times> k8s) \<Rightarrow> bool" where
  "only_touches i m \<longleftrightarrow>
     (\<forall>k. none_gone k \<longrightarrow>
        map ident (crs (snd (m k))) = map ident (crs k) \<and> others i (snd (m k)) = others i k)"

lemma ident_name: "ident a = ident b \<Longrightarrow> ls_name a = ls_name b"
  by (simp add: ident_def)

lemma patch_only_touches:
  assumes "\<And>l. ident (f l) = ident l" and "\<And>l. gone (f l) = gone l"
  shows "only_touches i (cr_patch i f)"
  unfolding only_touches_def
proof (intro allI impI)
  fix k assume ng: "none_gone k"
  have "filter (\<lambda>x. \<not> gone x) (map (\<lambda>x. if ls_name x = i then f x else x) (crs k)) =
      map (\<lambda>x. if ls_name x = i then f x else x) (crs k)"
    using ng assms(2) by (intro filter_True) (auto simp: none_gone_def list_all_iff)
  moreover have "map ident (map (\<lambda>x. if ls_name x = i then f x else x) (crs k)) = map ident (crs k)"
    using assms(1) by simp
  moreover have "filter (\<lambda>l. ls_name l \<noteq> i) (map (\<lambda>x. if ls_name x = i then f x else x) xs) =
      filter (\<lambda>l. ls_name l \<noteq> i) xs" for xs
    using ident_name [OF assms(1)] by (induction xs) auto
  ultimately show "map ident (crs (snd (cr_patch i f k))) = map ident (crs k) \<and>
      others i (snd (cr_patch i f k)) = others i k"
    using crs_patch [of i f k] by (auto simp: others_def)
qed

lemma get_then_only_touches:
  "(\<And>l. only_touches i (h l)) \<Longrightarrow> only_touches i (get_then i h)"
  unfolding only_touches_def get_then_def
  by (auto simp: none_gone_def others_def split: prod.split sum.split dest!: crs_get)

lemma patched_only_touches: "only_touches i m \<Longrightarrow> only_touches i (\<lambda>k. patched (m k))"
  by (simp add: only_touches_def)

lemma spec_patch_touches:
  assumes "\<And>s. sessionID (f s) = sessionID s \<and> clientID (f s) = clientID s \<and> userEmail (f s) = userEmail s \<and>
    scenarioID (f s) = scenarioID s"
  shows "only_touches i (\<lambda>k. patched (cr_patch i (upd_spec f) k))"
  using assms
  by (intro patched_only_touches patch_only_touches) (simp_all add: ident_def upd_spec_def gone_def)

lemma manager_only_touches:
  "only_touches i (Expire i now)" "only_touches i (Pause i)" "only_touches i (Resume i)"
  unfolding Expire_def Pause_def Resume_def
  by (intro get_then_only_touches spec_patch_touches; simp)+

lemma mark_only_touches: "only_touches i (MarkStepComplete i st now)"
proof -
  have "only_touches i (mark_after_read i st now l)" for l
    using patched_only_touches [OF patch_only_touches]
    by (cases "list_ex (\<lambda>r. fst r = st) (completedSteps (ls_status l))")
      (simp_all add: mark_after_read_def [abs_def] only_touches_def ident_def upd_status_def gone_def)
  then show ?thesis
    unfolding MarkStepComplete_def by (rule get_then_only_touches)
qed

definition after :: "handler \<Rightarrow> k8s \<Rightarrow> reply \<times> k8s" where
  "after h k = (fst (h k), snd (snd (h k)))"

lemma touches_same: "(\<And>k. snd (snd (h k)) = k) \<Longrightarrow> only_touches i (after h)"
  by (simp add: only_touches_def after_def)

lemma touches_checked: "only_touches i (after h) \<Longrightarrow> only_touches i (after (checked b n h))"
  by (simp add: only_touches_def after_def checked_def)

lemma touches_changing: "only_touches i m \<Longrightarrow> only_touches i (after (changing m))"
  unfolding only_touches_def after_def changing_def
  by (simp add: split_beta split: sum.split)

lemma touches_verify: "only_touches i (after (verify_body s i st now sess))"
  unfolding verify_body_def
  by (intro touches_checked)
    (use mark_only_touches [of i st now] in \<open>simp add: only_touches_def after_def Let_def split: verify_answer.split\<close>)

lemma same_post: "snd (snd (post_to_vm s p body sess k)) = k"
  by (simp add: post_to_vm_def checked_def Let_def split: option.split)

lemma body_touches: "only_touches i (after (body_of s i rt sess))"
  by (cases rt)
    (simp_all add: body_of_def touches_verify touches_changing manager_only_touches touches_checked
      touches_same same_post proxied_def services_body_def Let_def)

lemma serve_cases:
  assumes "none_gone k" and "serve s r i rt k = (rep, c, k')"
  shows "map ident (crs k') = map ident (crs k) \<and> others i k' = others i k \<and>
    ((\<exists>l \<in> set (crs k). ls_name l = i \<and> ownsSession s r (lsToSession l)) \<or>
     rep \<in> {Status 403, Status 404} \<and> c = None \<and> crs k' = crs k)"
  using assms(2) unfolding serve_body
proof (cases rule: owned_session_cases)
  case 1
  then show ?thesis
    by (simp add: others_def)
next
  case (2 l k1)
  then have "none_gone k1" "others i k1 = others i k"
    using assms(1) by (simp_all add: none_gone_def others_def)
  then show ?thesis
    using 2 body_touches [of i s rt "lsToSession l"] by (auto simp: only_touches_def after_def)
qed

text \<open>
  C9: A request about session \<open>i\<close> changes nothing of any other session, and of none who owns
  it or its phase: ids, labels, client, email, scenario and phase of all sessions stay as they
  are. One that is not from the owner is refused, reaches no VM and changes nothing at all.
\<close>

theorem requests_keep_ownership:
  assumes "none_gone k" and "serve s r i rt k = (rep, c, k')"
  shows "map ident (crs k') = map ident (crs k) \<and> others i k' = others i k \<and>
    ((\<exists>l \<in> set (crs k). ls_name l = i \<and> ownsSession s r (lsToSession l)) \<or>
     rep \<in> {Status 403, Status 404} \<and> c = None \<and> crs k' = crs k)"
  using assms by (rule serve_cases)

section \<open>Owners get through\<close>

definition dns_part :: "string \<Rightarrow> bool" where
  "dns_part s \<longleftrightarrow> list_all (\<lambda>c. alnum c \<or> c = CHR ''-'' \<or> c = CHR ''.'') s"

lemma dns_part_append: "dns_part (s @ t) \<longleftrightarrow> dns_part s \<and> dns_part t"
  by (simp add: dns_part_def)

lemma serviceDNS_valid:
  assumes "dns_part (sessionID (ls_spec l))" and "dns_part (namespace cfg)"
  shows "validServiceDNS (serviceDNS_of cfg (resourceName l))"
proof -
  have "dns_part (take 8 (sessionID (ls_spec l)))"
    using assms(1) by (auto simp: dns_part_def list_all_iff dest: in_set_takeD)
  moreover have "dns_part ''lab-''" "dns_part ''.svc.cluster.local''" "dns_part ''.''"
    by code_simp+
  ultimately have "dns_part (serviceDNS_of cfg (resourceName l))"
    using assms unfolding serviceDNS_of_def resourceName_def Let_def
    by (simp only: dns_part_append split: if_split) simp
  then show ?thesis
    by (simp add: validServiceDNS_def dns_part_def [symmetric] serviceDNS_of_def)
qed

text \<open>
  The name the provider gives a session's service passes the server's check, so the owner
  of a ready session reaches the terminal: the request goes to that service, at a port that
  the provider opened for it. The hypotheses on the characters hold for UUIDs and for
  namespaces of Kubernetes.
\<close>

theorem owner_reaches_terminal:
  assumes "faults k = []" and "find (\<lambda>l. ls_name l = i) (crs k) = Some l"
    and "ownsSession s r (lsToSession l)" and "ph (ls_status l) = Ready"
    and "serviceDNS (ls_status l) = serviceDNS_of cfg (resourceName l)"
    and "dns_part (sessionID (ls_spec l))" and "dns_part (namespace cfg)"
  shows "serve s r i Terminal k =
    (Proxied, Some (Call (serviceDNS_of cfg (resourceName l)) 7681 (''/t/'' @ i)), k) \<and>
    7681 \<in> set (vm_ports l)"
proof -
  have valid: "validServiceDNS (serviceDNS_of cfg (resourceName l))"
    using assms by (intro serviceDNS_valid)
  have "Get i k = (Some (lsToSession l), k)"
    using assms by (simp add: Get_def cr_get_def)
  then show ?thesis
    using assms valid validServiceDNS_def
    by (simp add: serve_def terminalProxy_def proxyToVM_def owned_session_def checked_def vm_up_def
        proxied_def lsToSession_def status_of_phase_def vm_ports_def portTTYD_def)
qed

lemma Create_new:
  "Create ld d c sid email [] i now k = (Inr sess, k1) \<Longrightarrow>
   \<exists>ls l. crs k1 = ls @ [l] \<and> of_client c l \<and> active_phase (ph (ls_status l)) \<and>
     s_clientID sess = c \<and> s_userEmail sess = email"
  by (auto simp: Create_def create_commit_def cr_create_def split: prod.splits sum.splits if_splits)
    (simp_all add: new_session_def of_client_def active_phase_def)

text \<open>
  Someone whose token carries no email can create sessions but not use them: the client is
  then taken from the cookie, so \<^verbatim>\<open>createSession\<close> makes a session, \<^verbatim>\<open>getMySession\<close> finds it, and
  every request about it is forbidden.
\<close>

theorem session_without_email_unusable:
  assumes "bearer r = Some t" and "emailFromJWT s t = []" and "client_cookie r = Some v" and "v \<noteq> []"
    and "createSession s r (Some sid) i j now k = (Session_reply 201 sess, None, k1)" and "faults k1 = []"
  shows "s_clientID sess = v \<and> s_userEmail sess = [] \<and>
    (\<exists>mine. getMySession s r j k1 = (Session_reply 200 mine, None, k1)) \<and>
    fst (serve s r (s_id sess) rt k1) \<in> {Status 403, Status 404}"
proof -
  have client: "client_of s r j = v" "authedEmail s r = []"
    using assms by (simp_all add: client_of_def authedEmail_def)
  have strangers: "\<not> ownsSession s r x" for x
    using assms by (simp add: ownsSession_def)
  have "Create (load s) (ttl s) v sid [] [] i now k = (Inr sess, k1)"
    using assms(5) client
    by (auto simp: createSession_def split: if_splits prod.splits sum.splits mgr_error.splits)
  then obtain ls l where l: "crs k1 = ls @ [l]" "of_client v l" "active_phase (ph (ls_status l))"
    "s_clientID sess = v" "s_userEmail sess = []"
    using Create_new by blast
  have "lsToSession l \<in> set (map lsToSession (filter (of_client v) (crs k1)))"
    "s_status (lsToSession l) \<noteq> Status_expired"
    using l by (simp_all add: status_expired_iff)
  then have "find (\<lambda>x. s_status x \<noteq> Status_expired) (map lsToSession (filter (of_client v) (crs k1))) \<noteq> None"
    unfolding find_None_iff by blast
  then obtain mine where "find (\<lambda>x. s_status x \<noteq> Status_expired) (map lsToSession (filter (of_client v) (crs k1))) = Some mine"
    by blast
  then have "GetActive v k1 = (Some mine, k1)"
    using assms(6) by (simp add: GetActive_def cr_list_def)
  then have "\<exists>mine. getMySession s r j k1 = (Session_reply 200 mine, None, k1)"
    by (simp add: getMySession_def client)
  moreover have "fst (serve s r (s_id sess) rt k1) \<in> {Status 403, Status 404}"
    unfolding serve_body owned_session_def using strangers by (auto split: prod.split option.split)
  ultimately show ?thesis
    using l by simp
qed

text \<open>
  Administration is closed to others: without the configured group among the groups of the
  token the wrapped handler is not run and nothing changes, whatever the email; only where
  the development mode is on does a token without groups suffice, if it has an email.
\<close>

theorem admin_needs_group:
  assumes "aeGroup s \<notin> set (groupsFromRequest s r)"
    and "\<not> devMode s \<or> groupsFromRequest s r \<noteq> [] \<or> authedEmail s r = []"
  shows "requireAE s r h k = (Status 403, None, k)"
  using assms by (auto simp: requireAE_def isAE_def list_ex_iff trim_def)

section \<open>Examples\<close>

text \<open>The payload of a token of the examples is the email itself; its digest is the identity.\<close>

definition sample_server :: server where
  "sample_server =
     \<lparr>email_claim = (\<lambda>p. Some p), groups_claim = (\<lambda>p. Some []), digest = (\<lambda>e. e), load = sample_load,
      links_of = (\<lambda>_. []), ttl = 3600, aeGroup = ''/UDS Core/Admin'', devMode = False,
      vm_post = (\<lambda>_ _. Some 200), vm_verify = (\<lambda>_ _. Answer False True),
      vm_services = (\<lambda>_. None)\<rparr>"

definition request_of :: "string \<Rightarrow> http_request" where
  "request_of email = \<lparr>authorization = ''Bearer h.'' @ encode email, client_cookie = Some ''c1''\<rparr>"

definition ready_session :: lab_session where
  "ready_session =
     (new_session ''c1'' ''intro'' ''ann@x.io'' [] ''1234567890'' 100 3600 ''small'' False)
       \<lparr>ls_status := \<lparr>ph = Ready, serviceDNS = ''lab-12345678.vms.svc.cluster.local'', message = [],
                      completedSteps = [], snapshotName = []\<rparr>\<rparr>"

definition one_session :: k8s where
  "one_session = \<lparr>crs = [ready_session], faults = []\<rparr>"

lemma sample_post: "vm_post sample_server c b = Some 200"
  by (simp add: sample_server_def)

lemma ann_owns: "ownsSession sample_server (request_of ''Ann@X.io'') (lsToSession ready_session)"
  by code_simp

lemma bob_owns_not: "\<not> ownsSession sample_server (request_of ''bob@x.io'') (lsToSession ready_session)"
  by code_simp

lemma one_session_get: "Get ''1234567890'' one_session = (Some (lsToSession ready_session), one_session)"
  by (simp add: Get_def cr_get_def api_call_def one_session_def ready_session_def new_session_def)

theorem vm_reached_by_owner_witness:
  "\<exists>l \<in> set (crs one_session). ls_name l = ''1234567890'' \<and>
     ownsSession sample_server (request_of ''Ann@X.io'') (lsToSession l) \<and>
     vm_target (lsToSession l) (Call ''lab-12345678.vms.svc.cluster.local'' 7680 ''/cmd'')"
proof (rule vm_reached_by_owner)
  have "vm_up (lsToSession ready_session)" "validServiceDNS (s_serviceDNS (lsToSession ready_session))"
    "s_serviceDNS (lsToSession ready_session) = ''lab-12345678.vms.svc.cluster.local''"
    by code_simp+
  then show "serve sample_server (request_of ''Ann@X.io'') ''1234567890'' (Cmd (Some ''ls'')) one_session =
      (Status 200, Some (Call ''lab-12345678.vms.svc.cluster.local'' 7680 ''/cmd''), one_session)"
    by (simp add: serve_def injectCmd_def owned_session_def one_session_get ann_owns checked_def post_to_vm_def sample_post)
qed

theorem requests_keep_ownership_witness:
  "\<exists>rep c k'. serve sample_server (request_of ''bob@x.io'') ''1234567890'' Pause_session one_session = (rep, c, k') \<and>
     map ident (crs k') = map ident (crs one_session) \<and> others ''1234567890'' k' = others ''1234567890'' one_session"
proof -
  have "none_gone one_session"
    by (simp add: none_gone_def one_session_def ready_session_def new_session_def gone_def)
  moreover have "serve sample_server (request_of ''bob@x.io'') ''1234567890'' Pause_session one_session =
      (Status 403, None, one_session)"
    by (simp add: serve_def pauseSession_def owned_session_def one_session_get bob_owns_not)
  ultimately show ?thesis
    using requests_keep_ownership by blast
qed

definition access_config :: config where
  "access_config =
     \<lparr>namespace = ''vms'', server_namespace = ''lab'', cfg_load = sample_load, cfg_render = (\<lambda>_ _. Some []),
      size_overrides_map = (\<lambda>_. None), golden_pvcs = (\<lambda>_. None), quantity_ok = (\<lambda>_. True),
      disk_size = ''20Gi''\<rparr>"

theorem owner_reaches_terminal_witness:
  "serve sample_server (request_of ''Ann@X.io'') ''1234567890'' Terminal one_session =
     (Proxied, Some (Call (serviceDNS_of access_config (resourceName ready_session)) 7681
        (''/t/'' @ ''1234567890'')), one_session) \<and>
   7681 \<in> set (vm_ports ready_session)"
proof (rule owner_reaches_terminal)
  show "faults one_session = []"
    "find (\<lambda>l. ls_name l = ''1234567890'') (crs one_session) = Some ready_session"
    by (simp_all add: one_session_def ready_session_def new_session_def)
  show "ph (ls_status ready_session) = Ready"
    by (simp add: ready_session_def)
  show "serviceDNS (ls_status ready_session) = serviceDNS_of access_config (resourceName ready_session)"
    "dns_part (sessionID (ls_spec ready_session))" "dns_part (namespace access_config)"
    by code_simp+
qed (rule ann_owns)

theorem session_without_email_unusable_witness:
  "\<exists>sess k1. createSession sample_server (request_of ''  '') (Some ''intro'') ''i1'' ''j'' 100 \<lparr>crs = [], faults = []\<rparr>
       = (Session_reply 201 sess, None, k1) \<and> s_userEmail sess = [] \<and>
     fst (serve sample_server (request_of ''  '') (s_id sess) Terminal k1) \<in> {Status 403, Status 404}"
proof -
  let ?k = "\<lparr>crs = [], faults = []\<rparr> :: k8s"
  have b: "bearer (request_of ''  '') = Some (''h.'' @ encode ''  '')" "client_cookie (request_of ''  '') = Some ''c1''"
    by (simp_all add: bearer_def request_of_def starts_with_def trim_prefix_def)
  have e: "emailFromJWT sample_server (''h.'' @ encode ''  '') = []"
    by code_simp
  have "client_of sample_server (request_of ''  '') ''j'' = ''c1''" "authedEmail sample_server (request_of ''  '') = []"
    using b e by (simp_all add: client_of_def authedEmail_def)
  then obtain sess k1 where k1: "createSession sample_server (request_of ''  '') (Some ''intro'') ''i1'' ''j'' 100 ?k =
      (Session_reply 201 sess, None, k1)" "faults k1 = []"
    by (simp add: createSession_def mgr_eval sample_server_def)
  show ?thesis
    using session_without_email_unusable [OF b(1) e b(2) _ k1] k1(1) by auto
qed

theorem admin_needs_group_witness:
  "requireAE sample_server (request_of ''ann@x.io'') (adminDeleteSession ''1234567890'' 5) one_session =
     (Status 403, None, one_session)"
proof (rule admin_needs_group)
  show "aeGroup sample_server \<notin> set (groupsFromRequest sample_server (request_of ''ann@x.io''))"
    by code_simp
qed (simp add: sample_server_def)

end
