(* ===== verification/Lab_Page.thy ===== *)
theory Lab_Page
  imports Access
begin

text \<open>
  The page of a running lab, the script of \<^verbatim>\<open>web/static/lab.html\<close>: terminal tabs, the switch to
  the IDE, the steps with their checks, the timer, and how the page follows its session.

  The page is a machine as the IDE is. Its state holds the variables of the script, what the
  script last wrote to the elements, the requests it has sent and the ones in flight. A click
  is an event only while its button is shown and enabled. An \<^verbatim>\<open>await\<close> splits a function in
  two. \<open>env_passed\<close> is no part of the page: it records the steps the server called passed. The
  rendering of Markdown (\<open>marked\<close>) and effects that fade by themselves (\<^verbatim>\<open>running\<close>, \<^verbatim>\<open>cmd-sent\<close>) are
  left out. An overlay hides nothing from the keyboard, so it excludes no click. Times are
  those of the browser's clock, in milliseconds.
\<close>

section \<open>State\<close>

record page_tab =
  t_id :: nat
  t_src :: string
  t_title :: string
  t_shown :: bool
  t_lit :: bool
  t_label :: nat
  t_close :: nat
  t_click :: nat

datatype page_request =
    Ask_scenario | Ask_session | Ask_services | Ask_verify nat
  | Send_cmd string | Send_navigate string | Send_delete | Send_pause | Send_resume

datatype check_look = Look_check | Look_checking | Look_passed | Look_not_yet

datatype dot = Dot_plain | Dot_done | Dot_active

datatype terminal_status = Provisioning_vm | Connected | Paused_resume

datatype timer_class = Timer_plain | Timer_warn | Timer_danger

record lab_page =
  SESSION :: string
  steps :: "step list"
  currentStep :: nat
  labReady :: bool
  stepVerified :: "nat \<Rightarrow> bool"
  page_expires :: "int option"
  ticking :: bool
  polling :: bool
  tabs :: "page_tab list"
  activeTab :: "nat option"
  ideOpen :: bool
  vnc_open :: bool
  service_poll :: bool
  leaked_polls :: nat
  servicesOpen :: bool
  step_shown :: "step option"
  counter_shown :: "nat \<times> nat"
  prev_disabled :: bool
  next_disabled :: bool
  next_is_finish :: bool
  check_shown :: bool
  check_disabled :: bool
  check_text :: check_look
  check_class :: check_look
  dots :: "dot list"
  add_disabled :: bool
  ide_disabled :: bool
  ide_loaded :: "string option"
  ide_shown :: bool
  ide_lit :: bool
  browser_shown :: bool
  locked :: bool
  loading_hidden :: bool
  long_wait :: bool
  terminal :: terminal_status
  resume_shown :: bool
  resume_disabled :: bool
  resuming :: bool
  end_shown :: bool
  confirm_shown :: bool
  teardown_shown :: bool
  saving_text :: bool
  completion_shown :: bool
  timer_text :: string
  timer_look :: timer_class
  services :: "link list"
  services_shown :: bool
  opened :: "string list"
  reset_timers :: nat
  nav_timers :: "string list"
  sent :: "page_request list"
  waiting :: "page_request list"
  left_page :: bool
  env_passed :: "nat \<Rightarrow> bool"

text \<open>
  The page as it is served for a session and a scenario, with \<^verbatim>\<open>init\<close> run up to its \<^verbatim>\<open>await\<close>.
  (Without them it goes back to the start page.)
\<close>

definition open_page :: "string \<Rightarrow> lab_page" where
  "open_page session =
     \<lparr>SESSION = session, steps = [], currentStep = 0, labReady = False, stepVerified = (\<lambda>_. False),
      page_expires = None, ticking = False, polling = False, tabs = [], activeTab = None,
      ideOpen = False, vnc_open = False, service_poll = False, leaked_polls = 0, servicesOpen = True,
      step_shown = None, counter_shown = (0, 0), prev_disabled = False, next_disabled = False,
      next_is_finish = False, check_shown = False, check_disabled = False, check_text = Look_check,
      check_class = Look_check, dots = [], add_disabled = True, ide_disabled = True,
      ide_loaded = None, ide_shown = False, ide_lit = False, browser_shown = False, locked = True,
      loading_hidden = False, long_wait = False, terminal = Provisioning_vm, resume_shown = False,
      resume_disabled = False, resuming = False, end_shown = True, confirm_shown = False,
      teardown_shown = False, saving_text = False, completion_shown = False, timer_text = ''--:--'',
      timer_look = Timer_plain, services = [], services_shown = False, opened = [],
      reset_timers = 0, nav_timers = [], sent = [Ask_scenario], waiting = [Ask_scenario],
      left_page = False, env_passed = (\<lambda>_. False)\<rparr>"

text \<open>A \<^verbatim>\<open>fetch\<close> whose answer is awaited, and one whose answer is not.\<close>

definition ask :: "page_request \<Rightarrow> lab_page \<Rightarrow> lab_page" where
  "ask r s = s\<lparr>sent := sent s @ [r], waiting := waiting s @ [r]\<rparr>"

definition tell :: "page_request \<Rightarrow> lab_page \<Rightarrow> lab_page" where
  "tell r s = s\<lparr>sent := sent s @ [r]\<rparr>"

section \<open>Tabs and the IDE\<close>

definition MAX_TABS :: nat where "MAX_TABS = 4"

definition terminal_src :: "string \<Rightarrow> nat \<Rightarrow> string" where
  "terminal_src session i =
     (if i = 1 then ''/t/'' @ session @ ''/'' else ''/t/'' @ session @ ''/shell/'')"

definition light :: "nat option \<Rightarrow> page_tab list \<Rightarrow> page_tab list" where
  "light idx ts = map2 (\<lambda>i t. t\<lparr>t_shown := Some i = idx, t_lit := Some i = idx\<rparr>) [0..<length ts] ts"

definition renumber :: "page_tab list \<Rightarrow> page_tab list" where
  "renumber ts = map2 (\<lambda>i t. t\<lparr>t_label := i + 1, t_close := i, t_click := i\<rparr>) [0..<length ts] ts"

definition switchTab :: "nat \<Rightarrow> lab_page \<Rightarrow> lab_page" where
  "switchTab idx s =
     (let s1 = (if ideOpen s then s\<lparr>ideOpen := False, ide_shown := False, ide_lit := False\<rparr> else s)
      in s1\<lparr>tabs := light (Some idx) (tabs s1), activeTab := Some idx\<rparr>)"

definition new_tab :: "string \<Rightarrow> nat \<Rightarrow> page_tab" where
  "new_tab session i =
     \<lparr>t_id = i, t_src = terminal_src session i,
      t_title = (if i = 1 then ''Terminal 1 (setup)'' else ''Terminal '' @ nat_str i),
      t_shown = False, t_lit = False, t_label = i, t_close = i - 1, t_click = i - 1\<rparr>"

definition addTab :: "lab_page \<Rightarrow> lab_page" where
  "addTab s =
     (if length (tabs s) \<ge> MAX_TABS then s
      else (let s1 = s\<lparr>tabs := tabs s @ [new_tab (SESSION s) (length (tabs s) + 1)]\<rparr>;
                s2 = switchTab (length (tabs s1) - 1) s1
            in s2\<lparr>add_disabled := length (tabs s2) \<ge> MAX_TABS\<rparr>))"

text \<open>An index without a tab makes the destructuring throw.\<close>

definition closeTab :: "nat \<Rightarrow> lab_page \<Rightarrow> lab_page" where
  "closeTab idx s =
     (if length (tabs s) = 1 then s
      else if idx \<ge> length (tabs s) then s
      else (let s1 = s\<lparr>tabs := renumber (remove_at idx (tabs s))\<rparr>;
                s2 = switchTab (min idx (length (tabs s1) - 1)) s1
            in s2\<lparr>add_disabled := length (tabs s2) \<ge> MAX_TABS\<rparr>))"

definition toggleIDE :: "lab_page \<Rightarrow> lab_page" where
  "toggleIDE s =
     (let s1 = s\<lparr>ideOpen := \<not> ideOpen s\<rparr>
      in if ideOpen s1
         then s1\<lparr>ide_loaded := (if ide_loaded s1 = None then Some (''/ide/'' @ SESSION s) else ide_loaded s1),
                 ide_shown := True, ide_lit := True, tabs := light None (tabs s1)\<rparr>
         else (let s2 = s1\<lparr>ide_shown := False, ide_lit := False\<rparr>
               in case activeTab s2 of None \<Rightarrow> s2 | Some i \<Rightarrow> switchTab i s2))"

section \<open>Steps\<close>

definition updateDots :: "lab_page \<Rightarrow> lab_page" where
  "updateDots s =
     s\<lparr>dots := map (\<lambda>i. if i = currentStep s then Dot_active
                       else if i < currentStep s then Dot_done else Dot_plain) [0..<length (dots s)]\<rparr>"

definition renderDots :: "lab_page \<Rightarrow> lab_page" where
  "renderDots s = s\<lparr>dots := replicate (length (steps s)) Dot_plain\<rparr>"

text \<open>\<^verbatim>\<open>Math.max(0, Math.min(n, steps.length - 1))\<close>; without steps \<^verbatim>\<open>step.title\<close> throws.\<close>

definition step_buttons :: "step \<Rightarrow> bool \<Rightarrow> lab_page \<Rightarrow> lab_page" where
  "step_buttons st verified s =
     (if has_verify st
      then s\<lparr>check_shown := True, check_disabled := \<not> labReady s \<or> verified,
             check_class := (if verified then Look_passed else Look_check),
             check_text := (if verified then Look_passed else Look_check),
             next_disabled := \<not> labReady s \<or> \<not> verified\<rparr>
      else s\<lparr>check_shown := False, next_disabled := \<not> labReady s\<rparr>)"

definition showStep :: "int \<Rightarrow> lab_page \<Rightarrow> lab_page" where
  "showStep n s =
     (let cur = nat (max 0 (min n (int (length (steps s)) - 1)));
          s1 = s\<lparr>currentStep := cur\<rparr>
      in if cur \<ge> length (steps s) then s1
         else (let s2 = s1\<lparr>step_shown := Some (steps s ! cur), counter_shown := (cur + 1, length (steps s)),
                           prev_disabled := \<not> labReady s1 \<or> cur = 0\<rparr>;
                   s3 = step_buttons (steps s ! cur) (stepVerified s1 cur) s2
               in updateDots (s3\<lparr>next_is_finish := (int cur = int (length (steps s)) - 1)\<rparr>)))"

definition prevStep :: "lab_page \<Rightarrow> lab_page" where
  "prevStep s = showStep (int (currentStep s) - 1) s"

definition nextStep :: "lab_page \<Rightarrow> lab_page" where
  "nextStep s =
     (if int (currentStep s) = int (length (steps s)) - 1 then s\<lparr>completion_shown := True\<rparr>
      else showStep (int (currentStep s) + 1) s)"

text \<open>\<^verbatim>\<open>checkStep\<close> up to its \<^verbatim>\<open>await\<close>, after it, and in its \<^verbatim>\<open>catch\<close>.\<close>

definition checkStep :: "lab_page \<Rightarrow> lab_page" where
  "checkStep s =
     ask (Ask_verify (currentStep s + 1))
       (s\<lparr>check_disabled := True, check_text := Look_checking, check_class := Look_check\<rparr>)"

definition check_answered :: "bool \<Rightarrow> lab_page \<Rightarrow> lab_page" where
  "check_answered passed s =
     (if passed
      then s\<lparr>stepVerified := (stepVerified s)(currentStep s := True), check_text := Look_passed,
             check_class := Look_passed, next_disabled := False\<rparr>
      else s\<lparr>check_text := Look_not_yet, check_class := Look_not_yet,
             reset_timers := Suc (reset_timers s)\<rparr>)"

definition check_reset :: "lab_page \<Rightarrow> lab_page" where
  "check_reset s = s\<lparr>check_text := Look_check, check_class := Look_check, check_disabled := False\<rparr>"

definition check_failed :: "lab_page \<Rightarrow> lab_page" where
  "check_failed s = s\<lparr>check_text := Look_check, check_disabled := False\<rparr>"
section \<open>Ending, pausing, resuming and the timer\<close>

text \<open>\<^verbatim>\<open>clearInterval\<close> of the three handles; an interval whose handle was overwritten goes on.\<close>

definition clear_intervals :: "lab_page \<Rightarrow> lab_page" where
  "clear_intervals s = s\<lparr>ticking := False, polling := False, service_poll := False\<rparr>"

definition endLab :: "lab_page \<Rightarrow> lab_page" where
  "endLab s = ask Send_delete (clear_intervals (s\<lparr>confirm_shown := False, teardown_shown := True\<rparr>))"

definition pauseLab :: "lab_page \<Rightarrow> lab_page" where
  "pauseLab s =
     ask Send_pause (clear_intervals (s\<lparr>confirm_shown := False, teardown_shown := True, saving_text := True\<rparr>))"

definition resumeLab :: "lab_page \<Rightarrow> lab_page" where
  "resumeLab s = ask Send_resume (s\<lparr>resume_disabled := True, resuming := True\<rparr>)"

definition pad2 :: "nat \<Rightarrow> string" where
  "pad2 n = (if n < 10 then CHR ''0'' # nat_str n else nat_str n)"

definition timer_of :: "int \<Rightarrow> string \<times> timer_class" where
  "timer_of remaining =
     (let totalSecs = nat (remaining div 1000);
          h = totalSecs div 3600; m = (totalSecs mod 3600) div 60; s = totalSecs mod 60
      in (if h > 0 then nat_str h @ '':'' @ pad2 m @ '':'' @ pad2 s else pad2 m @ '':'' @ pad2 s,
          if m < 5 \<and> h = 0 then Timer_danger else if m < 15 \<and> h = 0 then Timer_warn else Timer_plain))"

text \<open>Clocks count milliseconds. \<^verbatim>\<open>timerTick\<close> runs only after \<^verbatim>\<open>expiresAt\<close> was set.\<close>

definition timerTick :: "int \<Rightarrow> lab_page \<Rightarrow> lab_page" where
  "timerTick now s =
     (case page_expires s of
        None \<Rightarrow> s
      | Some e \<Rightarrow>
          (let remaining = max 0 (e - now);
               s1 = s\<lparr>timer_text := fst (timer_of remaining), timer_look := snd (timer_of remaining)\<rparr>
           in if remaining = 0 then endLab (s1\<lparr>ticking := False\<rparr>) else s1))"

definition startTimer :: "int \<Rightarrow> lab_page \<Rightarrow> lab_page" where
  "startTimer now s = (timerTick now s)\<lparr>ticking := True\<rparr>"

section \<open>Services and the browser of the VM\<close>

definition vnc_url :: "string \<Rightarrow> string" where
  "vnc_url i =
     ''/vnc/'' @ i @ ''/vnc.html?autoconnect=true&resize=scale&path=vnc/'' @ i @ ''/websockify''"

definition openBrowser :: "lab_page \<Rightarrow> lab_page" where
  "openBrowser s =
     (if \<not> vnc_open s then s\<lparr>vnc_open := True, opened := opened s @ [vnc_url (SESSION s)]\<rparr> else s)"

definition ensureVNCOpen :: "lab_page \<Rightarrow> lab_page" where
  "ensureVNCOpen s = (if \<not> vnc_open s then openBrowser s else s)"

text \<open>A click on a service, and on a link of the instructions that \<^verbatim>\<open>bindVNCLinks\<close> took over.\<close>

definition navigate :: "string \<Rightarrow> lab_page \<Rightarrow> lab_page" where
  "navigate url s =
     (if \<not> labReady s then s
      else (let s1 = ensureVNCOpen s in s1\<lparr>nav_timers := nav_timers s1 @ [url]\<rparr>))"

definition fetchServices :: "lab_page \<Rightarrow> lab_page" where
  "fetchServices s = ask Ask_services s"

definition startServicesPoll :: "lab_page \<Rightarrow> lab_page" where
  "startServicesPoll s =
     (let s1 = fetchServices s
      in s1\<lparr>leaked_polls := (if service_poll s1 then Suc (leaked_polls s1) else leaked_polls s1),
            service_poll := True\<rparr>)"

definition renderServices :: "link list \<Rightarrow> lab_page \<Rightarrow> lab_page" where
  "renderServices svs s = (if svs \<noteq> [] then s\<lparr>services := svs, services_shown := True\<rparr> else s)"

definition toggleServices :: "lab_page \<Rightarrow> lab_page" where
  "toggleServices s = s\<lparr>servicesOpen := \<not> servicesOpen s\<rparr>"

definition trim_end :: "string \<Rightarrow> string" where
  "trim_end t = rev (dropWhile is_space (rev t))"

text \<open>\<^verbatim>\<open>bindCodeBlocks\<close>: the click on a block. Without a tab \<^verbatim>\<open>tabs[0].btn\<close> throws.\<close>

definition code_click :: "string \<Rightarrow> lab_page \<Rightarrow> lab_page" where
  "code_click code s =
     (if \<not> labReady s then s
      else (let s1 = (if activeTab s \<noteq> Some 0 then switchTab 0 s else s)
            in if tabs s1 = [] then s1 else tell (Send_cmd (trim_end code)) s1))"

section \<open>Following the session\<close>

text \<open>\<^verbatim>\<open>new Date(expires_at)\<close>; a resource without an expiry has Go's zero time.\<close>

definition date_ms :: "int option \<Rightarrow> int" where
  "date_ms t = (case t of None \<Rightarrow> -62135596800000 | Some x \<Rightarrow> 1000 * x)"

definition on_ready :: "session \<Rightarrow> lab_page \<Rightarrow> lab_page" where
  "on_ready sess s =
     (let s1 = s\<lparr>polling := False, labReady := True, locked := False, loading_hidden := True,
                 terminal := Connected, add_disabled := False, ide_disabled := False,
                 browser_shown := browser_shown s \<or> s_browserEnabled sess, resume_shown := False\<rparr>;
          s2 = addTab (showStep (int (currentStep s1)) s1)
      in if s_browserEnabled sess then startServicesPoll s2 else s2)"

definition on_paused :: "lab_page \<Rightarrow> lab_page" where
  "on_paused s =
     s\<lparr>polling := False, labReady := False, terminal := Paused_resume, end_shown := False,
       resume_shown := True, resume_disabled := False, resuming := False\<rparr>"

text \<open>An answer of \<^verbatim>\<open>pollSession\<close>: a session, or \<open>None\<close> for an object with an error.\<close>

definition polled :: "session option \<Rightarrow> int \<Rightarrow> lab_page \<Rightarrow> lab_page" where
  "polled answer now s =
     (case answer of
        None \<Rightarrow> s\<lparr>polling := False\<rparr>
      | Some sess \<Rightarrow>
          (let s1 = (if page_expires s = None
                     then startTimer now (s\<lparr>page_expires := Some (date_ms (s_expiresAt sess))\<rparr>) else s)
           in if s_status sess = Status_ready then on_ready sess s1
              else if s_status sess = Status_paused then on_paused s1
              else s1\<lparr>long_wait := True\<rparr>))"

text \<open>\<^verbatim>\<open>init\<close> after its \<^verbatim>\<open>await\<close>; without steps \<^verbatim>\<open>showStep\<close> throws before \<^verbatim>\<open>pollSession\<close>.\<close>

definition init_answered :: "scenario \<Rightarrow> lab_page \<Rightarrow> lab_page" where
  "init_answered sc s =
     (let s1 = showStep 0 (renderDots (s\<lparr>steps := sc_steps sc\<rparr>))
      in if sc_steps sc = [] then s1 else s1\<lparr>polling := True\<rparr>)"

section \<open>The machine\<close>

datatype page_event =
    Scenario_answer nat scenario
  | Poll_tick | Session_answer nat "session option" int
  | Timer_fires int
  | Add_click | Tab_click nat | Tab_close nat | Ide_click
  | Prev_click | Next_click | Dot_click nat
  | Check_click | Verify_answer nat bool | Verify_lost nat | Reset_fires
  | Code_click string
  | Navigate_click string | Navigate_fires nat | Browser_click | Browser_closed
  | Services_tick | Services_answer nat "link list" | Services_click
  | End_click | Cancel_click | Keep_click | Discard_click | Save_click | Resume_click
  | Resume_answer nat | Left_answer nat
  | Lost nat

definition answered :: "nat \<Rightarrow> lab_page \<Rightarrow> lab_page" where
  "answered i s = s\<lparr>waiting := remove_at i (waiting s)\<rparr>"

definition in_flight :: "lab_page \<Rightarrow> nat \<Rightarrow> page_request option" where
  "in_flight s i = (if i < length (waiting s) then Some (waiting s ! i) else None)"

definition enabled :: "bool \<Rightarrow> (lab_page \<Rightarrow> lab_page) \<Rightarrow> lab_page \<Rightarrow> lab_page" where
  "enabled b f s = (if b then f s else s)"

text \<open>An answer that was passed is recorded for its step in \<open>env_passed\<close>.\<close>

definition verify_answered :: "nat \<Rightarrow> nat \<Rightarrow> bool \<Rightarrow> lab_page \<Rightarrow> lab_page" where
  "verify_answered i n passed s =
     check_answered passed
       ((answered i s)\<lparr>env_passed := (if passed then (env_passed s)(n - 1 := True) else env_passed s)\<rparr>)"

definition on_answer :: "lab_page \<Rightarrow> page_event \<Rightarrow> lab_page" where
  "on_answer s e =
     (case e of
        Scenario_answer i sc \<Rightarrow> enabled (in_flight s i = Some Ask_scenario) (init_answered sc \<circ> answered i) s
      | Session_answer i a now \<Rightarrow> enabled (in_flight s i = Some Ask_session) (polled a now \<circ> answered i) s
      | Verify_answer i passed \<Rightarrow>
          (case in_flight s i of Some (Ask_verify n) \<Rightarrow> verify_answered i n passed s | _ \<Rightarrow> s)
      | Verify_lost i \<Rightarrow>
          (case in_flight s i of Some (Ask_verify n) \<Rightarrow> check_failed (answered i s) | _ \<Rightarrow> s)
      | Services_answer i svs \<Rightarrow>
          enabled (in_flight s i = Some Ask_services) (renderServices svs \<circ> answered i) s
      | Resume_answer i \<Rightarrow>
          enabled (in_flight s i = Some Send_resume) ((\<lambda>t. t\<lparr>terminal := Provisioning_vm\<rparr>) \<circ> answered i) s
      | Left_answer i \<Rightarrow>
          enabled (in_flight s i = Some Send_delete \<or> in_flight s i = Some Send_pause)
            ((\<lambda>t. t\<lparr>left_page := True\<rparr>) \<circ> answered i) s
      | Lost i \<Rightarrow>
          enabled (in_flight s i \<in> {Some Ask_scenario, Some Ask_session, Some Ask_services}) (answered i) s
      | _ \<Rightarrow> s)"

definition on_timer :: "lab_page \<Rightarrow> page_event \<Rightarrow> lab_page" where
  "on_timer s e =
     (case e of
        Poll_tick \<Rightarrow> enabled (polling s) (ask Ask_session) s
      | Timer_fires now \<Rightarrow> enabled (ticking s) (timerTick now) s
      | Services_tick \<Rightarrow> enabled (service_poll s \<or> leaked_polls s > 0) fetchServices s
      | Reset_fires \<Rightarrow> enabled (reset_timers s > 0) (\<lambda>s. check_reset (s\<lparr>reset_timers := reset_timers s - 1\<rparr>)) s
      | Navigate_fires i \<Rightarrow>
          enabled (i < length (nav_timers s))
            (\<lambda>s. tell (Send_navigate (nav_timers s ! i)) (s\<lparr>nav_timers := remove_at i (nav_timers s)\<rparr>)) s
      | _ \<Rightarrow> s)"

definition on_click :: "lab_page \<Rightarrow> page_event \<Rightarrow> lab_page" where
  "on_click s e =
     (case e of
        Add_click \<Rightarrow> enabled (\<not> add_disabled s) addTab s
      | Tab_click i \<Rightarrow> enabled (i < length (tabs s)) (switchTab (t_click (tabs s ! i))) s
      | Tab_close i \<Rightarrow> enabled (i < length (tabs s)) (closeTab (t_close (tabs s ! i))) s
      | Ide_click \<Rightarrow> enabled (\<not> ide_disabled s) toggleIDE s
      | Prev_click \<Rightarrow> enabled (\<not> prev_disabled s) prevStep s
      | Next_click \<Rightarrow> enabled (\<not> next_disabled s) nextStep s
      | Dot_click i \<Rightarrow> enabled (i < length (dots s)) (showStep (int i)) s
      | Check_click \<Rightarrow> enabled (check_shown s \<and> \<not> check_disabled s) checkStep s
      | Code_click code \<Rightarrow> enabled (step_shown s \<noteq> None) (code_click code) s
      | Navigate_click url \<Rightarrow> navigate url s
      | Browser_click \<Rightarrow> enabled (browser_shown s) openBrowser s
      | Browser_closed \<Rightarrow> s\<lparr>vnc_open := False\<rparr>
      | Services_click \<Rightarrow> enabled (services_shown s) toggleServices s
      | End_click \<Rightarrow> enabled (end_shown s) (confirm_shown_update (\<lambda>_. True)) s
      | Cancel_click \<Rightarrow> enabled (confirm_shown s) (confirm_shown_update (\<lambda>_. False)) s
      | Keep_click \<Rightarrow> enabled (completion_shown s) (completion_shown_update (\<lambda>_. False)) s
      | Discard_click \<Rightarrow> enabled (confirm_shown s \<or> completion_shown s) endLab s
      | Save_click \<Rightarrow> enabled (confirm_shown s) pauseLab s
      | Resume_click \<Rightarrow> enabled (resume_shown s \<and> \<not> resume_disabled s) resumeLab s
      | _ \<Rightarrow> s)"

definition page_step :: "lab_page \<Rightarrow> page_event \<Rightarrow> lab_page" where
  "page_step s e = (if left_page s then s else on_click (on_timer (on_answer s e) e) e)"

abbreviation page_run :: "string \<Rightarrow> page_event list \<Rightarrow> lab_page" where
  "page_run session es \<equiv> foldl page_step (open_page session) es"
section \<open>What the handlers leave alone\<close>

lemma frame_switchTab [simp]:
  "steps (switchTab i s) = steps s" "currentStep (switchTab i s) = currentStep s"
  "stepVerified (switchTab i s) = stepVerified s" "next_disabled (switchTab i s) = next_disabled s"
  "check_shown (switchTab i s) = check_shown s" "env_passed (switchTab i s) = env_passed s"
  "waiting (switchTab i s) = waiting s" "sent (switchTab i s) = sent s"
  "polling (switchTab i s) = polling s" "labReady (switchTab i s) = labReady s"
  "ticking (switchTab i s) = ticking s" "page_expires (switchTab i s) = page_expires s"
  "service_poll (switchTab i s) = service_poll s" "leaked_polls (switchTab i s) = leaked_polls s"
  "resume_shown (switchTab i s) = resume_shown s"
  by (simp_all add: switchTab_def Let_def)

lemma frame_addTab [simp]:
  "steps (addTab s) = steps s" "currentStep (addTab s) = currentStep s"
  "stepVerified (addTab s) = stepVerified s" "next_disabled (addTab s) = next_disabled s"
  "check_shown (addTab s) = check_shown s" "env_passed (addTab s) = env_passed s"
  "waiting (addTab s) = waiting s" "sent (addTab s) = sent s" "polling (addTab s) = polling s"
  "labReady (addTab s) = labReady s" "ticking (addTab s) = ticking s"
  "page_expires (addTab s) = page_expires s" "service_poll (addTab s) = service_poll s"
  "leaked_polls (addTab s) = leaked_polls s" "resume_shown (addTab s) = resume_shown s"
  by (simp_all add: addTab_def Let_def)

lemma frame_closeTab [simp]:
  "steps (closeTab i s) = steps s" "currentStep (closeTab i s) = currentStep s"
  "stepVerified (closeTab i s) = stepVerified s" "next_disabled (closeTab i s) = next_disabled s"
  "check_shown (closeTab i s) = check_shown s" "env_passed (closeTab i s) = env_passed s"
  "waiting (closeTab i s) = waiting s" "sent (closeTab i s) = sent s"
  "polling (closeTab i s) = polling s" "labReady (closeTab i s) = labReady s"
  "ticking (closeTab i s) = ticking s" "page_expires (closeTab i s) = page_expires s"
  "service_poll (closeTab i s) = service_poll s" "leaked_polls (closeTab i s) = leaked_polls s"
  "resume_shown (closeTab i s) = resume_shown s"
  by (simp_all add: closeTab_def Let_def)

lemma frame_toggleIDE [simp]:
  "steps (toggleIDE s) = steps s" "currentStep (toggleIDE s) = currentStep s"
  "stepVerified (toggleIDE s) = stepVerified s" "next_disabled (toggleIDE s) = next_disabled s"
  "check_shown (toggleIDE s) = check_shown s" "env_passed (toggleIDE s) = env_passed s"
  "waiting (toggleIDE s) = waiting s" "sent (toggleIDE s) = sent s" "polling (toggleIDE s) = polling s"
  "labReady (toggleIDE s) = labReady s" "ticking (toggleIDE s) = ticking s"
  "page_expires (toggleIDE s) = page_expires s" "service_poll (toggleIDE s) = service_poll s"
  "leaked_polls (toggleIDE s) = leaked_polls s" "resume_shown (toggleIDE s) = resume_shown s"
  by (simp_all add: toggleIDE_def Let_def split: option.split)

lemma frame_code_click [simp]:
  "steps (code_click c s) = steps s" "currentStep (code_click c s) = currentStep s"
  "stepVerified (code_click c s) = stepVerified s" "next_disabled (code_click c s) = next_disabled s"
  "check_shown (code_click c s) = check_shown s" "env_passed (code_click c s) = env_passed s"
  "waiting (code_click c s) = waiting s" "polling (code_click c s) = polling s"
  "labReady (code_click c s) = labReady s" "ticking (code_click c s) = ticking s"
  "page_expires (code_click c s) = page_expires s" "service_poll (code_click c s) = service_poll s"
  "leaked_polls (code_click c s) = leaked_polls s" "resume_shown (code_click c s) = resume_shown s"
  by (simp_all add: code_click_def tell_def Let_def)

lemma frame_navigate [simp]:
  "steps (navigate u s) = steps s" "currentStep (navigate u s) = currentStep s"
  "stepVerified (navigate u s) = stepVerified s" "next_disabled (navigate u s) = next_disabled s"
  "check_shown (navigate u s) = check_shown s" "env_passed (navigate u s) = env_passed s"
  "waiting (navigate u s) = waiting s" "sent (navigate u s) = sent s"
  "polling (navigate u s) = polling s" "labReady (navigate u s) = labReady s"
  "ticking (navigate u s) = ticking s" "page_expires (navigate u s) = page_expires s"
  "service_poll (navigate u s) = service_poll s" "leaked_polls (navigate u s) = leaked_polls s"
  "resume_shown (navigate u s) = resume_shown s"
  by (simp_all add: navigate_def ensureVNCOpen_def openBrowser_def Let_def)

lemma frame_openBrowser [simp]:
  "steps (openBrowser s) = steps s" "currentStep (openBrowser s) = currentStep s"
  "stepVerified (openBrowser s) = stepVerified s" "next_disabled (openBrowser s) = next_disabled s"
  "check_shown (openBrowser s) = check_shown s" "env_passed (openBrowser s) = env_passed s"
  "waiting (openBrowser s) = waiting s" "sent (openBrowser s) = sent s"
  "polling (openBrowser s) = polling s" "labReady (openBrowser s) = labReady s"
  "ticking (openBrowser s) = ticking s" "page_expires (openBrowser s) = page_expires s"
  "service_poll (openBrowser s) = service_poll s" "leaked_polls (openBrowser s) = leaked_polls s"
  "resume_shown (openBrowser s) = resume_shown s"
  by (simp_all add: openBrowser_def)

lemma frame_renderServices [simp]:
  "steps (renderServices svs s) = steps s" "currentStep (renderServices svs s) = currentStep s"
  "stepVerified (renderServices svs s) = stepVerified s"
  "next_disabled (renderServices svs s) = next_disabled s"
  "check_shown (renderServices svs s) = check_shown s"
  "env_passed (renderServices svs s) = env_passed s" "waiting (renderServices svs s) = waiting s"
  "sent (renderServices svs s) = sent s" "polling (renderServices svs s) = polling s"
  "labReady (renderServices svs s) = labReady s" "ticking (renderServices svs s) = ticking s"
  "page_expires (renderServices svs s) = page_expires s"
  "service_poll (renderServices svs s) = service_poll s"
  "leaked_polls (renderServices svs s) = leaked_polls s"
  "resume_shown (renderServices svs s) = resume_shown s"
  by (simp_all add: renderServices_def)

lemma frame_buttons [simp]:
  "steps (step_buttons st b s) = steps s" "currentStep (step_buttons st b s) = currentStep s"
  "stepVerified (step_buttons st b s) = stepVerified s"
  "env_passed (step_buttons st b s) = env_passed s" "waiting (step_buttons st b s) = waiting s"
  "sent (step_buttons st b s) = sent s" "polling (step_buttons st b s) = polling s"
  "labReady (step_buttons st b s) = labReady s" "ticking (step_buttons st b s) = ticking s"
  "page_expires (step_buttons st b s) = page_expires s"
  "service_poll (step_buttons st b s) = service_poll s"
  "leaked_polls (step_buttons st b s) = leaked_polls s"
  "resume_shown (step_buttons st b s) = resume_shown s"
  by (simp_all add: step_buttons_def)

lemma frame_updateDots [simp]:
  "steps (updateDots s) = steps s" "currentStep (updateDots s) = currentStep s"
  "stepVerified (updateDots s) = stepVerified s" "next_disabled (updateDots s) = next_disabled s"
  "check_shown (updateDots s) = check_shown s" "env_passed (updateDots s) = env_passed s"
  "waiting (updateDots s) = waiting s" "sent (updateDots s) = sent s"
  "polling (updateDots s) = polling s" "labReady (updateDots s) = labReady s"
  "ticking (updateDots s) = ticking s" "page_expires (updateDots s) = page_expires s"
  "service_poll (updateDots s) = service_poll s" "leaked_polls (updateDots s) = leaked_polls s"
  "resume_shown (updateDots s) = resume_shown s"
  by (simp_all add: updateDots_def)

lemma frame_showStep [simp]:
  "steps (showStep n s) = steps s" "stepVerified (showStep n s) = stepVerified s"
  "env_passed (showStep n s) = env_passed s" "waiting (showStep n s) = waiting s"
  "sent (showStep n s) = sent s" "polling (showStep n s) = polling s"
  "labReady (showStep n s) = labReady s" "ticking (showStep n s) = ticking s"
  "page_expires (showStep n s) = page_expires s" "service_poll (showStep n s) = service_poll s"
  "leaked_polls (showStep n s) = leaked_polls s" "resume_shown (showStep n s) = resume_shown s"
  by (simp_all add: showStep_def Let_def)

lemma frame_answered [simp]:
  "steps (answered i s) = steps s" "currentStep (answered i s) = currentStep s"
  "stepVerified (answered i s) = stepVerified s" "next_disabled (answered i s) = next_disabled s"
  "check_shown (answered i s) = check_shown s" "env_passed (answered i s) = env_passed s"
  "sent (answered i s) = sent s" "polling (answered i s) = polling s"
  "labReady (answered i s) = labReady s" "ticking (answered i s) = ticking s"
  "page_expires (answered i s) = page_expires s" "service_poll (answered i s) = service_poll s"
  "leaked_polls (answered i s) = leaked_polls s" "resume_shown (answered i s) = resume_shown s"
  by (simp_all add: answered_def)

lemma frame_ask [simp]:
  "steps (ask r s) = steps s" "currentStep (ask r s) = currentStep s"
  "stepVerified (ask r s) = stepVerified s" "next_disabled (ask r s) = next_disabled s"
  "check_shown (ask r s) = check_shown s" "env_passed (ask r s) = env_passed s"
  "polling (ask r s) = polling s" "labReady (ask r s) = labReady s" "ticking (ask r s) = ticking s"
  "page_expires (ask r s) = page_expires s" "service_poll (ask r s) = service_poll s"
  "leaked_polls (ask r s) = leaked_polls s" "resume_shown (ask r s) = resume_shown s"
  by (simp_all add: ask_def)

lemma frame_tell [simp]:
  "steps (tell r s) = steps s" "currentStep (tell r s) = currentStep s"
  "stepVerified (tell r s) = stepVerified s" "next_disabled (tell r s) = next_disabled s"
  "check_shown (tell r s) = check_shown s" "env_passed (tell r s) = env_passed s"
  "waiting (tell r s) = waiting s" "polling (tell r s) = polling s" "labReady (tell r s) = labReady s"
  "ticking (tell r s) = ticking s" "page_expires (tell r s) = page_expires s"
  "service_poll (tell r s) = service_poll s" "leaked_polls (tell r s) = leaked_polls s"
  "resume_shown (tell r s) = resume_shown s"
  by (simp_all add: tell_def)

lemma frame_check_reset [simp]:
  "steps (check_reset s) = steps s" "currentStep (check_reset s) = currentStep s"
  "stepVerified (check_reset s) = stepVerified s" "next_disabled (check_reset s) = next_disabled s"
  "check_shown (check_reset s) = check_shown s" "env_passed (check_reset s) = env_passed s"
  "waiting (check_reset s) = waiting s" "sent (check_reset s) = sent s"
  "polling (check_reset s) = polling s" "labReady (check_reset s) = labReady s"
  "ticking (check_reset s) = ticking s" "page_expires (check_reset s) = page_expires s"
  "service_poll (check_reset s) = service_poll s" "leaked_polls (check_reset s) = leaked_polls s"
  "resume_shown (check_reset s) = resume_shown s"
  by (simp_all add: check_reset_def)

lemma frame_check_failed [simp]:
  "steps (check_failed s) = steps s" "currentStep (check_failed s) = currentStep s"
  "stepVerified (check_failed s) = stepVerified s" "next_disabled (check_failed s) = next_disabled s"
  "check_shown (check_failed s) = check_shown s" "env_passed (check_failed s) = env_passed s"
  "waiting (check_failed s) = waiting s" "sent (check_failed s) = sent s"
  "polling (check_failed s) = polling s" "labReady (check_failed s) = labReady s"
  "ticking (check_failed s) = ticking s" "page_expires (check_failed s) = page_expires s"
  "service_poll (check_failed s) = service_poll s" "leaked_polls (check_failed s) = leaked_polls s"
  "resume_shown (check_failed s) = resume_shown s"
  by (simp_all add: check_failed_def)

lemma frame_toggleServices [simp]:
  "steps (toggleServices s) = steps s" "currentStep (toggleServices s) = currentStep s"
  "stepVerified (toggleServices s) = stepVerified s"
  "next_disabled (toggleServices s) = next_disabled s" "check_shown (toggleServices s) = check_shown s"
  "env_passed (toggleServices s) = env_passed s" "waiting (toggleServices s) = waiting s"
  "sent (toggleServices s) = sent s" "polling (toggleServices s) = polling s"
  "labReady (toggleServices s) = labReady s" "ticking (toggleServices s) = ticking s"
  "page_expires (toggleServices s) = page_expires s" "service_poll (toggleServices s) = service_poll s"
  "leaked_polls (toggleServices s) = leaked_polls s" "resume_shown (toggleServices s) = resume_shown s"
  by (simp_all add: toggleServices_def)


lemma ask_requests [simp]:
  "waiting (ask r s) = waiting s @ [r]" "sent (ask r s) = sent s @ [r]" "sent (tell r s) = sent s @ [r]"
  "waiting (answered i s) = remove_at i (waiting s)"
  by (simp_all add: ask_def tell_def answered_def)

section \<open>The timer\<close>

text \<open>Reading a clock: the numerals between colons, to the base of 60.\<close>

definition clock_value :: "string \<Rightarrow> nat option" where
  "clock_value t =
     foldl (\<lambda>a p. case (a, parse_nat p) of (Some x, Some y) \<Rightarrow> Some (60 * x + y) | _ \<Rightarrow> None)
       (Some 0) (split_on (CHR '':'') t)"

lemma parse_pad2 [simp]: "parse_nat (pad2 n) = Some n"
proof (cases "n < 10")
  case True
  then have "parse_nat (pad2 n) = parse_digits 0 (nat_str n)"
    by (simp add: pad2_def parse_nat_def digit_val_def char_code_def)
  then show ?thesis
    by (simp add: parse_digits_nat_str)
qed (simp add: pad2_def)

lemma colon_free: "CHR '':'' \<notin> set (nat_str n)" "CHR '':'' \<notin> set (pad2 n)"
proof -
  show n: "CHR '':'' \<notin> set (nat_str n)" for n
    using nat_str_digits [of "CHR '':''" n] by (auto simp: char_code_def)
  show "CHR '':'' \<notin> set (pad2 n)"
    using n [of n] by (simp add: pad2_def)
qed

lemma length_pad2: "n < 60 \<Longrightarrow> length (pad2 n) = 2"
proof -
  assume "n < 60"
  then have "n div 10 < 10"
    by auto
  then show ?thesis
    by (simp add: pad2_def nat_str.simps [of n] nat_str.simps [of "n div 10"])
qed

text \<open>
  What the timer shows reads back as the whole seconds that remain, in minutes and
  seconds of two digits, with hours in front when there are any; it is marked as dangerous
  below five minutes and as a warning below fifteen.
\<close>

theorem timer_shows_remaining:
  "let secs = nat (remaining div 1000); text = fst (timer_of remaining); parts = split_on (CHR '':'') text
   in clock_value text = Some secs \<and>
      length parts = (if secs < 3600 then 2 else 3) \<and>
      list_all (\<lambda>p. length p = 2) (tl parts) \<and>
      snd (timer_of remaining) =
        (if secs < 300 then Timer_danger else if secs < 900 then Timer_warn else Timer_plain)"
proof -
  define secs where "secs = nat (remaining div 1000)"
  define h m s where "h = secs div 3600" and "m = (secs mod 3600) div 60" and "s = secs mod 60"
  have ms: "m < 60" "s < 60"
    by (simp_all add: m_def s_def)
  have total: "secs = 3600 * h + 60 * m + s"
  proof -
    have "secs = 3600 * h + secs mod 3600" "secs mod 3600 = 60 * m + secs mod 3600 mod 60"
      by (simp_all add: h_def m_def)
    moreover have "secs mod 3600 mod 60 = s"
      by (simp add: s_def mod_mod_cancel)
    ultimately show ?thesis
      by linarith
  qed
  have look: "snd (timer_of remaining) = (if m < 5 \<and> h = 0 then Timer_danger else if m < 15 \<and> h = 0 then Timer_warn else Timer_plain)"
    by (simp add: timer_of_def Let_def h_def m_def flip: secs_def)
  have shown: "fst (timer_of remaining) =
      (if h > 0 then nat_str h @ CHR '':'' # pad2 m @ CHR '':'' # pad2 s else pad2 m @ CHR '':'' # pad2 s)"
    by (simp add: timer_of_def Let_def h_def m_def s_def flip: secs_def)
  have parts: "split_on (CHR '':'') (fst (timer_of remaining)) =
      (if h > 0 then [nat_str h, pad2 m, pad2 s] else [pad2 m, pad2 s])"
    unfolding shown by (simp add: split_on_append_sep split_on_free colon_free)
  have zero: "h = 0 \<longleftrightarrow> secs < 3600"
    by (simp add: h_def div_eq_0_iff)
  have "clock_value (fst (timer_of remaining)) = Some secs"
    unfolding clock_value_def parts by (cases "h = 0") (simp_all add: total)
  moreover have "length (split_on (CHR '':'') (fst (timer_of remaining))) = (if secs < 3600 then 2 else 3)"
    using zero by (auto simp: parts)
  moreover have "list_all (\<lambda>p. length p = 2) (tl (split_on (CHR '':'') (fst (timer_of remaining))))"
    using ms by (simp add: parts length_pad2)
  moreover have "snd (timer_of remaining) =
      (if secs < 300 then Timer_danger else if secs < 900 then Timer_warn else Timer_plain)"
  proof (cases "h = 0")
    case True
    then show ?thesis
      using ms total by (simp add: look)
  qed (use zero in \<open>simp add: look\<close>)
  ultimately show ?thesis
    by (simp add: Let_def flip: secs_def)
qed

end
