(* ===== verification/Lab_Steps.thy ===== *)
theory Lab_Steps
  imports Lab_Page
begin

text \<open>
  The steps of the lab page, their checks, and how the page follows and ends its session.
\<close>

section \<open>Steps are left in order\<close>

text \<open>The button for the next step is enabled only where the step is passed or needs no check.\<close>

definition gate_ok :: "lab_page \<Rightarrow> bool" where
  "gate_ok s \<longleftrightarrow>
     (steps s \<noteq> [] \<longrightarrow>
        currentStep s < length (steps s) \<and>
        check_shown s = has_verify (steps s ! currentStep s) \<and>
        (next_disabled s \<or> \<not> has_verify (steps s ! currentStep s) \<or> stepVerified s (currentStep s)))"

lemma showStep_current: "currentStep (showStep n s) = nat (max 0 (min n (int (length (steps s)) - 1)))"
  by (simp add: showStep_def Let_def)

lemma showStep_buttons:
  assumes "steps s \<noteq> []"
  shows "check_shown (showStep n s) = has_verify (steps s ! currentStep (showStep n s))"
    and "next_disabled (showStep n s) =
      (\<not> labReady s \<or> has_verify (steps s ! currentStep (showStep n s)) \<and> \<not> stepVerified s (currentStep (showStep n s)))"
proof -
  have "\<not> length (steps s) \<le> nat (max 0 (min n (int (length (steps s)) - 1)))"
    using assms by (cases "steps s") auto
  then show "check_shown (showStep n s) = has_verify (steps s ! currentStep (showStep n s))"
    "next_disabled (showStep n s) =
      (\<not> labReady s \<or> has_verify (steps s ! currentStep (showStep n s)) \<and> \<not> stepVerified s (currentStep (showStep n s)))"
    by (simp_all add: showStep_def Let_def updateDots_def step_buttons_def)
qed

lemma gate_showStep [simp]: "gate_ok (showStep n s)"
proof (cases "steps s = []")
  case False
  then have "currentStep (showStep n s) < length (steps s)"
    by (cases "steps s") (auto simp: showStep_current)
  then show ?thesis
    using showStep_buttons [OF False, of n] by (simp add: gate_ok_def)
qed (simp add: gate_ok_def)

lemma gate_same [simp]:
  "gate_ok (switchTab i s) = gate_ok s" "gate_ok (addTab s) = gate_ok s" "gate_ok (closeTab i s) = gate_ok s"
  "gate_ok (toggleIDE s) = gate_ok s" "gate_ok (code_click c s) = gate_ok s" "gate_ok (navigate u s) = gate_ok s"
  "gate_ok (openBrowser s) = gate_ok s" "gate_ok (renderServices svs s) = gate_ok s"
  "gate_ok (answered i s) = gate_ok s" "gate_ok (ask r s) = gate_ok s" "gate_ok (tell r s) = gate_ok s"
  "gate_ok (check_reset s) = gate_ok s" "gate_ok (check_failed s) = gate_ok s" "gate_ok (toggleServices s) = gate_ok s"
  by (simp_all add: gate_ok_def)

lemma gate_fields [simp]:
  "gate_ok (s\<lparr>polling := b\<rparr>) = gate_ok s" "gate_ok (s\<lparr>ticking := b\<rparr>) = gate_ok s"
  "gate_ok (s\<lparr>long_wait := b\<rparr>) = gate_ok s" "gate_ok (s\<lparr>left_page := b\<rparr>) = gate_ok s"
  "gate_ok (s\<lparr>vnc_open := b\<rparr>) = gate_ok s" "gate_ok (s\<lparr>terminal := x\<rparr>) = gate_ok s"
  "gate_ok (s\<lparr>reset_timers := n\<rparr>) = gate_ok s" "gate_ok (s\<lparr>nav_timers := ns\<rparr>) = gate_ok s"
  "gate_ok (s\<lparr>env_passed := f\<rparr>) = gate_ok s" "gate_ok (s\<lparr>completion_shown := b\<rparr>) = gate_ok s"
  "gate_ok (confirm_shown_update g s) = gate_ok s" "gate_ok (completion_shown_update g s) = gate_ok s"
  "gate_ok (s\<lparr>page_expires := y\<rparr>) = gate_ok s"
  "gate_ok (s\<lparr>leaked_polls := n, service_poll := b\<rparr>) = gate_ok s"
  "gate_ok (s\<lparr>timer_text := t, timer_look := l\<rparr>) = gate_ok s"
  "gate_ok (s\<lparr>timer_text := t, timer_look := l, ticking := b\<rparr>) = gate_ok s"
  by (simp_all add: gate_ok_def)

lemma gate_ends [simp]:
  "gate_ok (endLab s) = gate_ok s" "gate_ok (pauseLab s) = gate_ok s" "gate_ok (resumeLab s) = gate_ok s"
  "gate_ok (on_paused s) = gate_ok s" "gate_ok (checkStep s) = gate_ok s"
  by (simp_all add: endLab_def pauseLab_def resumeLab_def on_paused_def checkStep_def clear_intervals_def)
    (simp_all add: gate_ok_def)

lemma gate_timer [simp]: "gate_ok (timerTick now s) = gate_ok s" "gate_ok (startTimer now s) = gate_ok s"
proof -
  show "gate_ok (timerTick now s) = gate_ok s" for s
    by (simp add: timerTick_def Let_def split: option.split)
  then show "gate_ok (startTimer now s) = gate_ok s"
    by (simp add: startTimer_def)
qed

lemma gate_services [simp]: "gate_ok (fetchServices s) = gate_ok s" "gate_ok (startServicesPoll s) = gate_ok s"
  by (simp_all add: fetchServices_def startServicesPoll_def Let_def)

lemma gate_polled: "gate_ok s \<Longrightarrow> gate_ok (polled a now s)"
  by (simp add: polled_def on_ready_def Let_def split: option.split)

lemma gate_init: "gate_ok (init_answered sc s)"
  by (simp add: init_answered_def Let_def)

lemma gate_verify: "gate_ok s \<Longrightarrow> gate_ok (verify_answered i n b s)"
  by (simp add: verify_answered_def check_answered_def) (simp add: gate_ok_def)

lemma gate_moves: "gate_ok s \<Longrightarrow> gate_ok (nextStep s)" "gate_ok (prevStep s)"
  by (simp_all add: nextStep_def prevStep_def)

lemma gate_event: "gate_ok s \<Longrightarrow> gate_ok (page_step s e)"
proof -
  have "gate_ok (on_answer s e)" if "gate_ok s" for s
    using that by (cases e)
      (simp_all add: on_answer_def enabled_def gate_polled gate_init gate_verify split: option.split page_request.split)
  moreover have "gate_ok (on_timer s e)" if "gate_ok s" for s
    using that by (cases e) (simp_all add: on_timer_def enabled_def)
  moreover have "gate_ok (on_click s e)" if "gate_ok s" for s
    using that by (cases e) (simp_all add: on_click_def enabled_def gate_moves)
  ultimately show "gate_ok s \<Longrightarrow> gate_ok (page_step s e)"
    by (simp add: page_step_def)
qed

interpretation page_gate: guarded_machine page_step "\<lambda>_ _. True" gate_ok
  by unfold_locales (rule gate_event)

section \<open>Only passed steps count\<close>

text \<open>
  A patient user does not go to another step while a check is in flight. (Where one does, the
  answer is recorded for the step that is shown when it arrives.)
\<close>

definition check_waits :: "lab_page \<Rightarrow> bool" where
  "check_waits s \<longleftrightarrow> list_ex (\<lambda>r. case r of Ask_verify n \<Rightarrow> True | _ \<Rightarrow> False) (waiting s)"

fun patient :: "lab_page \<Rightarrow> page_event \<Rightarrow> bool" where
  "patient s Prev_click = (\<not> check_waits s)"
| "patient s Next_click = (\<not> check_waits s)"
| "patient s (Dot_click i) = (\<not> check_waits s)"
| "patient s e = True"

lemma no_check_waits: "\<not> check_waits s \<longleftrightarrow> (\<forall>n. Ask_verify n \<notin> set (waiting s))"
  unfolding check_waits_def list_ex_iff by (force split: page_request.splits)

definition honest :: "lab_page \<Rightarrow> bool" where
  "honest s \<longleftrightarrow>
     (\<forall>k. stepVerified s k \<longrightarrow> env_passed s k) \<and>
     (\<forall>n. Ask_verify n \<in> set (waiting s) \<longrightarrow> n = Suc (currentStep s)) \<and>
     (steps s = [] \<longrightarrow> \<not> check_shown s \<and> currentStep s = 0) \<and>
     Ask_scenario \<notin> set (tl (waiting s)) \<and>
     (Ask_scenario \<in> set (waiting s) \<longrightarrow> steps s = [] \<and> \<not> check_waits s)"

lemma tl_remove_at: "set (tl (remove_at i xs)) \<subseteq> set (tl xs)"
proof -
  have "set (tl ys) \<subseteq> set ys" for ys :: "'a list"
    by (cases ys) auto
  then show ?thesis
    using set_remove_at [of "i - 1" "tl xs"] by (cases xs; cases i) (auto simp: remove_at_def)
qed

lemma check_waits_simps [simp]:
  "check_waits (answered i s) \<Longrightarrow> check_waits s"
  "check_waits (ask r s) \<longleftrightarrow> check_waits s \<or> (case r of Ask_verify n \<Rightarrow> True | _ \<Rightarrow> False)"
  using set_remove_at [of i "waiting s"] by (auto simp: check_waits_def list_ex_iff)

lemma honest_answered: "honest s \<Longrightarrow> honest (answered i s)"
proof -
  assume s: "honest s"
  have "set (waiting (answered i s)) \<subseteq> set (waiting s)" "set (tl (waiting (answered i s))) \<subseteq> set (tl (waiting s))"
    using set_remove_at [of i "waiting s"] tl_remove_at [of i "waiting s"] by simp_all
  then show ?thesis
    using s check_waits_simps(1) [of i s] unfolding honest_def by (simp only: frame_answered) blast
qed

lemma honest_ask:
  "honest s \<Longrightarrow> r \<in> {Ask_session, Ask_services, Send_delete, Send_pause, Send_resume} \<Longrightarrow> honest (ask r s)"
  by (cases "waiting s") (auto simp: honest_def)

lemma honest_check: "honest s \<Longrightarrow> steps s \<noteq> [] \<Longrightarrow> Ask_scenario \<notin> set (waiting s) \<Longrightarrow> honest (ask (Ask_verify (Suc (currentStep s))) s)"
  by (cases "waiting s") (auto simp: honest_def)

lemma honest_same [simp]:
  "honest (switchTab i s) = honest s" "honest (addTab s) = honest s" "honest (closeTab i s) = honest s"
  "honest (toggleIDE s) = honest s" "honest (code_click c s) = honest s" "honest (navigate u s) = honest s"
  "honest (openBrowser s) = honest s" "honest (renderServices svs s) = honest s" "honest (tell r s) = honest s"
  "honest (check_reset s) = honest s" "honest (check_failed s) = honest s" "honest (toggleServices s) = honest s"
  by (simp_all add: honest_def check_waits_def)

lemma honest_fields [simp]:
  "honest (s\<lparr>polling := b\<rparr>) = honest s" "honest (s\<lparr>ticking := b\<rparr>) = honest s"
  "honest (s\<lparr>long_wait := b\<rparr>) = honest s" "honest (s\<lparr>left_page := b\<rparr>) = honest s"
  "honest (s\<lparr>vnc_open := b\<rparr>) = honest s" "honest (s\<lparr>terminal := x\<rparr>) = honest s"
  "honest (s\<lparr>reset_timers := n\<rparr>) = honest s" "honest (s\<lparr>nav_timers := ns\<rparr>) = honest s"
  "honest (s\<lparr>completion_shown := b\<rparr>) = honest s"
  "honest (confirm_shown_update g s) = honest s" "honest (completion_shown_update g s) = honest s"
  "honest (s\<lparr>page_expires := y\<rparr>) = honest s" "honest (s\<lparr>leaked_polls := n, service_poll := b\<rparr>) = honest s"
  "honest (s\<lparr>timer_text := t, timer_look := l\<rparr>) = honest s"
  "honest (s\<lparr>timer_text := t, timer_look := l, ticking := b\<rparr>) = honest s"
  by (simp_all add: honest_def check_waits_def)

lemma honest_ends: "honest s \<Longrightarrow> honest (endLab s)" "honest s \<Longrightarrow> honest (pauseLab s)"
  "honest s \<Longrightarrow> honest (resumeLab s)" "honest s \<Longrightarrow> honest (on_paused s)"
  unfolding endLab_def pauseLab_def resumeLab_def on_paused_def clear_intervals_def
  by (auto intro!: honest_ask) (simp_all add: honest_def check_waits_def)

lemma honest_timer: "honest s \<Longrightarrow> honest (timerTick now s)" "honest s \<Longrightarrow> honest (startTimer now s)"
proof -
  show "honest (timerTick now s)" if "honest s" for s
    using that by (simp add: timerTick_def Let_def honest_ends split: option.split)
  then show "honest s \<Longrightarrow> honest (startTimer now s)"
    by (simp add: startTimer_def)
qed

lemma honest_services: "honest s \<Longrightarrow> honest (fetchServices s)" "honest s \<Longrightarrow> honest (startServicesPoll s)"
  by (simp_all add: fetchServices_def startServicesPoll_def Let_def honest_ask)

text \<open>Showing a step again, and going to another one while no check is in flight.\<close>

lemma honest_showStep:
  assumes "honest s" and "\<not> check_waits s \<or> currentStep (showStep n s) = currentStep s"
  shows "honest (showStep n s)"
proof -
  have "check_shown (showStep n s) = check_shown s" "currentStep (showStep n s) = 0" if "steps s = []"
    using that by (simp_all add: showStep_def Let_def)
  then show ?thesis
    using assms no_check_waits [of s] by (auto simp: honest_def check_waits_def)
qed

lemma showStep_again: "gate_ok s \<Longrightarrow> honest s \<Longrightarrow> currentStep (showStep (int (currentStep s)) s) = currentStep s"
  by (cases "steps s = []") (auto simp: showStep_current gate_ok_def honest_def)

lemma honest_polled: "gate_ok s \<Longrightarrow> honest s \<Longrightarrow> honest (polled a now s)"
proof -
  have ready: "honest (on_ready sess t)" if "gate_ok t" "honest t" for sess t
  proof -
    define t1 where "t1 = t\<lparr>polling := False, labReady := True, locked := False, loading_hidden := True,
      terminal := Connected, add_disabled := False, ide_disabled := False,
      browser_shown := browser_shown t \<or> s_browserEnabled sess, resume_shown := False\<rparr>"
    have t1: "gate_ok t1" "honest t1"
      using that by (simp_all add: t1_def) (simp_all add: gate_ok_def honest_def check_waits_def)
    then have "honest (addTab (showStep (int (currentStep t1)) t1))"
      by (simp add: honest_showStep showStep_again)
    then show ?thesis
      using honest_services by (simp add: on_ready_def Let_def flip: t1_def)
  qed
  moreover assume "gate_ok s" "honest s"
  moreover from this have "honest (startTimer now (s\<lparr>page_expires := x\<rparr>))" for x
    by (simp add: honest_timer)
  ultimately show ?thesis
    by (simp add: polled_def Let_def honest_ends split: option.split)
qed

lemma in_flight_waiting: "in_flight s i = Some r \<Longrightarrow> r \<in> set (waiting s)"
  by (metis in_flight_def nth_mem option.distinct(1) option.inject)

lemma honest_init:
  assumes "honest s" and "in_flight s i = Some Ask_scenario"
  shows "honest (init_answered sc (answered i s))"
proof -
  have w: "Ask_scenario \<in> set (waiting s)"
    using assms(2) by (rule in_flight_waiting)
  then have s: "steps s = []" "\<not> check_waits s"
    using assms(1) by (simp_all add: honest_def)
  have "i = 0"
  proof (rule ccontr)
    assume "i \<noteq> 0"
    then have "waiting s ! i \<in> set (tl (waiting s))" if "i < length (waiting s)"
      using that by (cases "waiting s"; cases i) auto
    then show False
      using assms by (auto simp: in_flight_def honest_def split: if_splits)
  qed
  then have "Ask_scenario \<notin> set (remove_at i (waiting s))" "Ask_scenario \<notin> set (tl (remove_at i (waiting s)))"
    using assms(1) tl_remove_at [of i "waiting s"] by (auto simp: honest_def remove_at_def drop_Suc)
  then have "honest (renderDots ((answered i s)\<lparr>steps := sc_steps sc\<rparr>))" "\<not> check_waits (renderDots ((answered i s)\<lparr>steps := sc_steps sc\<rparr>))"
    using assms(1) s set_remove_at [of i "waiting s"]
    by (auto simp: honest_def renderDots_def check_waits_def list_ex_iff)
  then have "honest (showStep 0 (renderDots ((answered i s)\<lparr>steps := sc_steps sc\<rparr>)))"
    by (simp add: honest_showStep)
  then show ?thesis
    by (cases "sc_steps sc = []") (simp_all add: init_answered_def Let_def)
qed

lemma honest_verify:
  assumes "honest s" and "in_flight s i = Some (Ask_verify n)"
  shows "honest (verify_answered i n passed s)" "honest (check_failed (answered i s))"
proof -
  have "n = Suc (currentStep s)"
    using assms in_flight_waiting [OF assms(2)] by (simp add: honest_def)
  then show "honest (verify_answered i n passed s)"
    using honest_answered [OF assms(1), of i]
    by (auto simp: verify_answered_def check_answered_def honest_def check_waits_def)
qed (use assms honest_answered in simp)

lemma honest_checkStep:
  assumes "honest s" and "check_shown s"
  shows "honest (checkStep s)"
proof -
  have "steps s \<noteq> []" "Ask_scenario \<notin> set (waiting s)"
    using assms by (auto simp: honest_def)
  moreover have "honest (s\<lparr>check_disabled := a, check_text := b, check_class := c\<rparr>)" for a b c
    using assms(1) by (simp add: honest_def check_waits_def)
  ultimately show ?thesis
    using honest_check [of "s\<lparr>check_disabled := True, check_text := Look_checking, check_class := Look_check\<rparr>"]
    by (simp add: checkStep_def)
qed

lemma honest_moves:
  "honest s \<Longrightarrow> \<not> check_waits s \<Longrightarrow> honest (nextStep s)" "honest s \<Longrightarrow> \<not> check_waits s \<Longrightarrow> honest (prevStep s)"
  by (simp_all add: nextStep_def prevStep_def honest_showStep)

definition steps_ok :: "lab_page \<Rightarrow> bool" where
  "steps_ok s \<longleftrightarrow> gate_ok s \<and> honest s"

lemma honest_answer: "gate_ok s \<Longrightarrow> honest s \<Longrightarrow> honest (on_answer s e)"
proof (cases e)
  case (Session_answer i a now)
  assume "gate_ok s" "honest s"
  then show ?thesis
    using Session_answer by (simp add: on_answer_def enabled_def honest_polled honest_answered)
qed (auto simp: on_answer_def enabled_def honest_answered honest_init honest_verify split: option.split page_request.split)

lemma honest_timers: "honest s \<Longrightarrow> honest (on_timer s e)"
  by (cases e) (simp_all add: on_timer_def enabled_def honest_ask honest_timer honest_services)

lemma honest_click: "honest s \<Longrightarrow> patient s e \<Longrightarrow> honest (on_click s e)"
  by (cases e) (simp_all add: on_click_def enabled_def honest_ends honest_moves honest_showStep honest_checkStep)

text \<open>An event is an answer, a timer or a click; the other two parts of the step leave the page alone.\<close>

lemma page_step_one:
  "page_step s e = s \<or> page_step s e = on_answer s e \<or> page_step s e = on_timer s e \<or> page_step s e = on_click s e"
  by (cases e) (simp_all add: page_step_def on_answer_def on_timer_def on_click_def)

lemma steps_ok_event: "steps_ok s \<Longrightarrow> patient s e \<Longrightarrow> steps_ok (page_step s e)"
  using page_step_one [of s e] gate_event [of s e] honest_answer [of s e] honest_timers [of s e] honest_click [of s e]
  by (auto simp: steps_ok_def)

interpretation page_steps: guarded_machine page_step patient steps_ok
  by unfold_locales (rule steps_ok_event)

lemma steps_ok_open: "steps_ok (open_page i)"
  by (simp add: steps_ok_def gate_ok_def honest_def check_waits_def open_page_def)


end
