(* ===== verification/Routes.thy ===== *)
theory Routes
  imports Lab_Page
begin

text \<open>
  The routes of the server (\<^verbatim>\<open>main\<close> of \<^verbatim>\<open>cmd/labserver\<close>): the table of patterns, and how
  \<^verbatim>\<open>http.ServeMux\<close> chooses among them. Of all patterns that match a request the most specific
  one is taken; two patterns that overlap without one being more specific make the
  registration panic. Paths are clean (the mux redirects others first) and their segments need
  no unescaping.
\<close>

section \<open>Patterns\<close>

datatype seg = Lit string | Wild

record pattern =
  p_method :: "string option"
  p_segs :: "seg list"
  p_tree :: bool

fun match_segs :: "seg list \<Rightarrow> bool \<Rightarrow> string list \<Rightarrow> bool" where
  "match_segs [] tree xs = (if tree then xs \<noteq> [] else xs = [])"
| "match_segs (p # ps) tree [] = False"
| "match_segs (p # ps) tree (x # xs) =
     ((case p of Lit a \<Rightarrow> x = a | Wild \<Rightarrow> x \<noteq> []) \<and> match_segs ps tree xs)"

text \<open>\<^verbatim>\<open>r.PathValue\<close>: the segments the wildcards stand for.\<close>

fun path_values :: "seg list \<Rightarrow> string list \<Rightarrow> string list" where
  "path_values (Wild # ps) (x # xs) = x # path_values ps xs"
| "path_values (Lit a # ps) (x # xs) = path_values ps xs"
| "path_values ps xs = []"

definition match_method :: "string option \<Rightarrow> string \<Rightarrow> bool" where
  "match_method pm m = (case pm of None \<Rightarrow> True | Some a \<Rightarrow> m = a \<or> a = ''GET'' \<and> m = ''HEAD'')"

text \<open>The segments of a path that begins with a slash.\<close>

definition segments :: "string \<Rightarrow> string list" where
  "segments path = tl (split_on (CHR ''/'') path)"

definition matches :: "pattern \<Rightarrow> string \<Rightarrow> string \<Rightarrow> bool" where
  "matches p m path \<longleftrightarrow> match_method (p_method p) m \<and> match_segs (p_segs p) (p_tree p) (segments path)"

text \<open>\<open>below p q\<close>: \<open>q\<close> matches all that \<open>p\<close> matches. \<open>apart p q\<close>: no request matches both.\<close>

fun below_segs :: "seg list \<Rightarrow> bool \<Rightarrow> seg list \<Rightarrow> bool \<Rightarrow> bool" where
  "below_segs ps tp [] True = (ps \<noteq> [] \<or> tp)"
| "below_segs ps tp [] False = (ps = [] \<and> \<not> tp)"
| "below_segs [] tp (q # qs) tq = False"
| "below_segs (p # ps) tp (q # qs) tq =
     ((case q of Lit b \<Rightarrow> p = Lit b | Wild \<Rightarrow> p \<noteq> Lit []) \<and> below_segs ps tp qs tq)"

definition below_method :: "string option \<Rightarrow> string option \<Rightarrow> bool" where
  "below_method a b \<longleftrightarrow> b = None \<or> a = b"

definition below :: "pattern \<Rightarrow> pattern \<Rightarrow> bool" where
  "below p q \<longleftrightarrow>
     below_method (p_method p) (p_method q) \<and> below_segs (p_segs p) (p_tree p) (p_segs q) (p_tree q)"

fun apart_segs :: "seg list \<Rightarrow> bool \<Rightarrow> seg list \<Rightarrow> bool \<Rightarrow> bool" where
  "apart_segs [] tp [] tq = (tp \<noteq> tq)"
| "apart_segs [] tp (q # qs) tq = (\<not> tp)"
| "apart_segs (p # ps) tp [] tq = (\<not> tq)"
| "apart_segs (p # ps) tp (q # qs) tq =
     ((case (p, q) of (Lit a, Lit b) \<Rightarrow> a \<noteq> b | _ \<Rightarrow> False) \<or> apart_segs ps tp qs tq)"

definition apart_method :: "string option \<Rightarrow> string option \<Rightarrow> bool" where
  "apart_method a b =
     (case (a, b) of (Some x, Some y) \<Rightarrow> x \<noteq> y \<and> x \<noteq> ''HEAD'' \<and> y \<noteq> ''HEAD'' | _ \<Rightarrow> False)"

definition apart :: "pattern \<Rightarrow> pattern \<Rightarrow> bool" where
  "apart p q \<longleftrightarrow>
     apart_method (p_method p) (p_method q) \<or> apart_segs (p_segs p) (p_tree p) (p_segs q) (p_tree q)"

section \<open>The table\<close>

datatype endpoint =
    E_healthz | E_demoPage | E_startDemoSession | E_listDemoTokens | E_createDemoToken | E_getConfig
  | E_listScenarios | E_getScenario | E_createSession | E_getMySession | E_getSession
  | E_deleteSession | E_injectCmd | E_navigateBrowser | E_verifyStep | E_sessionServices
  | E_pauseSession | E_resumeSession | E_terminalProxy | E_shellProxy | E_browserProxy
  | E_idePage | E_ideFileProxy | E_adminListSessions | E_adminDeleteSession | E_adminCSM
  | E_adminPage | E_csmDashboard | E_static

text \<open>Endpoints that \<^verbatim>\<open>requireAE\<close> wraps.\<close>

definition guarded :: "endpoint \<Rightarrow> bool" where
  "guarded e \<longleftrightarrow>
     e \<in> {E_listDemoTokens, E_createDemoToken, E_adminListSessions, E_adminDeleteSession, E_adminCSM,
          E_adminPage, E_csmDashboard}"

definition pat :: "string \<Rightarrow> seg list \<Rightarrow> pattern" where
  "pat m ss = \<lparr>p_method = Some m, p_segs = ss, p_tree = False\<rparr>"

definition under :: "seg list \<Rightarrow> pattern" where
  "under ss = \<lparr>p_method = None, p_segs = ss, p_tree = True\<rparr>"

definition routes :: "(pattern \<times> endpoint) list" where
  "routes =
     [(pat ''GET'' [Lit ''healthz''], E_healthz),
      (pat ''GET'' [Lit ''demo''], E_demoPage),
      (pat ''POST'' [Lit ''api'', Lit ''demo-sessions''], E_startDemoSession),
      (pat ''GET'' [Lit ''api'', Lit ''demo-tokens''], E_listDemoTokens),
      (pat ''POST'' [Lit ''api'', Lit ''demo-tokens''], E_createDemoToken),
      (pat ''GET'' [Lit ''api'', Lit ''config''], E_getConfig),
      (pat ''GET'' [Lit ''api'', Lit ''scenarios''], E_listScenarios),
      (pat ''GET'' [Lit ''api'', Lit ''scenarios'', Wild], E_getScenario),
      (pat ''POST'' [Lit ''api'', Lit ''sessions''], E_createSession),
      (pat ''GET'' [Lit ''api'', Lit ''sessions'', Lit ''me''], E_getMySession),
      (pat ''GET'' [Lit ''api'', Lit ''sessions'', Wild], E_getSession),
      (pat ''DELETE'' [Lit ''api'', Lit ''sessions'', Wild], E_deleteSession),
      (pat ''POST'' [Lit ''t'', Wild, Lit ''cmd''], E_injectCmd),
      (pat ''POST'' [Lit ''t'', Wild, Lit ''navigate''], E_navigateBrowser),
      (pat ''POST'' [Lit ''api'', Lit ''sessions'', Wild, Lit ''verify'', Wild], E_verifyStep),
      (pat ''GET'' [Lit ''api'', Lit ''sessions'', Wild, Lit ''services''], E_sessionServices),
      (pat ''POST'' [Lit ''api'', Lit ''sessions'', Wild, Lit ''pause''], E_pauseSession),
      (pat ''POST'' [Lit ''api'', Lit ''sessions'', Wild, Lit ''resume''], E_resumeSession),
      (under [Lit ''t'', Wild], E_terminalProxy),
      (under [Lit ''t'', Wild, Lit ''shell''], E_shellProxy),
      (under [Lit ''vnc'', Wild], E_browserProxy),
      (pat ''GET'' [Lit ''ide'', Wild], E_idePage),
      (under [Lit ''ide-api'', Wild], E_ideFileProxy),
      (pat ''GET'' [Lit ''api'', Lit ''admin'', Lit ''sessions''], E_adminListSessions),
      (pat ''DELETE'' [Lit ''api'', Lit ''admin'', Lit ''sessions'', Wild], E_adminDeleteSession),
      (pat ''GET'' [Lit ''api'', Lit ''admin'', Lit ''csm''], E_adminCSM),
      (pat ''GET'' [Lit ''admin''], E_adminPage),
      (pat ''GET'' [Lit ''admin'', Lit ''csm''], E_csmDashboard),
      (under [], E_static)]"

text \<open>The pattern below all others that match, its endpoint and the path values.\<close>

definition dispatch :: "string \<Rightarrow> string \<Rightarrow> (endpoint \<times> string list) option" where
  "dispatch m path =
     (let ms = filter (\<lambda>(p, e). matches p m path) routes
      in case find (\<lambda>(p, e). list_all (\<lambda>(q, _). below p q) ms) ms of
           None \<Rightarrow> None
         | Some (p, e) \<Rightarrow> Some (e, path_values (p_segs p) (segments path)))"

section \<open>Any request has one endpoint\<close>

lemma match_segs_Nil [simp]: "match_segs ps tp [] \<longleftrightarrow> ps = [] \<and> \<not> tp"
  by (cases ps) auto

lemma below_segs_sound: "below_segs ps tp qs tq \<Longrightarrow> match_segs ps tp xs \<Longrightarrow> match_segs qs tq xs"
proof (induction ps tp qs tq arbitrary: xs rule: below_segs.induct)
  case (4 p ps tp q qs tq)
  then show ?case
    by (cases xs) (auto split: seg.splits)
qed auto

lemma below_sound: "below p q \<Longrightarrow> matches p m path \<Longrightarrow> matches q m path"
  using below_segs_sound by (auto simp: below_def matches_def below_method_def match_method_def)

lemma apart_segs_sound: "apart_segs ps tp qs tq \<Longrightarrow> match_segs ps tp xs \<Longrightarrow> \<not> match_segs qs tq xs"
proof (induction ps tp qs tq arbitrary: xs rule: apart_segs.induct)
  case (4 p ps tp q qs tq)
  then show ?case
    by (cases xs) (auto split: seg.splits)
qed auto

lemma apart_sound: "apart p q \<Longrightarrow> matches p m path \<Longrightarrow> \<not> matches q m path"
  using apart_segs_sound
  by (auto simp: apart_def matches_def apart_method_def match_method_def split: option.splits)

text \<open>The check of the registration: two patterns are apart, or one is more specific.\<close>

definition no_conflict :: "pattern \<Rightarrow> pattern \<Rightarrow> bool" where
  "no_conflict p q \<longleftrightarrow> apart p q \<or> below p q \<noteq> below q p"

lemma routes_check:
  "list_all (\<lambda>i. list_all (\<lambda>j. i = j \<or> no_conflict (fst (routes ! i)) (fst (routes ! j))) [0..<length routes])
     [0..<length routes]"
  by code_simp

lemma routes_no_conflict:
  assumes "i < length routes" "j < length routes" "i \<noteq> j"
  shows "no_conflict (fst (routes ! i)) (fst (routes ! j))"
  using assms routes_check [unfolded list_all_iff, rule_format, of i j] by auto

text \<open>Of patterns that match the same request one is below the other.\<close>

lemma routes_comparable:
  assumes "x \<in> set routes" "y \<in> set routes" "matches (fst x) m path" "matches (fst y) m path"
  shows "x = y \<or> below (fst x) (fst y) \<noteq> below (fst y) (fst x)"
proof -
  obtain i j where "i < length routes" "j < length routes" "x = routes ! i" "y = routes ! j"
    using assms(1,2) by (metis in_set_conv_nth)
  then show ?thesis
    using routes_no_conflict [of i j] apart_sound [of "fst x" "fst y"] assms(3,4) by (auto simp: no_conflict_def)
qed

lemma below_method_trans: "below_method a b \<Longrightarrow> below_method b c \<Longrightarrow> below_method a c"
  by (auto simp: below_method_def)

lemma below_segs_trans:
  "below_segs ps tp qs tq \<Longrightarrow> below_segs qs tq rs tr \<Longrightarrow> below_segs ps tp rs tr"
proof (induction ps tp qs tq arbitrary: rs rule: below_segs.induct)
  case (1 ps tp)
  then show ?case
    by (cases rs; cases tr) auto
next
  case (2 ps tp)
  then show ?case
    by (cases rs; cases tr) auto
next
  case (4 p ps tp q qs tq)
  then show ?case
    by (cases rs; cases tr) (auto split: seg.splits)
qed auto

lemma below_trans: "below p q \<Longrightarrow> below q r \<Longrightarrow> below p r"
  using below_method_trans below_segs_trans unfolding below_def by blast

text \<open>A finite set of pairwise comparable patterns has a least one.\<close>

lemma least_pattern:
  assumes "xs \<noteq> []" and "\<And>x y. x \<in> set xs \<Longrightarrow> y \<in> set xs \<Longrightarrow> x = y \<or> below (fst x) (fst y) \<noteq> below (fst y) (fst x)"
    and "\<And>x. x \<in> set xs \<Longrightarrow> below (fst x) (fst x)"
  shows "\<exists>x \<in> set xs. \<forall>y \<in> set xs. below (fst x) (fst y)"
  using assms
proof (induction xs rule: induct_list012)
  case (3 x y zs)
  have "\<exists>z \<in> set (y # zs). \<forall>w \<in> set (y # zs). below (fst z) (fst w)"
    using "3.prems" by (intro "3.IH"(2)) auto
  then obtain z where z: "z \<in> set (y # zs)" "\<forall>w \<in> set (y # zs). below (fst z) (fst w)"
    by blast
  show ?case
  proof (cases "below (fst z) (fst x)")
    case True
    then show ?thesis
      using z by auto
  next
    case False
    then have xz: "below (fst x) (fst z)"
      using "3.prems"(2) [of x z] "3.prems"(3) [of x] z(1) by (metis list.set_intros)
    have "below (fst x) (fst w)" if "w \<in> set (x # y # zs)" for w
      using that below_trans [OF xz] z(2) "3.prems"(3) [of x] by (metis list.set_intros(1) set_ConsD)
    then show ?thesis
      by (metis list.set_intros(1))
  qed
qed auto

lemma routes_reflexive: "list_all (\<lambda>x. below (fst x) (fst x)) routes"
  by code_simp


section \<open>The requests of the lab page\<close>

text \<open>The \<^verbatim>\<open>fetch\<close> calls of \<^verbatim>\<open>lab.html\<close>: method and path for a session and a scenario.\<close>

definition page_url :: "string \<Rightarrow> string \<Rightarrow> page_request \<Rightarrow> string \<times> string" where
  "page_url i sc r =
     (case r of
        Ask_scenario \<Rightarrow> (''GET'', ''/api/scenarios/'' @ sc)
      | Ask_session \<Rightarrow> (''GET'', ''/api/sessions/'' @ i)
      | Ask_services \<Rightarrow> (''GET'', ''/api/sessions/'' @ i @ ''/services'')
      | Ask_verify n \<Rightarrow> (''POST'', ''/api/sessions/'' @ i @ ''/verify/'' @ nat_str n)
      | Send_cmd _ \<Rightarrow> (''POST'', ''/t/'' @ i @ ''/cmd'')
      | Send_navigate _ \<Rightarrow> (''POST'', ''/t/'' @ i @ ''/navigate'')
      | Send_delete \<Rightarrow> (''DELETE'', ''/api/sessions/'' @ i)
      | Send_pause \<Rightarrow> (''POST'', ''/api/sessions/'' @ i @ ''/pause'')
      | Send_resume \<Rightarrow> (''POST'', ''/api/sessions/'' @ i @ ''/resume''))"

fun page_target :: "string \<Rightarrow> string \<Rightarrow> page_request \<Rightarrow> endpoint \<times> string list" where
  "page_target i sc Ask_scenario = (E_getScenario, [sc])"
| "page_target i sc Ask_session = (E_getSession, [i])"
| "page_target i sc Ask_services = (E_sessionServices, [i])"
| "page_target i sc (Ask_verify n) = (E_verifyStep, [i, nat_str n])"
| "page_target i sc (Send_cmd c) = (E_injectCmd, [i])"
| "page_target i sc (Send_navigate u) = (E_navigateBrowser, [i])"
| "page_target i sc Send_delete = (E_deleteSession, [i])"
| "page_target i sc Send_pause = (E_pauseSession, [i])"
| "page_target i sc Send_resume = (E_resumeSession, [i])"

lemma split_on_mid [simp]: "c \<notin> set s \<Longrightarrow> split_on c (s @ c # t) = s # split_on c t"
  by (simp add: split_simps)

lemma nat_str_no_slash: "CHR ''/'' \<notin> set (nat_str n)"
  using nat_str_digits [of "CHR ''/''" n] by (auto simp: char_code_def)

text \<open>A segment of a page's path: no slash, not empty, and none of the fixed words.\<close>

definition plain_segment :: "string \<Rightarrow> bool" where
  "plain_segment s \<longleftrightarrow> s \<noteq> [] \<and> CHR ''/'' \<notin> set s \<and> s \<noteq> ''me''"

lemmas dispatch_eval =
  dispatch_def routes_def matches_def segments_def match_method_def pat_def under_def split_on_free
  below_def below_method_def plain_segment_def

lemma dispatch_page: "plain_segment i \<Longrightarrow> plain_segment sc \<Longrightarrow>
    dispatch (fst (page_url i sc r)) (snd (page_url i sc r)) = Some (page_target i sc r)"
  by (cases r) (simp_all add: page_url_def dispatch_eval nat_str_no_slash)

lemma dispatch_terminals:
  assumes "plain_segment i"
  shows "dispatch ''GET'' (terminal_src i 1) = Some (E_terminalProxy, [i])"
    and "n \<noteq> 1 \<Longrightarrow> dispatch ''GET'' (terminal_src i n) = Some (E_shellProxy, [i])"
    and "dispatch ''GET'' (''/ide/'' @ i) = Some (E_idePage, [i])"
  using assms by (simp_all add: terminal_src_def dispatch_eval)

text \<open>
  Whatever the lab page asks of its session reaches the handler that is meant, with the id
  of the session in the place the handler reads it from: the requests of the script, the
  terminals of its tabs and its IDE. The ids the server gives have no slash and are not
  \<^verbatim>\<open>me\<close>.
\<close>

theorem page_requests_reach_handlers:
  assumes "plain_segment i" and "plain_segment sc"
  shows "dispatch (fst (page_url i sc r)) (snd (page_url i sc r)) = Some (page_target i sc r) \<and>
    dispatch ''GET'' (terminal_src i n) = Some (if n = 1 then E_terminalProxy else E_shellProxy, [i]) \<and>
    dispatch ''GET'' (''/ide/'' @ i) = Some (E_idePage, [i])"
  using assms dispatch_page dispatch_terminals by simp

theorem page_requests_reach_handlers_witness:
  "dispatch ''POST'' ''/api/sessions/i7/verify/12'' = Some (E_verifyStep, [''i7'', ''12'']) \<and>
   dispatch ''GET'' ''/t/i7/shell/'' = Some (E_shellProxy, [''i7''])"
proof -
  have p: "plain_segment ''i7''" "plain_segment ''intro''"
    by (simp_all add: plain_segment_def)
  have "nat_str 12 = ''12''"
    by code_simp
  then show ?thesis
    using page_requests_reach_handlers [OF p, of "Ask_verify 12" 2] by (simp add: page_url_def terminal_src_def)
qed

text \<open>The page of the administration is also a static file, which no guard is in front of.\<close>

theorem admin_page_unguarded:
  "dispatch ''GET'' ''/admin'' = Some (E_adminPage, []) \<and> guarded E_adminPage \<and>
   dispatch ''GET'' ''/admin.html'' = Some (E_static, []) \<and> \<not> guarded E_static"
  by (simp add: dispatch_eval guarded_def)

section \<open>From a URL to a handler of a session\<close>

definition route_of :: "endpoint \<Rightarrow> string list \<Rightarrow> string option \<Rightarrow> int \<Rightarrow> (string \<times> route) option" where
  "route_of e vs body now =
     (case (e, vs) of
        (E_getSession, [i]) \<Rightarrow> Some (i, Get_session)
      | (E_deleteSession, [i]) \<Rightarrow> Some (i, Delete_session now)
      | (E_injectCmd, [i]) \<Rightarrow> Some (i, Cmd body)
      | (E_navigateBrowser, [i]) \<Rightarrow> Some (i, Navigate body)
      | (E_verifyStep, [i, st]) \<Rightarrow> Some (i, Verify st now)
      | (E_sessionServices, [i]) \<Rightarrow> Some (i, Services)
      | (E_pauseSession, [i]) \<Rightarrow> Some (i, Pause_session)
      | (E_resumeSession, [i]) \<Rightarrow> Some (i, Resume_session)
      | (E_terminalProxy, [i]) \<Rightarrow> Some (i, Terminal)
      | (E_shellProxy, [i]) \<Rightarrow> Some (i, Shell)
      | (E_browserProxy, [i]) \<Rightarrow> Some (i, Browser)
      | (E_idePage, [i]) \<Rightarrow> Some (i, Ide_page)
      | (E_ideFileProxy, [i]) \<Rightarrow> Some (i, Ide_files)
      | _ \<Rightarrow> None)"

text \<open>A request about a session, by its method and path; \<open>None\<close> when it is about none.\<close>

definition session_request ::
  "server \<Rightarrow> http_request \<Rightarrow> string \<Rightarrow> string \<Rightarrow> string option \<Rightarrow> int \<Rightarrow> k8s \<Rightarrow> (reply \<times> vm_call option \<times> k8s) option" where
  "session_request s r m path body now k =
     (case dispatch m path of
        None \<Rightarrow> None
      | Some (e, vs) \<Rightarrow> map_option (\<lambda>(i, rt). serve s r i rt k) (route_of e vs body now))"

end
