(* ===== verification/Check_Chain.thy ===== *)
theory Check_Chain
  imports Vm_Commands Lab_Steps Routes
begin

text \<open>
  The check of a step from end to end: the page, the router and the handler of the server, the
  service in the VM with the script of the step, and the record in the session.
\<close>

text \<open>
  What the server gets from the VM for a step: it sends \<^verbatim>\<open>{"step": "..."}\<close>, and \<^verbatim>\<open>pass\<close> is what
  the service of the VM answers.
\<close>

definition vm_answers :: "vm_env \<Rightarrow> string \<Rightarrow> verify_answer" where
  "vm_answers v st =
     (case do_POST v ''/verify'' (Some (J_obj [(''step'', J_str st)])) of
        Some (_, Passes b) \<Rightarrow> Answer False b
      | _ \<Rightarrow> Unreachable)"

lemma vm_answers_script:
  "vm_answers v st = Answer False (run_script v (''/opt/scenario/verify/step'' @ st @ ''.sh'') = Exit 0)"
  by (simp add: vm_answers_def do_POST_def post_verify_def get_field_def script_of_def split: run.split)

definition step_script :: "nat \<Rightarrow> string" where
  "step_script n = ''/opt/scenario/verify/step'' @ nat_str n @ ''.sh''"

lemma mark_ok_resources:
  assumes "faults k = []" "find (\<lambda>l. ls_name l = i) (crs k) = Some l" "\<not> gone l"
  shows "st \<in> fst ` set (steps_of i (snd (MarkStepComplete i st now k)))"
proof -
  obtain l' where "find (\<lambda>l. ls_name l = i) (crs (snd (MarkStepComplete i st now k))) = Some l'"
    "completedSteps (ls_status l') =
       (if st \<in> fst ` set (completedSteps (ls_status l)) then completedSteps (ls_status l)
        else completedSteps (ls_status l) @ [(st, now)])"
    using mark_ok [OF assms, of st now] by blast
  then show ?thesis
    by (auto simp: steps_of_def)
qed

text \<open>
  C5: The check of a step is the exit status of its own script: when the owner of a ready
  session asks for the check of step number \<open>n\<close>, the VM runs the script of step \<open>n\<close> and the page
  is told that the step passed exactly if the script ended with status zero; then the step
  is among the completed ones of the session, and else the session is as it was.
\<close>

theorem check_is_exit_status:
  assumes "faults k = []" and "find (\<lambda>l. ls_name l = i) (crs k) = Some l" and "\<not> gone l"
    and "ownsSession s r (lsToSession l)" and "vm_up (lsToSession l)"
    and "validServiceDNS (serviceDNS (ls_status l))"
    and "\<And>c st. vm_verify s c st = vm_answers v st"
    and "plain_segment i" and "plain_segment sc"
  shows "\<exists>k'. session_request s r (fst (page_url i sc (Ask_verify n))) (snd (page_url i sc (Ask_verify n))) None now k =
      Some (Verified (run_script v (step_script n) = Exit 0),
            Some (Call (serviceDNS (ls_status l)) 7680 ''/verify''), k') \<and>
    (if run_script v (step_script n) = Exit 0 then nat_str n \<in> fst ` set (steps_of i k') else k' = k)"
proof -
  let ?sess = "lsToSession l"
  let ?k' = "if run_script v (step_script n) = Exit 0 then snd (MarkStepComplete i (nat_str n) now k) else k"
  have dns: "s_serviceDNS ?sess = serviceDNS (ls_status l)"
    by (simp add: lsToSession_def)
  have "Get i k = (Some ?sess, k)"
    using assms(1-3) by (simp add: Get_def cr_get_def)
  then have "serve s r i (Verify (nat_str n) now) k =
      (Verified (run_script v (step_script n) = Exit 0), Some (Call (serviceDNS (ls_status l)) 7680 ''/verify''), ?k')"
    using assms(4-7) dns
    by (simp add: serve_def verifyStep_def owned_session_def verify_body_def checked_def vm_answers_script step_script_def Let_def)
  then have "session_request s r (fst (page_url i sc (Ask_verify n))) (snd (page_url i sc (Ask_verify n))) None now k =
      Some (Verified (run_script v (step_script n) = Exit 0), Some (Call (serviceDNS (ls_status l)) 7680 ''/verify''), ?k')"
    using dispatch_page [OF assms(8,9), of "Ask_verify n"] by (simp add: session_request_def route_of_def)
  then show ?thesis
    using mark_ok_resources [OF assms(1-3), of "nat_str n" now] by auto
qed

theorem check_is_exit_status_witness:
  "\<exists>k'. session_request (sample_server\<lparr>vm_verify := \<lambda>_. vm_answers (\<lparr>run_script = (\<lambda>p. if p = ''/opt/scenario/verify/step1.sh'' then Exit 0 else No_file), py_str = (\<lambda>_. []), cdp_ends = (\<lambda>_. True)\<rparr>)\<rparr>)
      (request_of ''Ann@X.io'') ''POST'' ''/api/sessions/1234567890/verify/1'' None 5 one_session =
      Some (Verified True, Some (Call ''lab-12345678.vms.svc.cluster.local'' 7680 ''/verify''), k') \<and>
    ''1'' \<in> fst ` set (steps_of ''1234567890'' k')"
proof -
  let ?v = "\<lparr>run_script = (\<lambda>p. if p = ''/opt/scenario/verify/step1.sh'' then Exit 0 else No_file), py_str = (\<lambda>_. []), cdp_ends = (\<lambda>_. True)\<rparr>"
  let ?s = "sample_server\<lparr>vm_verify := \<lambda>_. vm_answers ?v\<rparr>"
  have k: "faults one_session = []" "find (\<lambda>l. ls_name l = ''1234567890'') (crs one_session) = Some ready_session"
    "\<not> gone ready_session"
    by (simp_all add: one_session_def ready_session_def new_session_def gone_def)
  have "ownsSession ?s (request_of ''Ann@X.io'') (lsToSession ready_session)"
    by code_simp
  moreover have "vm_up (lsToSession ready_session)" "validServiceDNS (serviceDNS (ls_status ready_session))"
    "serviceDNS (ls_status ready_session) = ''lab-12345678.vms.svc.cluster.local''"
    by code_simp+
  moreover have "plain_segment ''1234567890''" "plain_segment ''intro''"
    by (simp_all add: plain_segment_def)
  moreover have "nat_str 1 = ''1''"
    by code_simp
  ultimately show ?thesis
    using check_is_exit_status [OF k, of ?s "request_of ''Ann@X.io''" ?v "''intro''" 1 5]
    by (simp add: page_url_def step_script_def)
qed

end
