(* ===== verification/Ws_Proxy.thy ===== *)
theory Ws_Proxy
  imports Lab_Prelude
begin

text \<open>
  The WebSocket side of the proxy (\<^verbatim>\<open>internal/proxy\<close>): which requests are upgraded, which
  origins may connect, and the two goroutines that copy messages between the browser and
  the VM. What \<^verbatim>\<open>net/url\<close> and \<^verbatim>\<open>net\<close> do with hosts and ports is written out; which origins
  \<^verbatim>\<open>url.Parse\<close> refuses is a parameter. The sockets are queues: a read takes the next message or
  fails, a write delivers or fails, and after \<^verbatim>\<open>Close\<close> both fail.
\<close>

section \<open>Who may connect\<close>

definition isWebSocket :: "string \<Rightarrow> bool" where
  "isWebSocket upgrade = equal_fold upgrade ''websocket''"

text \<open>The part before the last \<open>c\<close>, and the part after it.\<close>

definition split_last :: "char \<Rightarrow> string \<Rightarrow> (string \<times> string) option" where
  "split_last c s =
     (case dropWhile (\<lambda>x. x \<noteq> c) (rev s) of
        [] \<Rightarrow> None
      | _ # r \<Rightarrow> Some (rev r, rev (takeWhile (\<lambda>x. x \<noteq> c) (rev s))))"

definition digit :: "char \<Rightarrow> bool" where
  "digit c \<longleftrightarrow> 48 \<le> char_code c \<and> char_code c \<le> 57"

text \<open>The host part of a URL: between \<^verbatim>\<open>//\<close> and the path, without user information.\<close>

definition url_host :: "string \<Rightarrow> string" where
  "url_host s =
     (let rest = drop 1 (dropWhile (\<lambda>c. c \<noteq> CHR '':'') s)
      in if \<not> starts_with ''//'' rest then []
         else (let a = takeWhile (\<lambda>c. c \<notin> set ''/?#'') (drop 2 rest)
               in case split_last (CHR ''@'') a of None \<Rightarrow> a | Some (_, h) \<Rightarrow> h))"

text \<open>\<^verbatim>\<open>u.Hostname()\<close>.\<close>

definition Hostname :: "string \<Rightarrow> string" where
  "Hostname hp =
     (let h = (case split_last (CHR '':'') hp of
                 None \<Rightarrow> hp | Some (a, p) \<Rightarrow> if list_all digit p then a else hp)
      in if h \<noteq> [] \<and> hd h = CHR ''['' \<and> last h = CHR '']'' then butlast (tl h) else h)"

text \<open>\<^verbatim>\<open>net.SplitHostPort\<close>: the host, or \<open>None\<close> for an error.\<close>

definition SplitHostPort :: "string \<Rightarrow> string option" where
  "SplitHostPort hp =
     (case split_last (CHR '':'') hp of
        None \<Rightarrow> None
      | Some (a, p) \<Rightarrow>
          (if starts_with ''['' hp
           then (if a \<noteq> ''['' \<and> last a = CHR '']'' \<and> set (butlast (tl a) @ p) \<inter> {CHR ''['', CHR '']''} = {}
                 then Some (butlast (tl a)) else None)
           else (if CHR '':'' \<in> set a \<or> set hp \<inter> {CHR ''['', CHR '']''} \<noteq> {} then None else Some a)))"

definition CheckOrigin :: "(string \<Rightarrow> bool) \<Rightarrow> string \<Rightarrow> string \<Rightarrow> bool" where
  "CheckOrigin parses origin host =
     (if origin = [] then True
      else if \<not> parses origin then False
      else Hostname (url_host origin) = (case SplitHostPort host of None \<Rightarrow> host | Some h \<Rightarrow> h))"

text \<open>
  \<^verbatim>\<open>proxyWS\<close> up to the copying: what it dials, with which subprotocols, and how it ends. The VM is
  dialed before the origin is looked at.
\<close>

datatype ws_outcome = Bad_gateway | Refused | Piped

definition proxyWS ::
  "(string \<Rightarrow> bool) \<Rightarrow> (string \<Rightarrow> string option \<Rightarrow> bool) \<Rightarrow> bool \<Rightarrow> string \<Rightarrow> string \<Rightarrow> string list \<Rightarrow> string \<Rightarrow> ws_outcome" where
  "proxyWS parses dials upgrades origin host subprotocols target =
     (let header = (if subprotocols = [] then None else Some (join '', '' subprotocols))
      in if \<not> dials target header then Bad_gateway
         else if \<not> CheckOrigin parses origin host then Refused
         else if \<not> upgrades then Refused else Piped)"

text \<open>A host name and an optional port, as browsers write them.\<close>

definition host_name :: "string \<Rightarrow> bool" where
  "host_name h \<longleftrightarrow> h \<noteq> [] \<and> set h \<inter> set '':[]/?#@'' = {}"

definition port_part :: "string \<Rightarrow> bool" where
  "port_part p \<longleftrightarrow> p = [] \<or> hd p = CHR '':'' \<and> list_all digit (tl p)"

lemma split_last_None: "c \<notin> set s \<Longrightarrow> split_last c s = None"
proof -
  assume "c \<notin> set s"
  then have "dropWhile (\<lambda>x. x \<noteq> c) (rev s) = []"
    by (intro dropWhile_free) simp
  then show ?thesis
    by (simp only: split_last_def list.case)
qed

lemma split_last_Some: "c \<notin> set t \<Longrightarrow> split_last c (s @ c # t) = Some (s, t)"
  using dropWhile_to [of c "rev t" "rev s"] takeWhile_to [of c "rev t" "rev s"] by (simp add: split_last_def)

lemma host_name_chars:
  "host_name h \<Longrightarrow> CHR '':'' \<notin> set h \<and> CHR ''['' \<notin> set h \<and> CHR '']'' \<notin> set h \<and> CHR ''/'' \<notin> set h \<and>
     CHR ''?'' \<notin> set h \<and> CHR ''#'' \<notin> set h \<and> CHR ''@'' \<notin> set h"
  by (auto simp: host_name_def)

lemma digits_chars:
  "list_all digit p \<Longrightarrow> CHR '':'' \<notin> set p \<and> CHR ''['' \<notin> set p \<and> CHR '']'' \<notin> set p \<and> CHR ''/'' \<notin> set p \<and>
     CHR ''?'' \<notin> set p \<and> CHR ''#'' \<notin> set p \<and> CHR ''@'' \<notin> set p"
  by (auto simp: list_all_iff digit_def char_code_def)

lemma port_part_cases:
  assumes "port_part p"
  obtains "p = []" | d where "p = CHR '':'' # d" "list_all digit d"
  using assms by (cases p) (auto simp: port_part_def)

lemma Hostname_name: "host_name h \<Longrightarrow> port_part p \<Longrightarrow> Hostname (h @ p) = h"
proof -
  assume h: "host_name h" and "port_part p"
  have hd: "hd h \<noteq> CHR ''[''"
    using h host_name_chars [OF h] by (cases h) (auto simp: host_name_def)
  from \<open>port_part p\<close> show ?thesis
  proof (cases rule: port_part_cases)
    case 1
    then show ?thesis
      using hd host_name_chars [OF h] by (simp add: Hostname_def split_last_None Let_def)
  next
    case (2 d)
    then show ?thesis
      using hd digits_chars [OF 2(2)] by (simp add: Hostname_def split_last_Some Let_def)
  qed
qed

lemma SplitHostPort_name:
  "host_name h \<Longrightarrow> port_part p \<Longrightarrow> (case SplitHostPort (h @ p) of None \<Rightarrow> h @ p | Some x \<Rightarrow> x) = h"
proof -
  assume h: "host_name h" and "port_part p"
  have hd: "\<not> starts_with ''['' (h @ q)" for q
    using h host_name_chars [OF h] by (cases h) (auto simp: host_name_def starts_with_def)
  from \<open>port_part p\<close> show ?thesis
  proof (cases rule: port_part_cases)
    case 1
    then show ?thesis
      using host_name_chars [OF h] by (simp add: SplitHostPort_def split_last_None)
  next
    case (2 d)
    then have "SplitHostPort (h @ p) = Some h"
      using hd [of p] digits_chars [OF 2(2)] host_name_chars [OF h] by (simp add: SplitHostPort_def split_last_Some)
    then show ?thesis by simp
  qed
qed

lemma url_host_name:
  assumes "CHR '':'' \<notin> set scheme" and "host_name h" and "port_part p"
  shows "url_host (scheme @ ''://'' @ h @ p) = h @ p"
proof -
  have p: "set p \<inter> set ''/?#@'' = {}"
    using assms(3)
  proof (cases rule: port_part_cases)
    case (2 d)
    then show ?thesis
      using digits_chars [OF 2(2)] by simp
  qed simp
  have hp: "\<forall>c \<in> set (h @ p). c \<notin> set ''/?#@''"
    using host_name_chars [OF assms(2)] p by auto
  have rest: "drop 1 (dropWhile (\<lambda>c. c \<noteq> CHR '':'') (scheme @ ''://'' @ h @ p)) = ''//'' @ h @ p"
    using dropWhile_to [OF assms(1), of "''//'' @ h @ p"] by simp
  have auth: "takeWhile (\<lambda>c. c \<notin> set ''/?#'') (drop 2 (''//'' @ h @ p)) = h @ p"
  proof -
    have "takeWhile (\<lambda>c. c \<notin> set ''/?#'') (h @ p) = h @ p"
      using hp unfolding takeWhile_eq_all_conv by auto
    moreover have "drop 2 (''//'' @ h @ p) = h @ p"
      by simp
    ultimately show ?thesis
      by (simp only:)
  qed
  have "split_last (CHR ''@'') (h @ p) = None"
    using hp by (intro split_last_None) auto
  moreover have "starts_with ''//'' (''//'' @ h @ p)"
    by (rule starts_with_append)
  ultimately show ?thesis
    unfolding url_host_def Let_def rest auth by (simp only: option.case if_False not_True_eq_False)
qed

text \<open>
  C14: A page may open a terminal of this server only from the server's own host: for an origin
  and a request of the usual form the test compares the host names, whatever ports either names;
  an origin that does not parse is refused, and no messages are copied for a refused one.
\<close>

theorem origin_check_compares_hosts:
  assumes "CHR '':'' \<notin> set scheme" and "host_name h" and "host_name h'" and "port_part p" and "port_part p'"
  shows "(CheckOrigin parses (scheme @ ''://'' @ h @ p) (h' @ p') \<longleftrightarrow> parses (scheme @ ''://'' @ h @ p) \<and> h = h') \<and>
    (proxyWS parses dials upgrades (scheme @ ''://'' @ h @ p) (h' @ p') subs target = Piped \<longrightarrow> h = h')"
  using url_host_name [OF assms(1,2,4)] SplitHostPort_name [OF assms(3,5)] Hostname_name [OF assms(2,4)]
  by (auto simp: CheckOrigin_def proxyWS_def Let_def split: if_splits)

theorem origin_check_compares_hosts_witness:
  "CheckOrigin (\<lambda>_. True) ''https://lab.io'' ''lab.io:443'' \<and>
   \<not> CheckOrigin (\<lambda>_. True) ''https://evil.io:443'' ''lab.io:443''"
proof -
  have h: "host_name ''lab.io''" "host_name ''evil.io''" "port_part []" "port_part '':443''"
    by (simp_all add: host_name_def port_part_def digit_def char_code_def)
  show ?thesis
    using origin_check_compares_hosts [of "''https''" "''lab.io''" "''lab.io''" "[]" "'':443''" "\<lambda>_. True"]
      origin_check_compares_hosts [of "''https''" "''evil.io''" "''lab.io''" "'':443''" "'':443''" "\<lambda>_. True"] h
    by simp
qed

section \<open>The two copiers\<close>

text \<open>
  One direction: what its source was sent and has not read, what the goroutine holds between
  \<^verbatim>\<open>ReadMessage\<close> and \<^verbatim>\<open>WriteMessage\<close>, and what arrived at its destination. A message that could
  not be written stays in \<open>Stopped\<close>.
\<close>

datatype 'm copier = Reading | Holding (held: 'm) | Stopped (dropped: "'m list")

record 'm pipe =
  offered :: "'m list"
  unread :: "'m list"
  copier :: "'m copier"
  arrived :: "'m list"

text \<open>
  Both directions, the errors in the channel \<^verbatim>\<open>errc\<close>, and whether \<^verbatim>\<open>proxyWS\<close> has returned, which
  closes both sockets.
\<close>

record 'm pump =
  up :: "'m pipe"
  down :: "'m pipe"
  errc :: nat
  closed :: bool

datatype 'm pump_event = Sends 'm | Reads | Read_fails | Writes | Write_fails

text \<open>A step of one direction, with the number of errors it puts into the channel.\<close>

inductive pipe_step :: "bool \<Rightarrow> 'm pump_event \<Rightarrow> 'm pipe \<Rightarrow> nat \<Rightarrow> 'm pipe \<Rightarrow> bool" for shut where
  sends: "pipe_step shut (Sends m) p 0 (p\<lparr>offered := offered p @ [m], unread := unread p @ [m]\<rparr>)"
| reads: "\<not> shut \<Longrightarrow> copier p = Reading \<Longrightarrow> unread p = m # ms \<Longrightarrow>
    pipe_step shut Reads p 0 (p\<lparr>unread := ms, copier := Holding m\<rparr>)"
| read_fails: "copier p = Reading \<Longrightarrow> pipe_step shut Read_fails p 1 (p\<lparr>copier := Stopped []\<rparr>)"
| writes: "\<not> shut \<Longrightarrow> copier p = Holding m \<Longrightarrow>
    pipe_step shut Writes p 0 (p\<lparr>copier := Reading, arrived := arrived p @ [m]\<rparr>)"
| write_fails: "copier p = Holding m \<Longrightarrow> pipe_step shut Write_fails p 1 (p\<lparr>copier := Stopped [m]\<rparr>)"

text \<open>The channel has room for two errors; a send beyond that would block.\<close>

inductive pump_step :: "'m pump \<Rightarrow> 'm pump \<Rightarrow> bool" where
  upward: "pipe_step (closed s) e (up s) n p \<Longrightarrow> errc s + n \<le> 2 \<Longrightarrow>
    pump_step s (s\<lparr>up := p, errc := errc s + n\<rparr>)"
| downward: "pipe_step (closed s) e (down s) n p \<Longrightarrow> errc s + n \<le> 2 \<Longrightarrow>
    pump_step s (s\<lparr>down := p, errc := errc s + n\<rparr>)"
| returns: "\<not> closed s \<Longrightarrow> errc s = Suc n \<Longrightarrow> pump_step s (s\<lparr>errc := n, closed := True\<rparr>)"

definition new_pipe :: "'m pipe" where
  "new_pipe = \<lparr>offered = [], unread = [], copier = Reading, arrived = []\<rparr>"

definition new_pump :: "'m pump" where
  "new_pump = \<lparr>up = new_pipe, down = new_pipe, errc = 0, closed = False\<rparr>"

abbreviation reachable :: "'m pump \<Rightarrow> bool" where
  "reachable s \<equiv> pump_step\<^sup>*\<^sup>* new_pump s"

inductive_cases pipe_stepE: "pipe_step shut e p n q"

section \<open>What the copiers keep\<close>

definition in_hand :: "'m copier \<Rightarrow> 'm list" where
  "in_hand c = (case c of Reading \<Rightarrow> [] | Holding m \<Rightarrow> [m] | Stopped ms \<Rightarrow> ms)"

definition stopped :: "'m pipe \<Rightarrow> nat" where
  "stopped p = (case copier p of Stopped _ \<Rightarrow> 1 | _ \<Rightarrow> 0)"

definition pipe_ok :: "'m pipe \<Rightarrow> bool" where
  "pipe_ok p \<longleftrightarrow> offered p = arrived p @ in_hand (copier p) @ unread p \<and> length (in_hand (copier p)) \<le> 1"

lemma pipe_step_keeps:
  "pipe_step shut e p n q \<Longrightarrow> pipe_ok p \<Longrightarrow> pipe_ok q \<and> stopped q = stopped p + n"
  by (induction rule: pipe_step.induct) (auto simp: pipe_ok_def in_hand_def stopped_def)

definition pump_ok :: "'m pump \<Rightarrow> bool" where
  "pump_ok s \<longleftrightarrow>
     pipe_ok (up s) \<and> pipe_ok (down s) \<and>
     errc s + (if closed s then 1 else 0) = stopped (up s) + stopped (down s)"

lemma pump_ok_step: "pump_step s t \<Longrightarrow> pump_ok s \<Longrightarrow> pump_ok t"
  by (induction rule: pump_step.induct) (auto simp: pump_ok_def dest!: pipe_step_keeps)

lemma pump_ok_reachable: "reachable s \<Longrightarrow> pump_ok s"
proof (induction rule: rtranclp_induct)
  case base
  show ?case
    by (simp add: pump_ok_def pipe_ok_def new_pump_def new_pipe_def in_hand_def stopped_def)
qed (rule pump_ok_step)

lemma stopped_le: "stopped p \<le> 1"
  by (simp add: stopped_def split: copier.split)

lemma pump_room: "pump_ok s \<Longrightarrow> errc s + (1 - stopped (up s)) + (1 - stopped (down s)) \<le> 2"
proof -
  assume "pump_ok s"
  then have "errc s \<le> stopped (up s) + stopped (down s)"
    unfolding pump_ok_def by linarith
  then show ?thesis
    using stopped_le [of "up s"] stopped_le [of "down s"] by linarith
qed

text \<open>
  C25: In whatever order the goroutines and the peers take turns and whatever fails: what has
  arrived at either end is a beginning of what the other end was sent, in order and without
  gaps or repeats; at most one message, the one in hand, is neither delivered nor still to be
  read; and the channel has room for an error of every goroutine that still runs, so that none
  waits for ever.
\<close>

theorem pump_relays_in_order:
  assumes "reachable s"
  shows "(\<exists>h. offered (up s) = arrived (up s) @ h @ unread (up s) \<and> length h \<le> 1) \<and>
    (\<exists>h. offered (down s) = arrived (down s) @ h @ unread (down s) \<and> length h \<le> 1) \<and>
    errc s + (1 - stopped (up s)) + (1 - stopped (down s)) \<le> 2"
proof -
  have ok: "pump_ok s"
    using assms by (rule pump_ok_reachable)
  then show ?thesis
    using pump_room [OF ok] unfolding pump_ok_def pipe_ok_def by auto
qed

lemma sent_to_client:
  "reachable (new_pump\<lparr>down := new_pipe\<lparr>offered := [m], arrived := [m]\<rparr>\<rparr>)"
proof -
  let ?s1 = "new_pump\<lparr>down := new_pipe\<lparr>offered := [m], unread := [m]\<rparr>\<rparr>"
  let ?s2 = "new_pump\<lparr>down := new_pipe\<lparr>offered := [m], copier := Holding m\<rparr>\<rparr>"
  have "pump_step new_pump ?s1"
    using downward [OF sends, of new_pump m] by (simp add: new_pump_def new_pipe_def)
  moreover have "pump_step ?s1 ?s2"
    using downward [OF reads, of ?s1 m "[]"] by (simp add: new_pump_def new_pipe_def)
  moreover have "pump_step ?s2 (new_pump\<lparr>down := new_pipe\<lparr>offered := [m], arrived := [m]\<rparr>\<rparr>)"
    using downward [OF writes, of ?s2 m] by (simp add: new_pump_def new_pipe_def)
  ultimately show ?thesis
    by (meson converse_rtranclp_into_rtranclp rtranclp.rtrancl_refl)
qed

theorem pump_relays_in_order_witness:
  "\<exists>s :: string pump. arrived (down s) = [''$ ''] \<and>
     (\<exists>h. offered (down s) = arrived (down s) @ h @ unread (down s) \<and> length h \<le> 1)"
  using pump_relays_in_order [OF sent_to_client [of "''$ ''"]]
  by (intro exI [of _ "new_pump\<lparr>down := new_pipe\<lparr>offered := [''$ ''], arrived := [''$ '']\<rparr>\<rparr>"]) simp

text \<open>
  Once \<^verbatim>\<open>proxyWS\<close> has returned, nothing is delivered any more, no step starts a goroutine
  again, and as long as one still runs a step is possible that ends it: both end after at most
  two steps of their own.
\<close>

theorem goroutines_end:
  assumes "reachable s" and "closed s"
  shows "(stopped (up s) + stopped (down s) = 2 \<or>
      (\<exists>t. pump_step s t \<and> stopped (up t) + stopped (down t) = stopped (up s) + stopped (down s) + 1)) \<and>
    (pump_step s t \<longrightarrow>
      closed t \<and> arrived (up t) = arrived (up s) \<and> arrived (down t) = arrived (down s) \<and>
      stopped (up s) + stopped (down s) \<le> stopped (up t) + stopped (down t) \<and>
      (offered (up t) = offered (up s) \<and> offered (down t) = offered (down s) \<longrightarrow>
         stopped (up s) + stopped (down s) < stopped (up t) + stopped (down t)))"
proof (intro conjI impI)
  have ends: "\<exists>e p'. pipe_step True e p 1 p' \<and> stopped p' = 1" if "stopped p = 0" for p :: "'a pipe"
    using that read_fails [of p True] write_fails [of p _ True]
    by (cases "copier p") (fastforce simp: stopped_def)+
  have room: "errc s + (1 - stopped (up s)) + (1 - stopped (down s)) \<le> 2"
    using pump_room [OF pump_ok_reachable [OF assms(1)]] .
  show "stopped (up s) + stopped (down s) = 2 \<or>
      (\<exists>t. pump_step s t \<and> stopped (up t) + stopped (down t) = stopped (up s) + stopped (down s) + 1)"
  proof (cases "stopped (up s) = 0")
    case True
    then obtain e p where "pipe_step (closed s) e (up s) 1 p" "stopped p = 1"
      using ends assms(2) by metis
    then show ?thesis
      using upward [of s e 1 p] room True by (intro disjI2 exI [of _ "s\<lparr>up := p, errc := errc s + 1\<rparr>"]) simp
  next
    case False
    show ?thesis
    proof (cases "stopped (down s) = 0")
      case True
      then obtain e p where "pipe_step (closed s) e (down s) 1 p" "stopped p = 1"
        using ends assms(2) by metis
      then show ?thesis
        using downward [of s e 1 p] room True by (intro disjI2 exI [of _ "s\<lparr>down := p, errc := errc s + 1\<rparr>"]) simp
    next
      case down: False
      then show ?thesis
        using False stopped_le [of "up s"] stopped_le [of "down s"] by linarith
    qed
  qed
next
  assume "pump_step s t"
  have pipe: "arrived q = arrived p \<and> stopped p \<le> stopped q \<and> (offered q = offered p \<longrightarrow> stopped p < stopped q)"
    if "pipe_step True e p n q" for e p n and q :: "'a pipe"
    using that by (cases rule: pipe_stepE) (auto simp: stopped_def)
  from \<open>pump_step s t\<close> assms(2)
  show "closed t" "arrived (up t) = arrived (up s)" "arrived (down t) = arrived (down s)"
    "stopped (up s) + stopped (down s) \<le> stopped (up t) + stopped (down t)"
    by (cases; use pipe in fastforce)+
  assume "offered (up t) = offered (up s) \<and> offered (down t) = offered (down s)"
  with \<open>pump_step s t\<close> assms(2)
  show "stopped (up s) + stopped (down s) < stopped (up t) + stopped (down t)"
    by (cases; use pipe in fastforce)
qed

theorem goroutines_end_witness:
  "\<exists>s t :: string pump. closed s \<and> stopped (down s) = 0 \<and> pump_step s t \<and> stopped (up t) + stopped (down t) = 2"
proof -
  let ?up = "new_pipe\<lparr>copier := Stopped []\<rparr> :: string pipe"
  let ?s1 = "new_pump\<lparr>up := ?up, errc := 1\<rparr>" and ?s2 = "new_pump\<lparr>up := ?up, closed := True\<rparr>"
  have "pump_step new_pump ?s1"
    using upward [OF read_fails, of new_pump] by (simp add: new_pump_def new_pipe_def)
  moreover have "pump_step ?s1 ?s2"
    using returns [of ?s1 0] by (simp add: new_pump_def)
  ultimately have "reachable ?s2"
    by (meson converse_rtranclp_into_rtranclp rtranclp.rtrancl_refl)
  moreover have s2: "closed ?s2" "stopped (up ?s2) = 1" "stopped (down ?s2) = 0"
    by (simp_all add: stopped_def new_pump_def new_pipe_def)
  ultimately have "\<exists>t. pump_step ?s2 t \<and> stopped (up t) + stopped (down t) = 2"
    using goroutines_end [of ?s2, THEN conjunct1] by (simp only: One_nat_def add_0_right Suc_1) auto
  with s2 show ?thesis
    by blast
qed

end
