(* ===== verification/User_Data.thy ===== *)
theory User_Data
  imports Lab_Prelude
begin

text \<open>
  The script that sets a VM up: \<^verbatim>\<open>cloudinit.Render\<close> reads the files of a scenario and executes the
  template \<^verbatim>\<open>vm/user-data.sh.gotmpl\<close>, and the shell in the VM writes the files back from the
  here-documents of the script.

  The template is a list of items; its lines that write no file are parameters, under the
  condition that they open no here-document. Of the shell the here-documents with a quoted
  delimiter are modelled, whose lines are taken as they are.
\<close>

section \<open>Rendering\<close>

text \<open>The files of the scenarios: contents, and the entries of a directory with whether they are directories.\<close>

record scenario_files =
  file_at :: "string \<Rightarrow> string option"
  entries_at :: "string \<Rightarrow> (string \<times> bool) list option"

record input =
  SetupSh :: string
  VerifyScripts :: "(string \<times> string) list"
  BrowserEnabled :: bool
  InjectPy :: string

datatype tmpl_item =
    Text string | Setup_here | Inject_here
  | Each_verify "tmpl_item list" | Name_here | Content_here
  | If_browser "tmpl_item list"

definition line_end :: char where "line_end = CHR 0x0A"

text \<open>Execution of a template; \<open>cur\<close> is the entry a range is at.\<close>

fun execute :: "input \<Rightarrow> string \<times> string \<Rightarrow> tmpl_item list \<Rightarrow> string" where
  "execute i cur [] = []"
| "execute i cur (Text t # r) = t @ execute i cur r"
| "execute i cur (Setup_here # r) = SetupSh i @ execute i cur r"
| "execute i cur (Inject_here # r) = InjectPy i @ execute i cur r"
| "execute i cur (Name_here # r) = fst cur @ execute i cur r"
| "execute i cur (Content_here # r) = snd cur @ execute i cur r"
| "execute i cur (Each_verify b # r) = concat (map (\<lambda>e. execute i e b) (VerifyScripts i)) @ execute i cur r"
| "execute i cur (If_browser b # r) = (if BrowserEnabled i then execute i cur b else []) @ execute i cur r"

text \<open>
  The scripts of a scenario, as the map that \<^verbatim>\<open>Render\<close> fills: a later entry of the same name
  overwrites. A template ranges over a map in the order of its keys, here that of the
  directory's entries, which \<^verbatim>\<open>fs.ReadDir\<close> sorts by name.
\<close>

definition verify_scripts :: "scenario_files \<Rightarrow> string \<Rightarrow> (string \<times> string) list" where
  "verify_scripts f sid =
     (case entries_at f (sid @ ''/verify'') of
        None \<Rightarrow> []
      | Some es \<Rightarrow>
          concat (map (\<lambda>(n, is_dir).
            if is_dir then []
            else (case file_at f (sid @ ''/verify/'' @ n) of None \<Rightarrow> [] | Some b \<Rightarrow> [(n, b)])) es))"

definition Render :: "tmpl_item list \<Rightarrow> scenario_files \<Rightarrow> string \<Rightarrow> string \<Rightarrow> bool \<Rightarrow> string + string" where
  "Render tmpl f sid injectPy browserEnabled =
     (case file_at f (sid @ ''/setup.sh'') of
        None \<Rightarrow> Inl sid
      | Some setupSh \<Rightarrow>
          Inr (execute \<lparr>SetupSh = setupSh, VerifyScripts = verify_scripts f sid,
                        BrowserEnabled = browserEnabled, InjectPy = injectPy\<rparr> ([], []) tmpl))"

section \<open>The template\<close>

definition quoted :: "string \<Rightarrow> string" where
  "quoted w = CHR 0x27 # w @ [CHR 0x27]"

definition here :: "string \<Rightarrow> string \<Rightarrow> string" where
  "here w delim = ''cat > '' @ w @ '' << '' @ quoted delim"

definition line :: "string \<Rightarrow> tmpl_item" where
  "line t = Text (t @ [line_end])"

definition in_scenario :: "string \<Rightarrow> string" where
  "in_scenario f = ''\"$SCENARIO_DIR/'' @ f @ ''\"''"

text \<open>The lines that write no file, in the order of the template.\<close>

record commands =
  before_dns :: "string list"
  before_setup :: "string list"
  before_inject :: "string list"
  after_inject :: "string list"
  browser :: "string list"
  at_end :: "string list"

definition dns_lines :: "string list" where
  "dns_lines = [''no-resolv'', ''address=/.uds.dev/127.0.0.1'', ''server=1.1.1.1'', ''server=8.8.8.8'']"

definition verify_items :: "tmpl_item list" where
  "verify_items =
     [Text (line_end # ''cat > \"$SCENARIO_DIR/verify/''), Name_here, line (''\" << '' @ quoted ''VERIFY_EOF''),
      Content_here, line [], line ''VERIFY_EOF'',
      Text ''chmod +x \"$SCENARIO_DIR/verify/'', Name_here, line ''\"'']"

definition user_data :: "commands \<Rightarrow> tmpl_item list" where
  "user_data c =
     map line (before_dns c @ [here ''/etc/dnsmasq.d/uds-dev.conf'' ''EOF''] @ dns_lines @ [''EOF''] @ before_setup c) @
     [line (here (in_scenario ''setup.sh'') ''SETUP_EOF''), Setup_here, line [], line ''SETUP_EOF'',
      line (''chmod +x '' @ in_scenario ''setup.sh''), line [],
      line ''log \"Writing verify scripts...\"'', line ''mkdir -p \"$SCENARIO_DIR/verify\"'',
      Each_verify verify_items] @
     map line ([[], []] @ before_inject c) @
     [line (here ''/opt/lab-inject.py'' ''INJECT_EOF''), Inject_here, line [], line ''INJECT_EOF''] @
     map line (after_inject c) @ [If_browser (Text [line_end] # map line (browser c)), line []] @ map line (at_end c)"

section \<open>The shell\<close>

text \<open>
  The word behind \<^verbatim>\<open>cat >\<close> with its quotes removed and \<^verbatim>\<open>SCENARIO_DIR\<close> expanded, for the words
  of this template.
\<close>

definition expand :: "string \<Rightarrow> string" where
  "expand w =
     (if take 14 w = ''\"$SCENARIO_DIR'' then ''/opt/scenario'' @ butlast (drop 14 w) else w)"

text \<open>A line that opens a here-document: the file it writes and its delimiter.\<close>

definition opens :: "string \<Rightarrow> (string \<times> string) option" where
  "opens l =
     (let w = takeWhile (\<lambda>c. c \<noteq> CHR ''<'') (drop 6 l); d = dropWhile (\<lambda>c. c \<noteq> CHR ''<'') (drop 6 l)
      in if take 6 l = ''cat > '' \<and> take 4 d = ''<< '' @ [CHR 0x27]
         then Some (expand (butlast w), butlast (drop 4 d)) else None)"

function heredocs :: "string list \<Rightarrow> (string \<times> string) list" where
  "heredocs [] = []"
| "heredocs (l # ls) =
     (case opens l of
        None \<Rightarrow> heredocs ls
      | Some (f, d) \<Rightarrow>
          (f, concat (map (\<lambda>x. x @ [line_end]) (takeWhile (\<lambda>x. x \<noteq> d) ls))) #
          heredocs (drop 1 (dropWhile (\<lambda>x. x \<noteq> d) ls)))"
  by pat_completeness auto
termination
proof (relation "measure length", simp, simp, goal_cases)
  case (1 l ls x f d)
  have "length (drop 1 (dropWhile (\<lambda>x. x \<noteq> d) ls)) \<le> length ls"
    using length_dropWhile_le [of "\<lambda>x. x \<noteq> d" ls] by simp
  then show ?case by simp
qed

text \<open>The files the script writes, in its order.\<close>

definition files_written :: "string \<Rightarrow> (string \<times> string) list" where
  "files_written script = heredocs (split_on line_end script)"

section \<open>What the VM gets\<close>

lemma heredocs_quiet:
  "(\<And>l. l \<in> set xs \<Longrightarrow> opens l = None) \<Longrightarrow> heredocs (xs @ ys) = heredocs ys"
  by (induction xs) auto

lemma heredocs_here:
  assumes "opens l = Some (f, d)" "d \<notin> set body"
  shows "heredocs (l # body @ d # ls) = (f, concat (map (\<lambda>x. x @ [line_end]) body)) # heredocs ls"
proof -
  have "takeWhile (\<lambda>x. x \<noteq> d) (body @ d # ls) = body"
    using assms(2) by (subst takeWhile_append2) auto
  moreover have "dropWhile (\<lambda>x. x \<noteq> d) (body @ d # ls) = d # ls"
    using assms(2) by (subst dropWhile_append2) auto
  ultimately show ?thesis
    using assms(1) by simp
qed

lemma concat_lines: "concat (map (\<lambda>x. x @ [line_end]) (split_on line_end t)) = t @ [line_end]"
proof -
  have "xs \<noteq> [] \<Longrightarrow> concat (map (\<lambda>x. x @ [line_end]) xs) = join [line_end] xs @ [line_end]" for xs :: "string list"
  proof (induction xs)
    case (Cons x xs)
    then show ?case by (cases xs) simp_all
  qed simp
  then show ?thesis
    by (simp add: join_split_on)
qed

lemma execute_append: "execute i cur (xs @ ys) = execute i cur xs @ execute i cur ys"
  by (induction i cur xs rule: execute.induct) auto

lemma execute_line: "execute i cur (line t # r) = t @ line_end # execute i cur r"
  by (simp add: line_def)

lemma execute_lines: "execute i cur (map line ts) = concat (map (\<lambda>t. t @ [line_end]) ts)"
  by (induction ts) (simp_all add: execute_line)

lemma split_line: "line_end \<notin> set t \<Longrightarrow> split_on line_end (t @ line_end # r) = t # split_on line_end r"
  by (simp add: split_on_append_sep split_on_free)

lemma split_lines:
  "(\<And>t. t \<in> set ts \<Longrightarrow> line_end \<notin> set t) \<Longrightarrow> split_on line_end (concat (map (\<lambda>t. t @ [line_end]) ts) @ r) = ts @ split_on line_end r"
  by (induction ts) (simp_all add: split_line)

text \<open>The lines a template writes for one script.\<close>

definition verify_lines :: "string \<times> string \<Rightarrow> string list" where
  "verify_lines e =
     [] # (''cat > '' @ in_scenario (''verify/'' @ fst e) @ '' << '' @ quoted ''VERIFY_EOF'') #
     split_on line_end (snd e) @ ''VERIFY_EOF'' # [''chmod +x '' @ in_scenario (''verify/'' @ fst e)]"

lemma split_here:
  assumes "line_end \<notin> set a" "line_end \<notin> set d" "line_end \<notin> set c"
  shows "split_on line_end (line_end # a @ line_end # b @ line_end # d @ line_end # c @ line_end # r) = [] # a # split_on line_end b @ d # c # split_on line_end r"
  using assms split_line [of "[]"] by (simp add: split_line split_on_append_sep [of line_end b])

lemma split_verify:
  assumes "line_end \<notin> set (fst e)"
  shows "split_on line_end (execute i e verify_items @ r) = verify_lines e @ split_on line_end r"
proof -
  let ?a = "''cat > \"$SCENARIO_DIR/verify/'' @ fst e @ ''\" << '' @ quoted ''VERIFY_EOF''"
  let ?c = "''chmod +x \"$SCENARIO_DIR/verify/'' @ fst e @ ''\"''"
  have r: "execute i e verify_items @ r = line_end # ?a @ line_end # snd e @ line_end # ''VERIFY_EOF'' @ line_end # ?c @ line_end # r"
    by (simp add: verify_items_def execute_line)
  have "split_on line_end (execute i e verify_items @ r) = [] # ?a # split_on line_end (snd e) @ ''VERIFY_EOF'' # ?c # split_on line_end r"
    unfolding r by (rule split_here) (use assms in \<open>auto simp: line_end_def quoted_def\<close>)
  then show ?thesis
    by (simp add: verify_lines_def in_scenario_def)
qed

lemma opens_verify:
  assumes "CHR ''<'' \<notin> set n"
  shows "opens (''cat > '' @ in_scenario (''verify/'' @ n) @ '' << '' @ quoted ''VERIFY_EOF'') =
    Some (''/opt/scenario/verify/'' @ n, ''VERIFY_EOF'')"
proof -
  let ?d = "''<< '' @ quoted ''VERIFY_EOF''"
  have t: "takeWhile (\<lambda>c. c \<noteq> CHR ''<'') (n @ CHR 0x22 # CHR '' '' # CHR ''<'' # r) = n @ [CHR 0x22, CHR '' '']" for r
    using assms by (subst takeWhile_append2) auto
  have d: "dropWhile (\<lambda>c. c \<noteq> CHR ''<'') (n @ CHR 0x22 # CHR '' '' # CHR ''<'' # r) = CHR ''<'' # r" for r
    using assms by (subst dropWhile_append2) auto
  show ?thesis
    by (simp add: opens_def in_scenario_def quoted_def expand_def t d Let_def butlast_append)
qed

lemma opens_chmod: "opens (''chmod +x '' @ w) = None"
  by (simp add: opens_def)

lemma heredocs_verify:
  assumes "CHR ''<'' \<notin> set (fst e)" "''VERIFY_EOF'' \<notin> set (split_on line_end (snd e))"
  shows "heredocs (verify_lines e @ ls) = (''/opt/scenario/verify/'' @ fst e, snd e @ [line_end]) # heredocs ls"
proof -
  have "heredocs (verify_lines e @ ls) = heredocs ((''cat > '' @ in_scenario (''verify/'' @ fst e) @ '' << '' @ quoted ''VERIFY_EOF'') #
      split_on line_end (snd e) @ ''VERIFY_EOF'' # (''chmod +x '' @ in_scenario (''verify/'' @ fst e)) # ls)"
    by (simp add: verify_lines_def opens_def)
  also have "\<dots> = (''/opt/scenario/verify/'' @ fst e, concat (map (\<lambda>x. x @ [line_end]) (split_on line_end (snd e)))) #
      heredocs ((''chmod +x '' @ in_scenario (''verify/'' @ fst e)) # ls)"
    by (rule heredocs_here [OF opens_verify [OF assms(1)] assms(2)])
  finally show ?thesis
    by (simp only: concat_lines heredocs.simps opens_chmod option.case)
qed

lemma heredocs_verifies:
  assumes "\<And>n t. (n, t) \<in> set es \<Longrightarrow> line_end \<notin> set n \<and> CHR ''<'' \<notin> set n \<and> ''VERIFY_EOF'' \<notin> set (split_on line_end t)"
  shows "heredocs (split_on line_end (concat (map (\<lambda>e. execute i e verify_items) es) @ r)) =
    map (\<lambda>(n, t). (''/opt/scenario/verify/'' @ n, t @ [line_end])) es @ heredocs (split_on line_end r)"
  using assms
proof (induction es)
  case (Cons e es)
  have e: "line_end \<notin> set (fst e)" "CHR ''<'' \<notin> set (fst e)" "''VERIFY_EOF'' \<notin> set (split_on line_end (snd e))"
    using Cons.prems [of "fst e" "snd e"] by simp_all
  have "heredocs (split_on line_end (concat (map (\<lambda>e. execute i e verify_items) es) @ r)) =
    map (\<lambda>(n, t). (''/opt/scenario/verify/'' @ n, t @ [line_end])) es @ heredocs (split_on line_end r)"
    by (rule Cons.IH) (use Cons.prems in auto)
  then show ?case
    by (simp add: split_verify [OF e(1)] heredocs_verify [OF e(2,3)] split_beta)
qed simp

text \<open>Commands that write no file: single lines that open no here-document.\<close>

definition quiet :: "string list \<Rightarrow> bool" where
  "quiet ls = (\<forall>l \<in> set ls. line_end \<notin> set l \<and> opens l = None)"

definition all_quiet :: "commands \<Rightarrow> bool" where
  "all_quiet c =
     (quiet (before_dns c) \<and> quiet (before_setup c) \<and> quiet (before_inject c) \<and> quiet (after_inject c) \<and>
      quiet (browser c) \<and> quiet (at_end c))"

lemma heredocs_lines:
  "quiet ls \<Longrightarrow> heredocs (split_on line_end (concat (map (\<lambda>t. t @ [line_end]) ls) @ r)) = heredocs (split_on line_end r)"
  by (subst split_lines) (auto simp: quiet_def heredocs_quiet)

lemma heredocs_file:
  assumes "opens l = Some (f, d)" "line_end \<notin> set l" "line_end \<notin> set d" "d \<notin> set (split_on line_end b)"
  shows "heredocs (split_on line_end (l @ line_end # b @ line_end # d @ line_end # r)) = (f, b @ [line_end]) # heredocs (split_on line_end r)"
  using heredocs_here [OF assms(1,4), of "split_on line_end r"] assms(2,3)
  by (simp add: split_line split_on_append_sep [of line_end b] concat_lines)

lemma opens_here [simp]:
  "opens (here ''/etc/dnsmasq.d/uds-dev.conf'' ''EOF'') = Some (''/etc/dnsmasq.d/uds-dev.conf'', ''EOF'')"
  "opens (here (in_scenario ''setup.sh'') ''SETUP_EOF'') = Some (''/opt/scenario/setup.sh'', ''SETUP_EOF'')"
  "opens (here ''/opt/lab-inject.py'' ''INJECT_EOF'') = Some (''/opt/lab-inject.py'', ''INJECT_EOF'')"
  by (simp_all add: opens_def here_def in_scenario_def quoted_def expand_def Let_def)

text \<open>The rendered script, in the pieces in which the shell reads it.\<close>

abbreviation lined :: "string list \<Rightarrow> string" where
  "lined ls \<equiv> concat (map (\<lambda>t. t @ [line_end]) ls)"

lemma script_pieces:
  "execute i e (user_data c) =
    lined (before_dns c) @ here ''/etc/dnsmasq.d/uds-dev.conf'' ''EOF'' @ line_end # join [line_end] dns_lines @ line_end # ''EOF'' @ line_end #
    lined (before_setup c) @ here (in_scenario ''setup.sh'') ''SETUP_EOF'' @ line_end # SetupSh i @ line_end # ''SETUP_EOF'' @ line_end #
    lined [''chmod +x '' @ in_scenario ''setup.sh'', [], ''log \"Writing verify scripts...\"'', ''mkdir -p \"$SCENARIO_DIR/verify\"''] @
    concat (map (\<lambda>e. execute i e verify_items) (VerifyScripts i)) @
    lined ([[], []] @ before_inject c) @ here ''/opt/lab-inject.py'' ''INJECT_EOF'' @ line_end # InjectPy i @ line_end # ''INJECT_EOF'' @ line_end #
    lined (after_inject c @ (if BrowserEnabled i then [] # browser c else []) @ [] # at_end c)"
  by (simp add: user_data_def execute_append execute_line execute_lines dns_lines_def)

lemma heredocs_script:
  assumes "all_quiet c" "''SETUP_EOF'' \<notin> set (split_on line_end (SetupSh i))" "''INJECT_EOF'' \<notin> set (split_on line_end (InjectPy i))"
    "\<And>n t. (n, t) \<in> set (VerifyScripts i) \<Longrightarrow>
      line_end \<notin> set n \<and> CHR ''<'' \<notin> set n \<and> ''VERIFY_EOF'' \<notin> set (split_on line_end t)"
  shows "files_written (execute i e (user_data c)) =
    (''/etc/dnsmasq.d/uds-dev.conf'', join [line_end] dns_lines @ [line_end]) # (''/opt/scenario/setup.sh'', SetupSh i @ [line_end]) #
    map (\<lambda>(n, t). (''/opt/scenario/verify/'' @ n, t @ [line_end])) (VerifyScripts i) @ [(''/opt/lab-inject.py'', InjectPy i @ [line_end])]"
proof -
  have fixed: "quiet [''chmod +x '' @ in_scenario ''setup.sh'', [], ''log \"Writing verify scripts...\"'', ''mkdir -p \"$SCENARIO_DIR/verify\"'']"
    by (simp add: quiet_def in_scenario_def opens_def line_end_def)
  have tail: "quiet ([[], []] @ before_inject c)"
    "quiet (after_inject c @ (if BrowserEnabled i then [] # browser c else []) @ [] # at_end c)"
    using assms(1) by (auto simp: all_quiet_def quiet_def opens_def)
  have dns: "''EOF'' \<notin> set (split_on line_end (join [line_end] dns_lines))"
    by (subst split_on_join) (auto simp: dns_lines_def line_end_def)
  have free: "line_end \<notin> set (here ''/etc/dnsmasq.d/uds-dev.conf'' ''EOF'')" "line_end \<notin> set (here (in_scenario ''setup.sh'') ''SETUP_EOF'')"
    "line_end \<notin> set (here ''/opt/lab-inject.py'' ''INJECT_EOF'')"
    "line_end \<notin> set ''EOF''" "line_end \<notin> set ''SETUP_EOF''" "line_end \<notin> set ''INJECT_EOF''"
    by (simp_all add: here_def quoted_def in_scenario_def line_end_def)
  have end_: "heredocs (split_on line_end (lined (after_inject c @ (if BrowserEnabled i then [] # browser c else []) @ [] # at_end c))) = []"
    using heredocs_lines [OF tail(2), of "[]"] by (simp add: opens_def)
  have q: "quiet (before_dns c)" "quiet (before_setup c)"
    using assms(1) by (simp_all add: all_quiet_def)
  have scripts: "heredocs (split_on line_end (concat (map (\<lambda>e. execute i e verify_items) (VerifyScripts i)) @ r)) =
      map (\<lambda>(n, t). (''/opt/scenario/verify/'' @ n, t @ [line_end])) (VerifyScripts i) @ heredocs (split_on line_end r)" for r
    by (rule heredocs_verifies) (use assms(4) in blast)
  show ?thesis
    unfolding files_written_def script_pieces heredocs_lines [OF q(1)] heredocs_lines [OF q(2)]
      heredocs_file [OF opens_here(1) free(1,4) dns] heredocs_file [OF opens_here(2) free(2,5) assms(2)]
      heredocs_lines [OF fixed] scripts heredocs_lines [OF tail(1)]
      heredocs_file [OF opens_here(3) free(3,6) assms(3)] end_ by simp
qed


text \<open>Sample files: one step with a script, and a directory beside it that is passed over.\<close>

definition sample_files :: scenario_files where
  "sample_files =
     \<lparr>file_at = [''intro/setup.sh'' \<mapsto> ''k3d cluster create'', ''intro/verify/step1.sh'' \<mapsto> ''test -f done''],
      entries_at = [''intro/verify'' \<mapsto> [(''lib'', True), (''step1.sh'', False)]]\<rparr>"

definition sample_commands :: commands where
  "sample_commands =
     \<lparr>before_dns = [''#!/bin/bash''], before_setup = [''mkdir -p'', []], before_inject = [''log''],
      after_inject = [''chmod +x /opt/lab-inject.py''], browser = [''log browser''], at_end = [''log done'']\<rparr>"


text \<open>
  The one error of the rendering is a missing set-up script; a verify directory that cannot be
  read is none, and gives a VM without checks.
\<close>

lemma render_error_iff:
  "Render tmpl f sid injectPy b = Inl e \<longleftrightarrow> file_at f (sid @ ''/setup.sh'') = None \<and> e = sid"
  by (auto simp: Render_def split: option.splits)

lemma unreadable_verify_no_checks:
  "entries_at f (sid @ ''/verify'') = None \<Longrightarrow> verify_scripts f sid = []"
  by (simp add: verify_scripts_def)

end
