(* ===== verification/Demo_Tokens.thy ===== *)
theory Demo_Tokens
  imports Access "HOL-Library.AList" "HOL-Library.Word"
begin

text \<open>
  Demo links (\<^verbatim>\<open>cmd/labserver/main.go\<close>): signed tokens, the ConfigMap that records them, and the
  sessions of visitors.

  HMAC-SHA256 in hexadecimal under the server's key is the parameter \<open>mac\<close>; UUIDs are
  arguments. Times are seconds since 1970 except where nanoseconds are named. The ConfigMap is
  the list of its entries in the order a loop over it meets them; a value that is no record
  is \<open>None\<close>. Its calls take their failures from the same list as those on sessions.
\<close>

section \<open>Tokens\<close>

definition newline :: char where "newline = char_of (10 :: nat)"
definition carriage_return :: char where "carriage_return = char_of (13 :: nat)"

text \<open>\<^verbatim>\<open>strconv.ParseInt(s, 10, 64)\<close>.\<close>

definition int64 :: "int \<Rightarrow> bool" where
  "int64 i \<longleftrightarrow> - (2 ^ 63) \<le> i \<and> i < 2 ^ 63"

definition ParseInt :: "string \<Rightarrow> int option" where
  "ParseInt s =
     (let (neg, ds) = (case s of
            [] \<Rightarrow> (False, [])
          | c # cs \<Rightarrow> if c = CHR ''-'' then (True, cs) else if c = CHR ''+'' then (False, cs) else (False, s))
      in case parse_nat ds of
           None \<Rightarrow> None
         | Some n \<Rightarrow> (let i = (if neg then - int n else int n) in if int64 i then Some i else None))"

record demo_claims =
  dc_scenario :: string
  dc_email :: string
  dc_exp :: int
  dc_token :: string

datatype token_error = Invalid_token | Expired_token

definition token_payload :: "string \<Rightarrow> string \<Rightarrow> int \<Rightarrow> string \<Rightarrow> string" where
  "token_payload sid email e i = join [newline] [sid, email, int_str e, i]"

definition generateDemoToken :: "(string \<Rightarrow> string) \<Rightarrow> string \<Rightarrow> string \<Rightarrow> int \<Rightarrow> string \<Rightarrow> string" where
  "generateDemoToken mac sid email e i =
     (let payload = token_payload sid email e i in encode (payload @ [newline] @ mac payload))"

definition validateDemoToken :: "(string \<Rightarrow> string) \<Rightarrow> int \<Rightarrow> string \<Rightarrow> token_error + demo_claims" where
  "validateDemoToken mac now token =
     (case decode token of
        None \<Rightarrow> Inl Invalid_token
      | Some raw \<Rightarrow>
          (let parts = split_n 5 newline raw
           in if length parts \<noteq> 5 then Inl Invalid_token
              else (let payload = join [newline] (take 4 parts)
                    in if mac payload \<noteq> parts ! 4 then Inl Invalid_token
                       else (case ParseInt (parts ! 2) of
                               None \<Rightarrow> Inl Invalid_token
                             | Some e \<Rightarrow>
                                 if now > e then Inl Expired_token
                                 else Inr \<lparr>dc_scenario = parts ! 0, dc_email = parts ! 1, dc_exp = e,
                                           dc_token = parts ! 3\<rparr>))))"

definition sanitizeTokenField :: "string \<Rightarrow> string" where
  "sanitizeTokenField s = filter (\<lambda>c. c \<noteq> newline \<and> c \<noteq> carriage_return) s"

section \<open>Facts about tokens\<close>

lemma nat_str_no_sign: "nat_str n = c # cs \<Longrightarrow> c \<noteq> CHR ''-'' \<and> c \<noteq> CHR ''+''"
  using nat_str_digits [of c n] by (auto simp: char_code_def)

theorem ParseInt_int_str: "int64 i \<Longrightarrow> ParseInt (int_str i) = Some i"
proof (cases "i < 0")
  case False
  assume "int64 i"
  obtain c cs where c: "nat_str (nat i) = c # cs"
    by (cases "nat_str (nat i)") auto
  then have "ParseInt (nat_str (nat i)) =
      (case parse_nat (nat_str (nat i)) of None \<Rightarrow> None | Some n \<Rightarrow> if int64 (int n) then Some (int n) else None)"
    using nat_str_no_sign [OF c] by (simp add: ParseInt_def c del: parse_nat_str split: option.split)
  then show ?thesis
    using False \<open>int64 i\<close> by (simp add: int_str_def)
qed (simp add: ParseInt_def int_str_def)

lemma newline_facts: "newline \<noteq> CHR ''-''" "char_code newline = 10"
  by (code_simp, simp add: newline_def)

lemma int_str_no_newline: "newline \<notin> set (int_str i)"
  using nat_str_digits [of newline] by (auto simp: int_str_def newline_facts split: if_splits)

lemma sanitized: "newline \<notin> set (sanitizeTokenField s)"
  by (simp add: sanitizeTokenField_def)

text \<open>
  C27: A token that the server issued is accepted until the second it expires in, and gives back
  the scenario, the email, the expiry and the id it was issued for, whatever line breaks the
  request had put into them; afterwards it is rejected as expired.
\<close>

theorem token_round_trip:
  assumes "int64 e" and "newline \<notin> set i"
  shows "validateDemoToken mac now (generateDemoToken mac (sanitizeTokenField sid) (sanitizeTokenField email) e i) =
    (if now > e then Inl Expired_token
     else Inr \<lparr>dc_scenario = sanitizeTokenField sid, dc_email = sanitizeTokenField email, dc_exp = e, dc_token = i\<rparr>)"
proof -
  let ?fs = "[sanitizeTokenField sid, sanitizeTokenField email, int_str e, i]"
  let ?p = "join [newline] ?fs"
  have raw: "?p @ [newline] @ mac ?p = join [newline] (?fs @ [mac ?p])"
    by simp
  have "split_n (Suc (length ?fs)) newline (join [newline] (?fs @ [mac ?p])) = ?fs @ [mac ?p]"
    using assms(2) sanitized int_str_no_newline by (intro split_n_join) auto
  then have "split_n 5 newline (?p @ [newline] @ mac ?p) = ?fs @ [mac ?p]"
    unfolding raw by (simp add: eval_nat_numeral)
  then show ?thesis
    using ParseInt_int_str [OF assms(1)]
    by (simp add: validateDemoToken_def generateDemoToken_def token_payload_def Let_def)
qed

text \<open>
  C29: Nothing but a signed payload is accepted: the accepted text is the four claims, as the
  handler then uses them, followed by their code under the server's key, and the token has
  not expired.
\<close>

theorem accepted_token_signed:
  assumes "validateDemoToken mac now token = Inr c"
  shows "\<exists>expiry. ParseInt expiry = Some (dc_exp c) \<and> now \<le> dc_exp c \<and>
    (let payload = join [newline] [dc_scenario c, dc_email c, expiry, dc_token c]
     in decode token = Some (payload @ [newline] @ mac payload))"
proof -
  obtain raw where raw: "decode token = Some raw"
    using assms by (auto simp: validateDemoToken_def split: option.splits)
  define parts where "parts = split_n 5 newline raw"
  have len: "length parts = 5"
    using assms raw by (auto simp: validateDemoToken_def parts_def Let_def split: if_splits)
  then obtain a b d i m where parts: "parts = [a, b, d, i, m]"
    by (auto simp: length_Suc_conv eval_nat_numeral)
  have fields: "mac (join [newline] [a, b, d, i]) = m" "ParseInt d = Some (dc_exp c)" "now \<le> dc_exp c"
    "dc_scenario c = a" "dc_email c = b" "dc_token c = i"
    using assms raw parts
    by (auto simp: validateDemoToken_def parts_def [symmetric] Let_def split: if_splits option.splits)
  have "raw = join [newline] parts"
    unfolding parts_def using join_split_n [of newline 4 raw] by (simp add: eval_nat_numeral)
  then show ?thesis
    using raw fields parts by (auto simp: Let_def)
qed

section \<open>Expiry\<close>

definition maxDemoTokenExpiryHours :: int where "maxDemoTokenExpiryHours = 8760"

definition clamp_hours :: "int \<Rightarrow> int" where
  "clamp_hours h =
     (let h1 = (if h \<le> 0 then 72 else h)
      in if h1 > maxDemoTokenExpiryHours then maxDemoTokenExpiryHours else h1)"

text \<open>
  \<^verbatim>\<open>time.Now().Add(time.Duration(h) * time.Hour).Unix()\<close>: a duration counts nanoseconds in 64
  bits and its product wraps around.
\<close>

definition hours_duration :: "int \<Rightarrow> 64 word" where
  "hours_duration h = word_of_int h * 3600000000000"

definition expiry_of :: "int \<Rightarrow> int \<Rightarrow> int" where
  "expiry_of now_ns h = (now_ns + sint (hours_duration (clamp_hours h))) div 1000000000"

lemma clamp_hours_range: "1 \<le> clamp_hours h \<and> clamp_hours h \<le> 8760"
  by (simp add: clamp_hours_def maxDemoTokenExpiryHours_def Let_def)

lemma sint_small: "int64 x \<Longrightarrow> sint (word_of_int x :: 64 word) = x"
  by (simp add: int64_def sint_sbintrunc' signed_take_bit_int_eq_self)

lemma hours_duration_exact: "1 \<le> h \<Longrightarrow> h \<le> 8760 \<Longrightarrow> sint (hours_duration h) = h * 3600000000000"
proof -
  assume h: "1 \<le> h" "h \<le> 8760"
  have "hours_duration h = word_of_int (h * 3600000000000)"
    by (simp add: hours_duration_def)
  moreover have "int64 (h * 3600000000000)"
    using h by (simp add: int64_def)
  ultimately show ?thesis
    by (simp only: sint_small)
qed

text \<open>
  C38: Whatever number of hours a request names, negative and huge ones included, the duration
  does not wrap around and the link expires between one hour and one year from now.
\<close>

theorem expiry_bounds:
  "expiry_of now_ns h = now_ns div 1000000000 + clamp_hours h * 3600 \<and>
   now_ns div 1000000000 + 3600 \<le> expiry_of now_ns h \<and>
   expiry_of now_ns h \<le> now_ns div 1000000000 + 8760 * 3600"
proof -
  have "sint (hours_duration (clamp_hours h)) = clamp_hours h * 3600 * 1000000000"
    using clamp_hours_range [of h] by (simp add: hours_duration_exact)
  then have "expiry_of now_ns h = now_ns div 1000000000 + clamp_hours h * 3600"
    unfolding expiry_of_def by simp
  then show ?thesis
    using clamp_hours_range [of h] by simp
qed

section \<open>The token store\<close>

record token_record =
  tr_id :: string
  tr_email :: string
  tr_scenario :: string
  tr_token :: string
  tr_created :: int
  tr_expires :: int
  tr_session :: string

record demo_state =
  dk :: k8s
  store :: "(string \<times> token_record option) list option"

definition demo_api :: "demo_state \<Rightarrow> bool \<times> demo_state" where
  "demo_api d = (case api_call (dk d) of (b, k) \<Rightarrow> (b, d\<lparr>dk := k\<rparr>))"

definition readTokenStore :: "demo_state \<Rightarrow> (api_error + token_record list) \<times> demo_state" where
  "readTokenStore d =
     (case demo_api d of (b, d1) \<Rightarrow>
        if b then (Inl Api_fault, d1)
        else (case store d1 of
                None \<Rightarrow> (Inl Not_found, d1)
              | Some es \<Rightarrow> (Inr (List.map_filter snd es), d1)))"

text \<open>A patch sends the changed key only.\<close>

definition patch_store :: "string \<Rightarrow> token_record \<Rightarrow> demo_state \<Rightarrow> (api_error + unit) \<times> demo_state" where
  "patch_store i rec d =
     (case demo_api d of (b, d1) \<Rightarrow>
        if b then (Inl Api_fault, d1)
        else (case store d1 of
                None \<Rightarrow> (Inl Not_found, d1)
              | Some es \<Rightarrow> (Inr (), d1\<lparr>store := Some (AList.update i (Some rec) es)\<rparr>)))"

definition writeTokenRecord :: "string \<Rightarrow> token_record \<Rightarrow> demo_state \<Rightarrow> (api_error + unit) \<times> demo_state" where
  "writeTokenRecord i rec d =
     (case demo_api d of (b, d1) \<Rightarrow>
        if b then (Inl Api_fault, d1)
        else (case store d1 of
                None \<Rightarrow>
                  (case demo_api d1 of (b2, d2) \<Rightarrow>
                     if b2 then (Inl Api_fault, d2) else (Inr (), d2\<lparr>store := Some [(i, Some rec)]\<rparr>))
              | Some _ \<Rightarrow> patch_store i rec d1))"

definition patchDemoTokenSessionID :: "string \<Rightarrow> string \<Rightarrow> demo_state \<Rightarrow> demo_state" where
  "patchDemoTokenSessionID i sid d =
     (case demo_api d of (b, d1) \<Rightarrow>
        if b then d1
        else (case store d1 of
                None \<Rightarrow> d1
              | Some es \<Rightarrow>
                  (case map_of es i of
                     Some (Some rec) \<Rightarrow> snd (patch_store i (rec\<lparr>tr_session := sid\<rparr>) d1)
                   | _ \<Rightarrow> d1)))"

section \<open>The handlers\<close>

datatype demo_reply =
    Demo_error nat
  | Token_created (created_id: string) (created_token: string)
  | Token_list "(token_record \<times> session option \<times> nat) list"
  | Redirect (red_session: string) (red_scenario: string) (red_cookie: string)

text \<open>
  \<open>mac\<close> is \<open>None\<close> where no key is configured. The request of \<^verbatim>\<open>createDemoToken\<close> is \<open>None\<close> when its
  body is no JSON.
\<close>

definition createDemoToken ::
  "server \<Rightarrow> (string \<Rightarrow> string) option \<Rightarrow> http_request \<Rightarrow> (string \<times> int) option \<Rightarrow> int \<Rightarrow> string \<Rightarrow>
   demo_state \<Rightarrow> demo_reply \<times> demo_state" where
  "createDemoToken s mac r req now_ns i d =
     (case mac of
        None \<Rightarrow> (Demo_error 503, d)
      | Some m \<Rightarrow>
          (case req of
             None \<Rightarrow> (Demo_error 400, d)
           | Some (sid, hours) \<Rightarrow>
               (if sid = [] then (Demo_error 400, d)
                else (case load s sid of
                        Inl _ \<Rightarrow> (Demo_error 400, d)
                      | Inr _ \<Rightarrow>
                          (let e = expiry_of now_ns hours;
                               token = generateDemoToken m (sanitizeTokenField sid)
                                         (sanitizeTokenField (authedEmail s r)) e i;
                               rec = \<lparr>tr_id = i, tr_email = authedEmail s r, tr_scenario = sid, tr_token = token,
                                      tr_created = now_ns div 1000000000, tr_expires = e, tr_session = []\<rparr>
                           in case writeTokenRecord i rec d of
                                (Inl _, d1) \<Rightarrow> (Demo_error 500, d1)
                              | (Inr _, d1) \<Rightarrow> (Token_created i token, d1))))))"

text \<open>The address a link begins with; what Go knows of the connection and of its headers.\<close>

record origin =
  o_tls :: bool
  o_host :: string
  forwarded_proto :: string
  forwarded_host :: string

definition isSafeHost :: "string \<Rightarrow> bool" where
  "isSafeHost h \<longleftrightarrow>
     h \<noteq> [] \<and>
     list_all (\<lambda>c. alnum c \<or> c = CHR ''-'' \<or> c = CHR ''.'' \<or> c = CHR '':'' \<or> c = CHR ''['' \<or> c = CHR '']'') h"

definition demoBaseURL :: "origin \<Rightarrow> string" where
  "demoBaseURL r =
     (let scheme = (if forwarded_proto r = ''http'' \<or> (\<not> o_tls r \<and> forwarded_proto r = []) then ''http'' else ''https'');
          host = (if forwarded_host r \<noteq> [] \<and> isSafeHost (forwarded_host r) then forwarded_host r else o_host r)
      in scheme @ ''://'' @ host)"

definition isSecureRequest :: "origin \<Rightarrow> bool" where
  "isSecureRequest r \<longleftrightarrow> o_tls r \<or> lower (forwarded_proto r) = ''https''"

definition demoClientID :: "server \<Rightarrow> string \<Rightarrow> string \<Rightarrow> string" where
  "demoClientID s i email = digest s (i @ '':'' @ lower (trim email))"

definition demo_labels :: "string \<Rightarrow> string \<rightharpoonup> string" where
  "demo_labels i = [type_label \<mapsto> ''demo'', ae_label \<mapsto> i]"

text \<open>
  The part of \<^verbatim>\<open>startDemoSession\<close> after the token was accepted. \<open>i\<close> is the id of the session it
  may create; the record of the token is patched in the background.
\<close>

definition demo_session ::
  "server \<Rightarrow> demo_claims \<Rightarrow> string \<Rightarrow> int \<Rightarrow> string \<Rightarrow> demo_state \<Rightarrow> demo_reply \<times> demo_state" where
  "demo_session s c email now i d =
     (let cid = demoClientID s (dc_token c) email
      in case Create (load s) (ttl s) cid (dc_scenario c) email [demo_labels (dc_token c)] i now (dk d) of
           (Inl Session_exists, k1) \<Rightarrow>
             (case GetActive cid k1 of
                (None, k2) \<Rightarrow> (Demo_error 500, d\<lparr>dk := k2\<rparr>)
              | (Some x, k2) \<Rightarrow> (Redirect (s_id x) (s_scenario x) cid, d\<lparr>dk := k2\<rparr>))
         | (Inl _, k1) \<Rightarrow> (Demo_error 500, d\<lparr>dk := k1\<rparr>)
         | (Inr x, k1) \<Rightarrow>
             (Redirect (s_id x) (s_scenario x) cid,
              patchDemoTokenSessionID (dc_token c) (s_id x) (d\<lparr>dk := k1\<rparr>)))"

definition startDemoSession ::
  "server \<Rightarrow> (string \<Rightarrow> string) option \<Rightarrow> (string \<times> string) option \<Rightarrow> int \<Rightarrow> string \<Rightarrow>
   demo_state \<Rightarrow> demo_reply \<times> demo_state" where
  "startDemoSession s mac req now i d =
     (case mac of
        None \<Rightarrow> (Demo_error 503, d)
      | Some m \<Rightarrow>
          (case req of
             None \<Rightarrow> (Demo_error 400, d)
           | Some (token, email) \<Rightarrow>
               (if token = [] \<or> email = [] then (Demo_error 400, d)
                else (case validateDemoToken m now token of
                        Inl Expired_token \<Rightarrow> (Demo_error 410, d)
                      | Inl Invalid_token \<Rightarrow> (Demo_error 401, d)
                      | Inr c \<Rightarrow> demo_session s c (lower (trim email)) now i d))))"

text \<open>The last session of a token in the list counts.\<close>

definition session_by_token :: "session list \<Rightarrow> string \<Rightarrow> session option" where
  "session_by_token ss i =
     find (\<lambda>x. s_aeToken x = i) (rev (filter (\<lambda>x. s_sessionType x = ''demo'' \<and> s_aeToken x \<noteq> []) ss))"

definition listDemoTokens ::
  "server \<Rightarrow> (string \<Rightarrow> string) option \<Rightarrow> http_request \<Rightarrow> demo_state \<Rightarrow> demo_reply \<times> demo_state" where
  "listDemoTokens s mac r d =
     (case mac of
        None \<Rightarrow> (Demo_error 503, d)
      | Some _ \<Rightarrow>
          (case readTokenStore d of
             (Inl Api_fault, d1) \<Rightarrow> (Demo_error 500, d1)
           | (res, d1) \<Rightarrow>
               (let recs = (case res of Inl _ \<Rightarrow> [] | Inr rs \<Rightarrow> rs)
                in case All_sessions (dk d1) of
                     (ss, k1) \<Rightarrow>
                       (Token_list
                          (map (\<lambda>rec. (rec, session_by_token ss (tr_id rec),
                                       case load s (tr_scenario rec) of Inl _ \<Rightarrow> 0
                                       | Inr sc \<Rightarrow> length (sc_steps sc)))
                             (filter (\<lambda>rec. equal_fold (tr_email rec) (authedEmail s r)) recs)),
                        d1\<lparr>dk := k1\<rparr>))))"

section \<open>Sessions of visitors\<close>

text \<open>The client label of a session names its client, and its name is its id.\<close>

definition labelled :: "k8s \<Rightarrow> bool" where
  "labelled k \<longleftrightarrow>
     list_all (\<lambda>l. ls_labels l client_label = Some (clientID (ls_spec l)) \<and> ls_name l = sessionID (ls_spec l)) (crs k)"

lemma labelled_ident: "map ident (crs k') = map ident (crs k) \<Longrightarrow> labelled k' = labelled k"
proof -
  define ok where "ok = (\<lambda>(n, m :: string \<rightharpoonup> string, i, c, e :: string, sc :: string, p :: phase).
    m client_label = Some c \<and> (n :: string) = i)"
  have "labelled k = list_all ok (map ident (crs k))" for k
    by (simp add: labelled_def ident_def ok_def list.pred_map comp_def)
  then show "map ident (crs k') = map ident (crs k) \<Longrightarrow> labelled k' = labelled k"
    by simp
qed

lemma client_label_demo: "demo_labels i client_label = None"
  by (simp add: demo_labels_def client_label_def type_label_def ae_label_def)

lemma create_check_crs: "create_check c k = (res, k1) \<Longrightarrow> crs k1 = crs k"
  by (auto simp: create_check_def crs_list split: prod.splits sum.splits if_splits)

lemma Create_refused_crs: "Create ld t c sid e xs i now k = (Inl Session_exists, k1) \<Longrightarrow> crs k1 = crs k"
  by (auto simp: Create_def create_commit_def create_check_crs split: prod.splits sum.splits)

lemma Create_demo:
  assumes "Create ld t c sid e [demo_labels tok] i now k = (Inr x, k1)"
  shows "\<exists>l. crs k1 = crs k @ [l] \<and> ls_name l = i \<and> of_client c l \<and> sessionID (ls_spec l) = i \<and>
    clientID (ls_spec l) = c \<and> scenarioID (ls_spec l) = sid \<and> userEmail (ls_spec l) = e \<and>
    active_phase (ph (ls_status l)) \<and> ls_labels l ae_label = Some tok \<and> s_id x = i \<and> s_scenario x = sid"
proof -
  have "(\<exists>sz b. crs k1 = crs k @ [new_session c sid e [demo_labels tok] i now t sz b]) \<and>
      s_id x = i \<and> s_scenario x = sid"
    using assms
    by (auto simp: Create_def create_commit_def cr_create_def dest!: create_check_crs api_call_crs
        split: prod.splits sum.splits if_splits) blast
  then obtain sz b where new: "crs k1 = crs k @ [new_session c sid e [demo_labels tok] i now t sz b]"
    "s_id x = i" "s_scenario x = sid"
    by blast
  show ?thesis
    using new client_label_demo [of tok]
    by (intro exI [of _ "new_session c sid e [demo_labels tok] i now t sz b"])
      (simp add: new_session_def of_client_def active_phase_def demo_labels_def ae_label_def type_label_def client_label_def)
qed

lemma GetActive_SomeD:
  assumes "GetActive c k = (Some x, k1)"
  shows "crs k1 = crs k \<and> (\<exists>l \<in> set (crs k). of_client c l \<and> x = lsToSession l \<and> active_phase (ph (ls_status l)))"
  using assms
  by (auto simp: GetActive_def find_Some_iff in_set_conv_nth status_expired_iff crs_list split: prod.splits sum.splits)
    (auto simp: cr_list_def api_call_crs status_expired_iff split: prod.splits if_splits dest!: nth_mem)

lemma patchDemoToken_crs: "crs (dk (patchDemoTokenSessionID i sid d)) = crs (dk d)"
  by (auto simp: patchDemoTokenSessionID_def patch_store_def demo_api_def api_call_crs split: prod.split option.split)

text \<open>The request of a visitor's browser after the redirect.\<close>

definition visitor :: "string \<Rightarrow> http_request" where
  "visitor cid = \<lparr>authorization = [], client_cookie = Some cid\<rparr>"

lemma visitor_owns: "cid \<noteq> [] \<Longrightarrow> clientID (ls_spec l) = cid \<Longrightarrow> ownsSession s (visitor cid) (lsToSession l)"
  by (simp add: ownsSession_def bearer_def visitor_def starts_with_def lsToSession_def)

lemma demo_session_Redirect:
  assumes "demo_session s c email now i d = (Redirect sid sc cid, d')"
  shows "(\<exists>x k1. Create (load s) (ttl s) cid (dc_scenario c) email [demo_labels (dc_token c)] i now (dk d) =
        (Inl Session_exists, k1) \<and> GetActive cid k1 = (Some x, dk d') \<and> sid = s_id x \<and> sc = s_scenario x) \<or>
     (\<exists>x k1. Create (load s) (ttl s) cid (dc_scenario c) email [demo_labels (dc_token c)] i now (dk d) =
        (Inr x, k1) \<and> crs (dk d') = crs k1 \<and> sid = s_id x \<and> sc = s_scenario x)"
  using assms
  by (auto simp: demo_session_def Let_def patchDemoToken_crs
      split: prod.splits sum.splits mgr_error.splits option.splits)

text \<open>The session behind a redirect.\<close>

lemma visitor_session:
  assumes "startDemoSession s mac req now i d = (Redirect sid sc cid, d')" and "labelled (dk d)" and "cid \<noteq> []"
  shows "labelled (dk d') \<and>
    (\<exists>l \<in> set (crs (dk d')). ls_name l = sid \<and> scenarioID (ls_spec l) = sc \<and> active_phase (ph (ls_status l)) \<and>
       ownsSession s (visitor cid) (lsToSession l) \<and>
       (crs (dk d') = crs (dk d) \<or> crs (dk d') = crs (dk d) @ [l]))"
proof -
  obtain c email where c: "demo_session s c email now i d = (Redirect sid sc cid, d')"
    using assms(1)
    by (auto simp: startDemoSession_def split: option.splits if_splits sum.splits token_error.splits)
  note cases = demo_session_Redirect [OF c]
  from cases show ?thesis
  proof (elim disjE exE conjE)
    fix x k1 assume x: "Create (load s) (ttl s) cid (dc_scenario c) email [demo_labels (dc_token c)] i now (dk d) =
        (Inl Session_exists, k1)" "GetActive cid k1 = (Some x, dk d')" "sid = s_id x" "sc = s_scenario x"
    then have same: "crs (dk d') = crs (dk d)"
      using Create_refused_crs GetActive_SomeD by metis
    obtain l where l: "l \<in> set (crs (dk d'))" "of_client cid l" "x = lsToSession l" "active_phase (ph (ls_status l))"
      using GetActive_SomeD [OF x(2)] by auto
    have "clientID (ls_spec l) = cid \<and> ls_name l = sessionID (ls_spec l)"
      using l(1,2) same assms(2) by (auto simp: labelled_def list_all_iff of_client_def)
    then show ?thesis
      using l x same assms visitor_owns [of cid l s]
      by (intro conjI bexI [of _ l]) (simp_all add: labelled_def lsToSession_def)
  next
    fix x k1 assume x: "Create (load s) (ttl s) cid (dc_scenario c) email [demo_labels (dc_token c)] i now (dk d) = (Inr x, k1)"
      "crs (dk d') = crs k1" "sid = s_id x" "sc = s_scenario x"
    obtain l where l: "crs k1 = crs (dk d) @ [l]" "ls_name l = i" "of_client cid l" "sessionID (ls_spec l) = i"
      "clientID (ls_spec l) = cid" "scenarioID (ls_spec l) = dc_scenario c" "active_phase (ph (ls_status l))"
      "s_id x = i" "s_scenario x = dc_scenario c"
      using Create_demo [OF x(1)] by blast
    show ?thesis
      using l x assms visitor_owns [of cid l s]
      by (intro conjI bexI [of _ l]) (simp_all add: labelled_def of_client_def)
  qed
qed

text \<open>
  The visitor a demo link redirects gets a session that is its own: it exists under the id
  in the address, is active, runs the scenario named there, and the cookie set with the
  redirect makes its browser the owner. It is the one session created, or one that was
  there before for the same link and email. The resources keep their labels.
\<close>

theorem visitor_gets_own_session:
  assumes "startDemoSession s mac req now i d = (Redirect sid sc cid, d')" and "labelled (dk d)" and "cid \<noteq> []"
  shows "labelled (dk d') \<and>
    (\<exists>l \<in> set (crs (dk d')). ls_name l = sid \<and> scenarioID (ls_spec l) = sc \<and> active_phase (ph (ls_status l)) \<and>
       ownsSession s (visitor cid) (lsToSession l) \<and>
       (crs (dk d') = crs (dk d) \<or> crs (dk d') = crs (dk d) @ [l]))"
  using assms by (rule visitor_session)

section \<open>Examples\<close>

text \<open>The code of the examples is the reversed text; it is only to be computed here.\<close>

definition sample_token :: string where
  "sample_token = generateDemoToken rev ''intro'' ''ann@x.io'' 5 ''u1''"

lemma sample_token_valid:
  "validateDemoToken rev 5 sample_token =
     Inr \<lparr>dc_scenario = ''intro'', dc_email = ''ann@x.io'', dc_exp = 5, dc_token = ''u1''\<rparr>"
  by code_simp

theorem token_round_trip_witness:
  "validateDemoToken rev 5 (generateDemoToken rev (sanitizeTokenField ''intro'') (sanitizeTokenField ''ann@x.io'') 5 ''u1'') =
     Inr \<lparr>dc_scenario = sanitizeTokenField ''intro'', dc_email = sanitizeTokenField ''ann@x.io'', dc_exp = 5,
          dc_token = ''u1''\<rparr>"
proof -
  have "int64 5" "newline \<notin> set ''u1''"
    by (simp add: int64_def, code_simp)
  then show ?thesis
    using token_round_trip [of 5 "''u1''" rev 5] by simp
qed

theorem accepted_token_signed_witness:
  "\<exists>expiry. ParseInt expiry = Some 5 \<and> (5 :: int) \<le> 5 \<and>
     (let payload = join [newline] [''intro'', ''ann@x.io'', expiry, ''u1'']
      in decode sample_token = Some (payload @ [newline] @ rev payload))"
  using accepted_token_signed [OF sample_token_valid] by simp

definition empty_store :: demo_state where
  "empty_store = \<lparr>dk = \<lparr>crs = [], faults = []\<rparr>, store = None\<rparr>"

lemma start_sample:
  assumes "email \<noteq> []"
  shows "\<exists>d'. startDemoSession sample_server (Some rev) (Some (sample_token, email)) 5 ''s1'' empty_store =
      (Redirect ''s1'' ''intro'' (''u1:'' @ lower (trim (lower (trim email)))), d') \<and>
    (\<exists>l. crs (dk d') = [l] \<and> ls_name l = ''s1'' \<and> userEmail (ls_spec l) = lower (trim email))"
proof -
  have token: "sample_token \<noteq> []"
    by code_simp
  show ?thesis
    using assms token
    by (simp add: startDemoSession_def sample_token_valid demo_session_def Let_def Create_def create_check_def
        create_commit_def cr_list_def cr_create_def api_call_def new_session_def sample_load_def sample_scenario_def
        normalize_size_def empty_store_def patchDemoTokenSessionID_def demo_api_def demoClientID_def sample_server_def)
qed

theorem visitor_gets_own_session_witness:
  "\<exists>d' cid. startDemoSession sample_server (Some rev) (Some (sample_token, ''Bob@x.io'')) 5 ''s1'' empty_store =
      (Redirect ''s1'' ''intro'' cid, d') \<and>
    (\<exists>l \<in> set (crs (dk d')). ls_name l = ''s1'' \<and> ownsSession sample_server (visitor cid) (lsToSession l))"
proof -
  obtain d' where d': "startDemoSession sample_server (Some rev) (Some (sample_token, ''Bob@x.io'')) 5 ''s1'' empty_store =
      (Redirect ''s1'' ''intro'' (''u1:'' @ lower (trim (lower (trim ''Bob@x.io'')))), d')"
    using start_sample [of "''Bob@x.io''"] by auto
  have "labelled (dk empty_store)"
    by (simp add: labelled_def empty_store_def)
  then show ?thesis
    using visitor_gets_own_session [OF d'] d' by fastforce
qed

text \<open>
  An email of blanks passes the check for a missing one, which is made before blanks are
  removed: the visitor gets a session without an email.
\<close>

theorem blank_email_accepted:
  "\<exists>cid d' l. startDemoSession sample_server (Some rev) (Some (sample_token, ''  '')) 5 ''s1'' empty_store =
      (Redirect ''s1'' ''intro'' cid, d') \<and> crs (dk d') = [l] \<and> userEmail (ls_spec l) = []"
proof -
  have "lower (trim ''  '') = []"
    by code_simp
  then show ?thesis
    using start_sample [of "''  ''"] by auto
qed

end
