(* ===== verification/Html_Text.thy ===== *)
theory Html_Text
  imports Lab_Prelude
begin

text \<open>
  Markup that the pages put together as strings and assign to \<^verbatim>\<open>innerHTML\<close>: the function \<^verbatim>\<open>esc\<close> of
  the pages, and of the browser how it finds the tags in a string, by the tokenizer of the HTML
  standard: outside of tags a \<^verbatim>\<open><\<close> opens one when a letter or one of \<^verbatim>\<open>/!?\<close> follows; a tag ends at
  the first \<^verbatim>\<open>>\<close> outside of its quoted values. Comments and the contents of scripts, which no
  page builds, are left out.
\<close>

section \<open>Escaping\<close>

text \<open>\<^verbatim>\<open>s.replace(/c/g, by)\<close>.\<close>

definition replace_all :: "char \<Rightarrow> string \<Rightarrow> string \<Rightarrow> string" where
  "replace_all c by s = concat (map (\<lambda>x. if x = c then by else [x]) s)"

definition esc :: "string \<Rightarrow> string" where
  "esc s = replace_all (CHR ''>'') ''&gt;'' (replace_all (CHR ''<'') ''&lt;'' (replace_all (CHR ''&'') ''&amp;'' s))"

text \<open>The text a browser shows for a string without tags, as far as \<^verbatim>\<open>esc\<close> makes use of references.\<close>

fun shown_as :: "string \<Rightarrow> string" where
  "shown_as [] = []"
| "shown_as (c # s) =
     (if starts_with ''&amp;'' (c # s) then CHR ''&'' # shown_as (drop 4 s)
      else if starts_with ''&lt;'' (c # s) then CHR ''<'' # shown_as (drop 3 s)
      else if starts_with ''&gt;'' (c # s) then CHR ''>'' # shown_as (drop 3 s)
      else c # shown_as s)"

section \<open>Tags\<close>

datatype html_state = Data | Opened | In_tag string | In_value char string

definition quote :: "char \<Rightarrow> bool" where
  "quote c \<longleftrightarrow> c = CHR 0x22 \<or> c = CHR 0x27"

definition opens_tag :: "char \<Rightarrow> bool" where
  "opens_tag c \<longleftrightarrow> (let d = char_code (lower_char c) in 97 \<le> d \<and> d \<le> 122) \<or> c \<in> set ''/!?''"

text \<open>One character: the next state, and the tag that ends here.\<close>

fun html_step :: "html_state \<Rightarrow> char \<Rightarrow> html_state \<times> string list" where
  "html_step Data c = (if c = CHR ''<'' then Opened else Data, [])"
| "html_step Opened c =
     (if opens_tag c then In_tag [c] else if c = CHR ''<'' then Opened else Data, [])"
| "html_step (In_tag t) c =
     (if c = CHR ''>'' then (Data, [t])
      else (if quote c \<and> last t = CHR ''='' then In_value c (t @ [c]) else In_tag (t @ [c]), []))"
| "html_step (In_value q t) c = (if c = q then In_tag (t @ [c]) else In_value q (t @ [c]), [])"

fun html_run :: "html_state \<Rightarrow> string \<Rightarrow> html_state \<times> string list" where
  "html_run st [] = (st, [])"
| "html_run st (c # cs) =
     (case html_step st c of (st1, ts) \<Rightarrow> (case html_run st1 cs of (st2, us) \<Rightarrow> (st2, ts @ us)))"

definition tags :: "string \<Rightarrow> string list" where
  "tags s = snd (html_run Data s)"

section \<open>Escaped text has no tags\<close>

lemma html_run_append [simp]:
  "html_run st (xs @ ys) =
     (case html_run st xs of (st1, ts) \<Rightarrow> (case html_run st1 ys of (st2, us) \<Rightarrow> (st2, ts @ us)))"
  by (induction xs arbitrary: st) (simp_all split: prod.split)

lemma html_run_text: "CHR ''<'' \<notin> set s \<Longrightarrow> html_run Data s = (Data, [])"
  by (induction s) auto

lemma html_run_value: "q \<notin> set s \<Longrightarrow> html_run (In_value q t) s = (In_value q (t @ s), [])"
  by (induction s arbitrary: t) auto

lemma esc_chars:
  "esc s = concat (map (\<lambda>c. if c = CHR ''&'' then ''&amp;'' else if c = CHR ''<'' then ''&lt;''
     else if c = CHR ''>'' then ''&gt;'' else [c]) s)"
  by (induction s) (simp_all add: esc_def replace_all_def)

lemma esc_no_markup: "CHR ''<'' \<notin> set (esc s)" "CHR ''>'' \<notin> set (esc s)"
  by (induction s) (auto simp: esc_chars)

lemma html_run_esc [simp]: "html_run Data (esc s) = (Data, [])"
  by (intro html_run_text esc_no_markup)

lemma set_esc: "CHR 0x22 \<notin> set s \<Longrightarrow> CHR 0x22 \<notin> set (esc s)"
  by (induction s) (auto simp: esc_chars)

lemma esc_Nil_iff [simp]: "esc s = [] \<longleftrightarrow> s = []"
  by (cases s) (auto simp: esc_chars)

text \<open>What is escaped is shown as it is, and no part of it can become a tag.\<close>

lemma shown_as_esc: "shown_as (esc s) = s"
proof (induction s)
  case Nil
  then show ?case
    by (simp add: esc_chars)
next
  case (Cons c s)
  then show ?case
    by (auto simp: esc_chars starts_with_def)
qed

end
