(* ===== verification/Start_Page.thy ===== *)
theory Start_Page
  imports Demo_Tokens Html_Text
begin

text \<open>
  The page a lab is started from, the script of \<^verbatim>\<open>web/static/index.html\<close>. It is a machine as the
  lab page is: an \<^verbatim>\<open>await\<close> splits a function in two, and answers come in any order. White space
  between tags is left out, and characters beyond ASCII are their bytes.
\<close>

section \<open>The catalogue\<close>

definition bytes :: "nat list \<Rightarrow> string" where
  "bytes ns = map char_of ns"

definition fmtTTL :: "nat \<Rightarrow> string" where
  "fmtTTL minutes =
     (if minutes < 60 then nat_str minutes @ '' min''
      else (let h = minutes div 60; m = minutes mod 60
            in if m = 0 then nat_str h @ ''h'' else nat_str h @ ''h '' @ nat_str m @ ''m''))"

text \<open>A card: the scenario it starts, its class and markup, and the text its heading shows now.\<close>

record card =
  c_scenario :: string
  c_class :: string
  c_html :: string
  c_heading :: string

definition card_title :: "summary \<Rightarrow> string" where
  "card_title s = (if sm_title s \<noteq> [] then sm_title s else sm_id s)"

definition card_html :: "nat \<Rightarrow> summary \<Rightarrow> string" where
  "card_html sessionTTL s =
     ''<div class=\"card-header\"><h2>'' @ esc (card_title s) @ ''</h2>'' @
     (if sm_playground s
      then ''<span class=\"tag tag-playground\">'' @ bytes [0xE2, 0xAC, 0xA1] @ '' Playground</span>'' else []) @
     ''</div><p>'' @ esc (sm_description s) @ ''</p><div class=\"scenario-meta\">'' @
     (if sm_duration s \<noteq> 0
      then ''<span>'' @ bytes [0xE2, 0x8F, 0xB1] @ '' ~'' @ int_str (sm_duration s) @ '' min</span>'' else []) @
     ''<span title=\"Session time limit\">'' @ bytes [0xE2, 0x8F, 0xB3] @ '' '' @ fmtTTL sessionTTL @ ''</span>'' @
     (if sm_difficulty s \<noteq> [] then ''<span class=\"tag\">'' @ esc (sm_difficulty s) @ ''</span>'' else []) @
     ''</div>''"

definition card_of :: "nat \<Rightarrow> summary \<Rightarrow> card" where
  "card_of sessionTTL s =
     \<lparr>c_scenario = sm_id s,
      c_class = ''scenario-card'' @ (if sm_playground s then '' playground-card'' else []),
      c_html = card_html sessionTTL s, c_heading = card_title s\<rparr>"

section \<open>The page\<close>

datatype grid = Grid_loading | Grid_empty | Grid_cards "card list"

text \<open>
  \<open>starting\<close> holds the calls of \<^verbatim>\<open>startLab\<close> that wait for their answer: the card, its scenario, and
  the heading found when the call began. Of an alert the status is kept. Setting
  \<^verbatim>\<open>window.location.href\<close> begins to load the other page; answers are handled until it is there.
\<close>

record start_page =
  the_grid :: grid
  activeSession :: "(string \<times> string) option"
  banner :: "string option"
  starting :: "(nat \<times> string \<times> string) list"
  location :: "string option"
  alerts :: "nat list"

definition open_start :: start_page where
  "open_start =
     \<lparr>the_grid = Grid_loading, activeSession = None, banner = None, starting = [], location = None, alerts = []\<rparr>"

definition lab_url :: "string \<Rightarrow> string \<Rightarrow> string" where
  "lab_url i sc = ''/lab.html?session='' @ i @ ''&scenario='' @ sc"

text \<open>\<^verbatim>\<open>load\<close> after its \<^verbatim>\<open>await\<close>.\<close>

definition loaded :: "summary list \<Rightarrow> nat \<Rightarrow> start_page \<Rightarrow> start_page" where
  "loaded scenarios sessionTTL p =
     p\<lparr>the_grid := (if scenarios = [] then Grid_empty else Grid_cards (map (card_of sessionTTL) scenarios))\<rparr>"

text \<open>\<^verbatim>\<open>checkActiveSession\<close> after its \<^verbatim>\<open>await\<close>; an answer that is not ok changes nothing.\<close>

definition me_answered :: "reply \<Rightarrow> start_page \<Rightarrow> start_page" where
  "me_answered rep p =
     (case rep of
        Session_reply _ x \<Rightarrow>
          p\<lparr>activeSession := Some (s_id x, s_scenario x), banner := Some (lab_url (s_id x) (s_scenario x))\<rparr>
      | _ \<Rightarrow> p)"

definition dismissResume :: "start_page \<Rightarrow> start_page" where
  "dismissResume p = p\<lparr>banner := None\<rparr>"

definition starting_text :: string where
  "starting_text = ''Starting'' @ bytes [0xE2, 0x80, 0xA6]"

definition set_heading :: "nat \<Rightarrow> string \<Rightarrow> grid \<Rightarrow> grid" where
  "set_heading n h g =
     (case g of
        Grid_cards cs \<Rightarrow> Grid_cards (if n < length cs then cs[n := (cs ! n)\<lparr>c_heading := h\<rparr>] else cs)
      | _ \<Rightarrow> g)"

text \<open>\<^verbatim>\<open>startLab\<close> up to its \<^verbatim>\<open>await\<close>, and after it.\<close>

definition startLab :: "nat \<Rightarrow> start_page \<Rightarrow> start_page" where
  "startLab n p =
     (case the_grid p of
        Grid_cards cs \<Rightarrow>
          (if n < length cs
           then p\<lparr>starting := starting p @ [(n, c_scenario (cs ! n), c_heading (cs ! n))],
                  the_grid := set_heading n starting_text (the_grid p)\<rparr>
           else p)
      | _ \<Rightarrow> p)"

definition start_failed :: "nat \<Rightarrow> string \<Rightarrow> nat \<Rightarrow> start_page \<Rightarrow> start_page" where
  "start_failed n orig st p = p\<lparr>the_grid := set_heading n orig (the_grid p), alerts := alerts p @ [st]\<rparr>"

definition started :: "nat \<times> string \<times> string \<Rightarrow> reply \<Rightarrow> start_page \<Rightarrow> start_page" where
  "started call rep p =
     (case (call, rep) of
        ((_, sid, _), Session_reply _ x) \<Rightarrow> p\<lparr>location := Some (lab_url (s_id x) sid)\<rparr>
      | ((n, _, orig), Status st) \<Rightarrow>
          (case activeSession p of
             Some (i, sc) \<Rightarrow>
               (if st = 409 then p\<lparr>location := Some (lab_url i sc)\<rparr> else start_failed n orig st p)
           | None \<Rightarrow> start_failed n orig st p)
      | _ \<Rightarrow> p)"

datatype start_event =
    Loaded "summary list" nat
  | Me_answered reply
  | Dismissed
  | Card_clicked nat
  | Start_answered nat reply

fun start_step :: "start_page \<Rightarrow> start_event \<Rightarrow> start_page" where
  "start_step p (Loaded ss m) = loaded ss m p"
| "start_step p (Me_answered rep) = me_answered rep p"
| "start_step p Dismissed = dismissResume p"
| "start_step p (Card_clicked n) = startLab n p"
| "start_step p (Start_answered w rep) =
     (if w < length (starting p) then started (starting p ! w) rep (p\<lparr>starting := remove_at w (starting p)\<rparr>) else p)"

definition start_run :: "start_event list \<Rightarrow> start_page" where
  "start_run es = foldl start_step open_start es"

section \<open>The markup of a card\<close>

lemma nat_str_text: "CHR ''<'' \<notin> set (nat_str n)"
  using nat_str_digits [of "CHR ''<''" n] by (auto simp: char_code_def)

lemma html_run_digits: "html_run Data (nat_str n) = (Data, [])" "html_run Data (int_str i) = (Data, [])"
  by (auto intro!: html_run_text simp: int_str_def nat_str_text)

lemma html_run_fmtTTL: "html_run Data (fmtTTL m) = (Data, [])"
  by (intro html_run_text) (simp add: fmtTTL_def Let_def nat_str_text)

lemma card_pieces:
  "html_run Data ''<div class=\"card-header\"><h2>'' = (Data, [''div class=\"card-header\"'', ''h2''])"
  "html_run Data ''</h2>'' = (Data, [''/h2''])"
  "html_run Data ''<span class=\"tag tag-playground\">'' = (Data, [''span class=\"tag tag-playground\"''])"
  "html_run Data '' Playground</span>'' = (Data, [''/span''])"
  "html_run Data ''</div><p>'' = (Data, [''/div'', ''p''])"
  "html_run Data ''</p><div class=\"scenario-meta\">'' = (Data, [''/p'', ''div class=\"scenario-meta\"''])"
  "html_run Data ''<span>'' = (Data, [''span''])" "html_run Data '' ~'' = (Data, [])"
  "html_run Data '' min</span>'' = (Data, [''/span''])" "html_run Data ''</span>'' = (Data, [''/span''])"
  "html_run Data ''<span title=\"Session time limit\">'' = (Data, [''span title=\"Session time limit\"''])"
  "html_run Data '' '' = (Data, [])" "html_run Data ''<span class=\"tag\">'' = (Data, [''span class=\"tag\"''])"
  "html_run Data ''</div>'' = (Data, [''/div''])"
  "html_run Data (bytes [0xE2, 0xAC, 0xA1]) = (Data, [])" "html_run Data (bytes [0xE2, 0x8F, 0xB1]) = (Data, [])"
  "html_run Data (bytes [0xE2, 0x8F, 0xB3]) = (Data, [])"
  by code_simp+

text \<open>What a scenario says of itself becomes text of its card and nothing else.\<close>

lemma card_tags:
  "tags (card_html m s) =
     [''div class=\"card-header\"'', ''h2'', ''/h2''] @
     (if sm_playground s then [''span class=\"tag tag-playground\"'', ''/span''] else []) @
     [''/div'', ''p'', ''/p'', ''div class=\"scenario-meta\"''] @
     (if sm_duration s \<noteq> 0 then [''span'', ''/span''] else []) @
     [''span title=\"Session time limit\"'', ''/span''] @
     (if sm_difficulty s \<noteq> [] then [''span class=\"tag\"'', ''/span''] else []) @ [''/div'']"
  by (cases "sm_playground s"; cases "sm_duration s = 0"; cases "sm_difficulty s = []")
    (simp_all only: tags_def card_html_def html_run_append card_pieces html_run_esc html_run_digits html_run_fmtTTL
      if_True if_False simp_thms prod.case snd_conv html_run.simps(1), simp_all)

section \<open>A click and the server\<close>

lemma set_heading_cards [simp]:
  "n < length cs \<Longrightarrow> set_heading n h (Grid_cards cs) = Grid_cards (cs[n := (cs ! n)\<lparr>c_heading := h\<rparr>])"
  by (simp add: set_heading_def)

lemma remove_last [simp]: "remove_at (length xs) (xs @ [x]) = xs"
  by (simp add: remove_at_def)

lemma start_and_answer:
  assumes "the_grid p = Grid_cards cs" "n < length cs"
  shows "start_step (startLab n p) (Start_answered (length (starting p)) rep) =
    started (n, c_scenario (cs ! n), c_heading (cs ! n)) rep
      (p\<lparr>the_grid := Grid_cards (cs[n := (cs ! n)\<lparr>c_heading := starting_text\<rparr>])\<rparr>)"
  using assms by (simp add: startLab_def)

lemma find_in_set: "find P xs = Some x \<Longrightarrow> x \<in> set xs \<and> P x"
  by (auto simp: find_Some_iff)

lemma create_and_get_active:
  assumes "faults k = []"
  shows "(case GetActive c k of
      (Some x, _) \<Rightarrow>
        Create ld t c sid e xs i now k = (Inl Session_exists, k) \<and>
        (\<exists>l \<in> set (crs k). of_client c l \<and> active_phase (ph (ls_status l)) \<and> x = lsToSession l)
    | (None, _) \<Rightarrow> Create ld t c sid e xs i now k = create_commit ld t c sid e xs i now k)"
proof (cases "find (\<lambda>s. s_status s \<noteq> Status_expired) (map lsToSession (filter (of_client c) (crs k)))")
  case None
  then have "\<not> list_ex (\<lambda>l. active_phase (ph (ls_status l))) (filter (of_client c) (crs k))"
    by (auto simp: list_ex_iff find_None_iff status_expired_iff)
  then show ?thesis
    using assms None by (simp add: GetActive_def Create_def create_check_def cr_list_def api_call_def)
next
  case (Some x)
  then obtain l where l: "l \<in> set (crs k)" "of_client c l" "x = lsToSession l" "active_phase (ph (ls_status l))"
    using find_in_set [OF Some] by (auto simp: status_expired_iff)
  then show ?thesis
    using assms Some
    by (auto simp: GetActive_def Create_def create_check_def cr_list_def api_call_def list_ex_iff)
qed


definition sample_page :: start_page where
  "sample_page = start_run [Loaded [summary_of sample_scenario] 90, Me_answered (Status 404)]"

lemma sample_page_facts:
  "the_grid sample_page = Grid_cards [card_of 90 (summary_of sample_scenario)]"
  "activeSession sample_page = None" "starting sample_page = []" "alerts sample_page = []"
  "c_scenario (card_of 90 (summary_of sample_scenario)) = ''intro''"
  "c_heading (card_of 90 (summary_of sample_scenario)) = ''Intro''"
  by (simp_all add: sample_page_def start_run_def loaded_def me_answered_def open_start_def card_of_def
      summary_of_def sample_scenario_def card_title_def)


text \<open>
  What the page knows of the active session is as old as the page: once that session has ended
  and the caller has started another one elsewhere, a click leads to the ended one.
\<close>

theorem stale_session_opened:
  assumes "faults k = []" and "the_grid p = Grid_cards cs" and "n < length cs"
    and "activeSession p = Some (i0, sc0)" and "GetActive (client_of s r j) k = (Some x, k1)" and "sid \<noteq> []"
    and "createSession s r (Some sid) i j now k = (rep, call, k')"
  shows "location (start_step (startLab n p) (Start_answered (length (starting p)) rep)) = Some (lab_url i0 sc0)"
proof -
  have "rep = Status 409"
    using assms(5,6,7) create_and_get_active [OF assms(1), where c = "client_of s r j" and ld = "load s" and t = "ttl s"
        and sid = sid and e = "authedEmail s r" and xs = "[]" and i = i and now = now]
    by (simp add: createSession_def)
  then show ?thesis
    unfolding start_and_answer [OF assms(2,3)] using assms(4) by (simp add: started_def)
qed

text \<open>
  A card takes clicks while it is starting. The second request of a double click is refused
  because of the session the first has made: the user is told that the lab failed to start,
  and the heading keeps the text it had at the second click.
\<close>

theorem double_click_alerts:
  assumes "faults k = []" and "createSession s r (Some sid) i j now k = (Session_reply 201 x, call, k1)"
    and "createSession s r (Some sid) i' j now' k1 = (rep, call', k2)"
    and "the_grid p = Grid_cards cs" and "n < length cs" and "starting p = []" and "activeSession p = None"
  shows "alerts (foldl start_step p [Card_clicked n, Card_clicked n, Start_answered 1 rep, Start_answered 0 (Session_reply 201 x)]) =
      alerts p @ [409] \<and>
    the_grid (foldl start_step p [Card_clicked n, Card_clicked n, Start_answered 1 rep, Start_answered 0 (Session_reply 201 x)]) =
      Grid_cards (cs[n := (cs ! n)\<lparr>c_heading := starting_text\<rparr>])"
proof -
  have c: "sid \<noteq> []" "\<exists>y. Create (load s) (ttl s) (client_of s r j) sid (authedEmail s r) [] i now k = (Inr y, k1)"
    using assms(2) by (auto simp: createSession_def split: if_splits prod.splits sum.splits mgr_error.splits)
  then have k1: "faults k1 = []"
    using assms(1) by (auto simp: Create_def create_check_def create_commit_def cr_list_def cr_create_def api_call_def
        split: if_splits sum.splits)
  obtain l where "l \<in> set (crs k1)" "of_client (client_of s r j) l" "active_phase (ph (ls_status l))"
    using c(2) Create_new by (metis in_set_conv_decomp)
  then have "\<exists>y. fst (GetActive (client_of s r j) k1) = Some y"
    using k1 by (auto simp: GetActive_def cr_list_def api_call_def find_None_iff status_expired_iff simp flip: not_None_eq)
  then have "rep = Status 409"
    using assms(3) c(1) create_and_get_active [OF k1, where c = "client_of s r j" and ld = "load s" and t = "ttl s"
        and sid = sid and e = "authedEmail s r" and xs = "[]" and i = i' and now = now']
    by (cases "GetActive (client_of s r j) k1") (auto simp: createSession_def)
  then show ?thesis
    using assms(4-7) by (simp add: startLab_def started_def start_failed_def remove_at_def)
qed

section \<open>Headings\<close>

text \<open>
  A patient user clicks a card only while it is not starting and the page is not left; the
  server answers with a session or a status.
\<close>

fun patient :: "summary list \<Rightarrow> start_page \<Rightarrow> start_event \<Rightarrow> bool" where
  "patient ss p (Card_clicked n) = (location p = None \<and> n \<notin> fst ` set (starting p))"
| "patient ss p (Loaded ss' m) = (the_grid p = Grid_loading \<and> ss' = ss)"
| "patient ss p (Start_answered w rep) =
     (case rep of Session_reply _ _ \<Rightarrow> True | Status _ \<Rightarrow> True | _ \<Rightarrow> False)"
| "patient ss p _ = True"

definition headings_ok :: "summary list \<Rightarrow> start_page \<Rightarrow> bool" where
  "headings_ok ss p =
     (case the_grid p of
        Grid_cards cs \<Rightarrow>
          length cs = length ss \<and> distinct (map fst (starting p)) \<and>
          (\<forall>(n, _, orig) \<in> set (starting p). n < length ss \<and> orig = card_title (ss ! n)) \<and>
          (location p = None \<longrightarrow>
             (\<forall>n < length ss. c_heading (cs ! n) =
                (if n \<in> fst ` set (starting p) then starting_text else card_title (ss ! n))))
      | _ \<Rightarrow> starting p = [])"

lemma remove_at_split:
  assumes "w < length xs"
  obtains ys zs where "xs = ys @ xs ! w # zs" "remove_at w xs = ys @ zs"
  using assms id_take_nth_drop [of w xs] by (auto simp: remove_at_def)

lemma headings_clicked:
  assumes "headings_ok ss p" "patient ss p (Card_clicked n)"
  shows "headings_ok ss (startLab n p)"
proof (cases "the_grid p")
  case (Grid_cards cs)
  then show ?thesis
    using assms by (auto simp: headings_ok_def startLab_def nth_list_update)
qed (use assms in \<open>simp_all add: headings_ok_def startLab_def\<close>)

lemma headings_answered:
  assumes "headings_ok ss p" "w < length (starting p)" "patient ss p (Start_answered w rep)"
  shows "headings_ok ss (started (starting p ! w) rep (p\<lparr>starting := remove_at w (starting p)\<rparr>))"
proof (cases "the_grid p")
  case (Grid_cards cs)
  obtain ys zs where yz: "starting p = ys @ starting p ! w # zs" "remove_at w (starting p) = ys @ zs"
    using remove_at_split [OF assms(2)] by metis
  obtain n sid orig where c: "starting p ! w = (n, sid, orig)"
    by (cases "starting p ! w")
  have pend: "starting p = ys @ (n, sid, orig) # zs"
    using yz(1) c by simp
  have n: "n < length ss" "orig = card_title (ss ! n)" "n \<notin> fst ` set (ys @ zs)" "length cs = length ss"
    using assms(1) Grid_cards by (auto simp: headings_ok_def pend)
  have ok: "headings_ok ss (start_failed n orig st (p\<lparr>starting := ys @ zs\<rparr>))" for st
    using assms(1) Grid_cards n
    by (auto simp: headings_ok_def start_failed_def pend nth_list_update)
  have left: "headings_ok ss (p\<lparr>starting := ys @ zs, location := Some u\<rparr>)" for u
    using assms(1) Grid_cards by (auto simp: headings_ok_def pend)
  show ?thesis
    unfolding yz(2) c started_def
    using ok left assms(3) by (auto split: reply.splits option.split)
qed (use assms in \<open>simp_all add: headings_ok_def\<close>)

lemma headings_frame:
  "headings_ok ss (me_answered rep p) = headings_ok ss p" "headings_ok ss (dismissResume p) = headings_ok ss p"
  by (cases rep; cases "the_grid p"; simp add: headings_ok_def me_answered_def)
    (cases "the_grid p"; simp add: headings_ok_def dismissResume_def)

lemma headings_step:
  "headings_ok ss p \<Longrightarrow> patient ss p e \<Longrightarrow> headings_ok ss (start_step p e)"
proof (cases e)
  case (Loaded ss' m)
  assume "headings_ok ss p" "patient ss p e"
  then show ?thesis
    using Loaded by (auto simp: headings_ok_def loaded_def card_of_def)
next
  case (Start_answered w rep)
  assume "headings_ok ss p" "patient ss p e"
  then show ?thesis
    using Start_answered headings_answered [of ss p w rep] by (simp del: patient.simps)
qed (simp_all add: headings_clicked headings_frame)

interpretation start_headings: guarded_machine start_step "patient ss" "headings_ok ss" for ss
  by unfold_locales (rule headings_step)

text \<open>
  A start that fails leaves no trace: in every run of a patient user, with answers in any
  order, once all starts are answered and none has led to a lab, every card shows its title
  again.
\<close>

theorem failed_start_restores_card:
  assumes "admitted start_step (patient ss) open_start es" and "starting (start_run es) = []"
    and "location (start_run es) = None" and "the_grid (start_run es) = Grid_cards cs"
  shows "map c_heading cs = map card_title ss"
proof -
  have "headings_ok ss open_start"
    by (simp add: headings_ok_def open_start_def)
  then have "headings_ok ss (start_run es)"
    using start_headings.run_inv assms(1) unfolding start_run_def by blast
  then show ?thesis
    using assms(2-4) by (auto simp: headings_ok_def intro!: nth_equalityI)
qed

theorem failed_start_restores_card_witness:
  "\<exists>cs. the_grid (start_run [Loaded [summary_of sample_scenario] 90, Card_clicked 0, Start_answered 0 (Status 500)]) = Grid_cards cs \<and>
     map c_heading cs = [''Intro'']"
proof -
  let ?ss = "[summary_of sample_scenario]"
  let ?es = "[Loaded ?ss 90, Card_clicked 0, Start_answered 0 (Status 500)]"
  have eval: "admitted start_step (patient ?ss) open_start ?es" "starting (start_run ?es) = []" "location (start_run ?es) = None"
    "\<exists>cs. the_grid (start_run ?es) = Grid_cards cs" "map card_title ?ss = [''Intro'']"
    by (simp_all add: start_run_def loaded_def open_start_def startLab_def started_def start_failed_def
        summary_of_def sample_scenario_def card_title_def)
  then show ?thesis
    using failed_start_restores_card [OF eval(1-3)] by metis
qed

end
