(* ===== verification/Demo_Page.thy ===== *)
theory Demo_Page
  imports Start_Page
begin

text \<open>
  The page of a demo link, the script of \<^verbatim>\<open>web/static/demo.html\<close>, and how it works with
  \<^verbatim>\<open>startDemoSession\<close> of the server. The address of the page holds the token; the visitor types an
  email and presses the button or Enter.
\<close>

section \<open>The page\<close>

datatype demo_message = Msg_email | Msg_expired | Msg_invalid | Msg_server nat | Msg_network

text \<open>
  \<open>form\<close> is false when the page replaced the form by a note because the address has no token.
  \<open>posted\<close> holds the emails of the requests that wait for their answer.
\<close>

record demo_page =
  token :: string
  form :: bool
  typed :: string
  start_disabled :: bool
  loading :: bool
  error_shown :: "demo_message option"
  posted :: "string list"
  led_to :: "string option"

definition open_demo :: "string option \<Rightarrow> demo_page" where
  "open_demo t =
     \<lparr>token = (case t of None \<Rightarrow> [] | Some x \<Rightarrow> x), form = (t \<noteq> None \<and> t \<noteq> Some []), typed = [],
      start_disabled = False, loading = False, error_shown = None, posted = [], led_to = None\<rparr>"

definition showError :: "demo_message \<Rightarrow> demo_page \<Rightarrow> demo_page" where
  "showError m p = p\<lparr>error_shown := Some m, loading := False, start_disabled := False\<rparr>"

text \<open>\<^verbatim>\<open>startDemo\<close> up to its \<^verbatim>\<open>await\<close>.\<close>

definition startDemo :: "demo_page \<Rightarrow> demo_page" where
  "startDemo p =
     (let email = trim (typed p)
      in if email = [] \<or> CHR ''@'' \<notin> set email then showError Msg_email p
         else p\<lparr>start_disabled := True, error_shown := None, loading := True, posted := posted p @ [email]\<rparr>)"

text \<open>\<^verbatim>\<open>startDemo\<close> after it: \<open>None\<close> where \<^verbatim>\<open>fetch\<close> fails.\<close>

definition demo_answered :: "demo_reply option \<Rightarrow> demo_page \<Rightarrow> demo_page" where
  "demo_answered rep p =
     (case rep of
        None \<Rightarrow> showError Msg_network p
      | Some (Redirect sid sc _) \<Rightarrow> p\<lparr>led_to := Some (lab_url sid sc)\<rparr>
      | Some (Demo_error st) \<Rightarrow>
          (if st = 410 then showError Msg_expired p
           else if st = 401 then showError Msg_invalid p
           else showError (Msg_server st) p)
      | Some _ \<Rightarrow> p)"

datatype demo_event = Typed string | Start_clicked | Enter_pressed | Demo_answered nat "demo_reply option"

text \<open>The button takes clicks while it is enabled; the handler of Enter does not look at it.\<close>

fun demo_step :: "demo_page \<Rightarrow> demo_event \<Rightarrow> demo_page" where
  "demo_step p (Typed s) = (if form p then p\<lparr>typed := s\<rparr> else p)"
| "demo_step p Start_clicked = (if form p \<and> \<not> start_disabled p then startDemo p else p)"
| "demo_step p Enter_pressed = (if form p then startDemo p else p)"
| "demo_step p (Demo_answered w rep) =
     (if w < length (posted p) then demo_answered rep (p\<lparr>posted := remove_at w (posted p)\<rparr>) else p)"

section \<open>The form\<close>

text \<open>What the form shows: the button waits exactly while the note of loading is shown, and never beside an error.\<close>

definition form_ok :: "demo_page \<Rightarrow> bool" where
  "form_ok p \<longleftrightarrow> start_disabled p = loading p \<and> (loading p \<longrightarrow> error_shown p = None) \<and> (form p \<longleftrightarrow> token p \<noteq> []) \<and>
     list_all (\<lambda>e. CHR ''@'' \<in> set e) (posted p) \<and> (posted p \<noteq> [] \<longrightarrow> form p)"

lemma list_all_remove_at: "list_all P xs \<Longrightarrow> list_all P (remove_at w xs)"
  using set_remove_at [of w xs] by (auto simp: list_all_iff)

lemma form_answered: "form_ok p \<Longrightarrow> form_ok (demo_answered rep p)"
  by (auto simp: form_ok_def demo_answered_def showError_def split: option.split demo_reply.split)

lemma form_ok_step: "form_ok p \<Longrightarrow> form_ok (demo_step p e)"
proof (cases e)
  case (Demo_answered w rep)
  assume "form_ok p"
  then have "form_ok (p\<lparr>posted := remove_at w (posted p)\<rparr>)" if "w < length (posted p)"
    using that by (auto simp: form_ok_def list_all_remove_at)
  then show ?thesis
    using \<open>form_ok p\<close> Demo_answered form_answered by auto
qed (auto simp: form_ok_def startDemo_def showError_def Let_def)

interpretation demo_form: guarded_machine demo_step "\<lambda>_ _. True" form_ok
  by unfold_locales (rule form_ok_step)

lemma form_ok_run: "form_ok (foldl demo_step (open_demo t) es)"
  by (rule demo_form.run_inv) (auto simp: form_ok_def open_demo_def split: option.split)

section \<open>The form and the server\<close>


definition sample_form :: demo_page where
  "sample_form = foldl demo_step (open_demo (Some sample_token)) [Typed ''Bob@x.io'', Start_clicked]"

lemma sample_form_facts:
  "token sample_form = sample_token" "posted sample_form = [''Bob@x.io'']" "loading sample_form"
  "led_to sample_form = None" "sample_token \<noteq> []"
proof -
  have "trim ''Bob@x.io'' = ''Bob@x.io''" and t: "sample_token \<noteq> []"
    by code_simp+
  then show "token sample_form = sample_token" "posted sample_form = [''Bob@x.io'']" "loading sample_form"
    "led_to sample_form = None" "sample_token \<noteq> []"
    by (simp_all add: sample_form_def open_demo_def startDemo_def Let_def)
qed


text \<open>
  Enter does not look at the button: while a request waits, each further Enter sends another
  one, though the button is disabled.
\<close>

theorem enter_sends_again:
  assumes "form p" and "CHR ''@'' \<in> set (trim (typed p))"
  shows "posted (foldl demo_step p (replicate n Enter_pressed)) = posted p @ replicate n (trim (typed p)) \<and>
    (0 < n \<longrightarrow> start_disabled (foldl demo_step p (replicate n Enter_pressed)))"
  using assms
proof (induction n arbitrary: p)
  case (Suc n)
  let ?q = "startDemo p"
  have q: "form ?q" "typed ?q = typed p" "posted ?q = posted p @ [trim (typed p)]" "start_disabled ?q"
    using Suc.prems by (auto simp: startDemo_def Let_def)
  then show ?case
    using Suc.IH [of ?q] Suc.prems by (cases n) auto
qed simp

end
