(* ===== verification/Csm.thy ===== *)
theory Csm
  imports Lab_Sessions "HOL-Library.Product_Lexorder" "HOL-Library.List_Lexorder" "HOL-Library.Char_ord"
    "HOL-Library.Multiset"
begin

text \<open>
  The customer dashboard: \<^verbatim>\<open>adminCSM\<close>, \<^verbatim>\<open>emailDomain\<close> and the customer file of
  \<^verbatim>\<open>cmd/labserver/main.go\<close>.

  The sessions are grouped by the domain of the user's email and the scenario. Go visits the
  groups of a map in any order: \<open>order\<close> is the one it takes. Durations are in seconds, the
  code prints hours.
\<close>

section \<open>Data\<close>

record customer_info =
  display_name :: string
  cse :: string

record csm_user =
  u_email :: string
  u_completed :: nat
  u_active :: bool

datatype step_view = Passed int int | Active int | Pending

record csm_row =
  row_id :: string
  row_name :: string
  row_scenario :: string
  row_cse :: string
  row_count :: nat
  row_users :: "csm_user list"
  row_titles :: "string list"
  row_steps :: "step_view list"

type_synonym group_key = "string \<times> string"

section \<open>The handler\<close>

definition emailDomain :: "string \<Rightarrow> string" where
  "emailDomain e =
     (if CHR ''@'' \<in> set e then lower (rev (takeWhile (\<lambda>c. c \<noteq> CHR ''@'') (rev e))) else [])"

definition is_active :: "session \<Rightarrow> bool" where
  "is_active x \<longleftrightarrow> s_status x \<noteq> Status_expired"

definition expired_before :: "int \<Rightarrow> session \<Rightarrow> bool" where
  "expired_before cutoff x \<longleftrightarrow>
     s_status x = Status_expired \<and> (case s_expiresAt x of None \<Rightarrow> True | Some e \<Rightarrow> e < cutoff)"

definition csm_key :: "session \<Rightarrow> group_key" where
  "csm_key x = (emailDomain (s_userEmail x), s_scenario x)"

text \<open>The sessions the loop does not skip; \<open>now\<close> is the time, a day has 86400 seconds.\<close>

definition counted :: "int \<Rightarrow> session list \<Rightarrow> session list" where
  "counted now ss =
     filter (\<lambda>x. s_sessionType x \<noteq> ''demo'' \<and> \<not> expired_before (now - 30 * 86400) x \<and>
                 emailDomain (s_userEmail x) \<noteq> []) ss"

definition csm_user_of :: "session \<Rightarrow> csm_user" where
  "csm_user_of x =
     \<lparr>u_email = s_userEmail x, u_completed = length (s_completedSteps x), u_active = is_active x\<rparr>"

definition better :: "session \<Rightarrow> session \<Rightarrow> bool" where
  "better x b \<longleftrightarrow>
     length (s_completedSteps x) > length (s_completedSteps b) \<or>
     length (s_completedSteps x) = length (s_completedSteps b) \<and> is_active x \<and> s_status b = Status_expired"

definition pick :: "session option \<Rightarrow> session \<Rightarrow> session option" where
  "pick b x = (case b of None \<Rightarrow> Some x | Some y \<Rightarrow> if better x y then Some x else Some y)"

definition best :: "session list \<Rightarrow> session option" where
  "best xs = foldl pick None xs"

definition step_view_of :: "session \<Rightarrow> nat \<Rightarrow> step_view" where
  "step_view_of x i =
     (let done = s_completedSteps x; completed = length done
      in if i < completed then
           (let t = snd (done ! i); prev = (if i > 0 then snd (done ! (i - 1)) else s_createdAt x)
            in Passed t (t - prev))
         else if i = completed \<and> is_active x then
           Active (if completed > 0 then snd (done ! (completed - 1)) else s_createdAt x)
         else Pending)"

definition csm_row_of ::
  "(string \<Rightarrow> scenario_error + scenario) \<Rightarrow> (string \<rightharpoonup> customer_info) \<Rightarrow> session list \<Rightarrow> group_key \<Rightarrow> csm_row option" where
  "csm_row_of load customers xs key =
     (let users = filter (\<lambda>x. csm_key x = key) xs
      in case best users of
           None \<Rightarrow> None
         | Some b \<Rightarrow>
             (case load (snd key) of
                Inl _ \<Rightarrow> None
              | Inr sc \<Rightarrow>
                  (let info = (case customers (fst key) of None \<Rightarrow> \<lparr>display_name = [], cse = []\<rparr> | Some c \<Rightarrow> c)
                   in Some \<lparr>row_id = fst key,
                            row_name = (if display_name info = [] then fst key else display_name info),
                            row_scenario = sc_title sc, row_cse = cse info, row_count = length users,
                            row_users = map csm_user_of users, row_titles = map step_title (sc_steps sc),
                            row_steps = map (step_view_of b) [0..<length (sc_steps sc)]\<rparr>)))"

definition csm_rows ::
  "(string \<Rightarrow> scenario_error + scenario) \<Rightarrow> (string \<rightharpoonup> customer_info) \<Rightarrow> int \<Rightarrow>
   (group_key list \<Rightarrow> group_key list) \<Rightarrow> session list \<Rightarrow> csm_row list" where
  "csm_rows load customers now order ss =
     (let xs = counted now ss
      in sort_key row_name (List.map_filter (csm_row_of load customers xs) (order (remdups (map csm_key xs)))))"

definition adminCSM ::
  "(string \<Rightarrow> scenario_error + scenario) \<Rightarrow> (string \<rightharpoonup> customer_info) \<Rightarrow> int \<Rightarrow>
   (group_key list \<Rightarrow> group_key list) \<Rightarrow> k8s \<Rightarrow> csm_row list \<times> k8s" where
  "adminCSM load customers now order k =
     (case All_sessions k of (ss, k1) \<Rightarrow> (csm_rows load customers now order ss, k1))"

section \<open>The session shown for a group\<close>

definition rank :: "session \<Rightarrow> nat \<times> bool" where
  "rank x = (length (s_completedSteps x), is_active x)"

lemma better_rank: "better x b \<longleftrightarrow> rank b < rank x"
  by (auto simp: better_def rank_def is_active_def less_prod_def)

lemma find_append: "find P (xs @ ys) = (case find P xs of None \<Rightarrow> find P ys | Some x \<Rightarrow> Some x)"
  by (induction xs) auto

definition leads :: "session list \<Rightarrow> session \<Rightarrow> bool" where
  "leads xs x \<longleftrightarrow> list_all (\<lambda>y. rank y \<le> rank x) xs"

text \<open>
  The session a row shows is the first, in the order of the API, of those that have
  completed the most steps, where of equally advanced ones the unfinished come before the
  expired: the loop that keeps the better of two computes this choice.
\<close>

theorem best_is_first_leader: "best xs = find (leads xs) xs"
proof (induction xs rule: rev_induct)
  case (snoc x xs)
  show ?case
  proof (cases xs rule: rev_cases)
    case Nil
    then show ?thesis
      by (simp add: best_def pick_def leads_def)
  next
    case (snoc ys y)
    then have ne: "xs \<noteq> []" by simp
    obtain b where b: "best xs = Some b"
      using ne by (cases "best xs") (auto simp: best_def snoc pick_def split: option.splits if_splits)
    then have lead: "find (leads xs) xs = Some b" "leads xs b"
      using snoc.IH find_Some_iff [of "leads xs" xs b] by auto
    show ?thesis
    proof (cases "rank b < rank x")
      case True
      have "\<not> leads (xs @ [x]) y" if "y \<in> set xs" for y
        using lead(2) that True by (auto simp: leads_def list_all_iff dest!: bspec [of _ _ y])
      then have "find (leads (xs @ [x])) xs = None"
        by (simp add: find_None_iff)
      moreover have "leads (xs @ [x]) x"
        using lead(2) True by (auto simp: leads_def list_all_iff)
      moreover have "best (xs @ [x]) = Some x"
        using b True by (simp add: best_def pick_def better_rank)
      ultimately show ?thesis
        by (simp add: find_append)
    next
      case False
      have "leads (xs @ [x]) y = leads xs y" if "y \<in> set xs" for y
      proof -
        have "b \<in> set xs"
          using lead(1) by (auto simp: find_Some_iff)
        then show ?thesis
          using False by (auto simp: leads_def list_all_iff)
      qed
      then have "find (leads (xs @ [x])) xs = find (leads xs) xs"
        by (intro find_cong) simp_all
      then show ?thesis
        using b lead False by (simp add: find_append best_def pick_def better_rank)
    qed
  qed
qed (simp add: best_def)

section \<open>The steps of a row\<close>

definition spent :: "step_view \<Rightarrow> int" where
  "spent v = (case v of Passed t d \<Rightarrow> d | _ \<Rightarrow> 0)"

lemma sum_list_0_all: "(\<And>i. i \<in> set is \<Longrightarrow> f i = (0 :: int)) \<Longrightarrow> sum_list (map f is) = 0"
  by (induction "is") auto

lemma spent_upto:
  "n \<le> length (s_completedSteps x) \<Longrightarrow>
   sum_list (map (\<lambda>i. spent (step_view_of x i)) [0..<n]) =
     (if n = 0 then 0 else snd (s_completedSteps x ! (n - 1)) - s_createdAt x)"
  by (induction n) (auto simp: step_view_of_def spent_def Let_def)

text \<open>
  A row shows the steps in their order: as many as the session has completed have passed,
  the next one is active if the session is not expired, the rest are pending, and the times
  spent on the passed steps add up to the time from the start of the session to the last of
  them.
\<close>

theorem row_steps_shape:
  "let c = length (s_completedSteps x); vs = map (step_view_of x) [0..<n]
   in list_all (\<lambda>i. (\<exists>t d. vs ! i = Passed t d) = (i < c) \<and>
                    (\<exists>t. vs ! i = Active t) = (i = c \<and> is_active x)) [0..<n] \<and>
      sum_list (map spent vs) =
        (if min c n = 0 then 0 else snd (s_completedSteps x ! (min c n - 1)) - s_createdAt x)"
proof -
  let ?c = "length (s_completedSteps x)"
  have "[0..<n] = [0..<min ?c n] @ [min ?c n..<n]"
    using upt_add_eq_append [of 0 "min ?c n" "n - min ?c n"] by simp
  moreover have "spent (step_view_of x i) = 0" if "i \<in> set [min ?c n..<n]" for i
    using that by (auto simp: step_view_of_def spent_def Let_def min_def split: if_splits)
  then have "sum_list (map (\<lambda>i. spent (step_view_of x i)) [min ?c n..<n]) = 0"
    by (intro sum_list_0_all) simp
  ultimately have "sum_list (map (\<lambda>i. spent (step_view_of x i)) [0..<n]) =
      (if min ?c n = 0 then 0 else snd (s_completedSteps x ! (min ?c n - 1)) - s_createdAt x)"
    using spent_upto [of "min ?c n" x] by simp
  then have "sum_list (map spent (map (step_view_of x) [0..<n])) =
      (if min ?c n = 0 then 0 else snd (s_completedSteps x ! (min ?c n - 1)) - s_createdAt x)"
    by (simp add: comp_def)
  moreover have "list_all (\<lambda>i. (\<exists>t d. map (step_view_of x) [0..<n] ! i = Passed t d) = (i < ?c) \<and>
      (\<exists>t. map (step_view_of x) [0..<n] ! i = Active t) = (i = ?c \<and> is_active x)) [0..<n]"
    by (auto simp: list_all_iff step_view_of_def Let_def)
  ultimately show ?thesis
    by (simp only: Let_def)
qed

section \<open>The rows\<close>

lemma row_of_group:
  "csm_row_of load customers xs key = Some r \<Longrightarrow> row_count r = length (filter (\<lambda>x. csm_key x = key) xs)"
  by (auto simp: csm_row_of_def Let_def split: option.splits sum.splits)

lemma best_None: "best xs = None \<longleftrightarrow> xs = []"
proof -
  have "foldl pick (Some b) xs \<noteq> None" for b xs
    by (induction xs arbitrary: b) (auto simp: pick_def)
  then show ?thesis
    by (cases xs) (auto simp: best_def pick_def)
qed

lemma row_exists:
  assumes "key \<in> csm_key ` set xs" and "\<exists>sc. load (snd key) = Inr sc"
  shows "csm_row_of load customers xs key \<noteq> None"
proof -
  have "filter (\<lambda>x. csm_key x = key) xs \<noteq> []"
    using assms(1) by (auto simp: filter_empty_conv)
  then have "best (filter (\<lambda>x. csm_key x = key) xs) \<noteq> None"
    by (simp only: best_None) simp
  then show ?thesis
    using assms(2) by (auto simp: csm_row_of_def Let_def)
qed

lemma sum_no_indicator: "a \<notin> set ks \<Longrightarrow> sum_list (map (\<lambda>k. if a = k then 1 else 0) ks) = (0 :: nat)"
  by (induction ks) auto

lemma sum_indicator: "distinct ks \<Longrightarrow> a \<in> set ks \<Longrightarrow> sum_list (map (\<lambda>k. if a = k then 1 else 0) ks) = (1 :: nat)"
  by (induction ks) (auto simp: sum_no_indicator)

lemma sum_group_sizes:
  "distinct ks \<Longrightarrow> set (map f xs) \<subseteq> set ks \<Longrightarrow>
   sum_list (map (\<lambda>k. length (filter (\<lambda>x. f x = k) xs)) ks) = length xs"
proof (induction xs)
  case (Cons x xs)
  have "sum_list (map (\<lambda>k. length (filter (\<lambda>x. f x = k) (x # xs))) ks) =
      sum_list (map (\<lambda>k. (if f x = k then 1 else 0) + length (filter (\<lambda>x. f x = k) xs)) ks)"
    by (intro arg_cong [of _ _ sum_list] map_cong) auto
  also have "\<dots> = sum_list (map (\<lambda>k. if f x = k then 1 else 0) ks) + length xs"
    using Cons by (simp add: sum_list_addf)
  also have "sum_list (map (\<lambda>k. if f x = k then 1 else 0) ks) = (1 :: nat)"
    using Cons.prems by (intro sum_indicator) auto
  finally show ?case
    by simp
qed simp

lemma map_filter_all:
  "list_all (\<lambda>k. f k \<noteq> None) ks \<Longrightarrow> List.map_filter f ks = map (\<lambda>k. the (f k)) ks"
  by (induction ks) (auto simp: List.map_filter_simps)

text \<open>
  Every session that is neither a demo nor long expired nor without a domain is counted in
  exactly one row, in whatever order the groups are visited, as long as the scenarios of all
  sessions can be loaded; the rows come in the order of the customers' names.
\<close>

theorem csm_counts_every_session:
  assumes "\<And>ks. mset (order ks) = mset ks"
    and "list_all (\<lambda>x. \<exists>sc. load (s_scenario x) = Inr sc) ss"
  shows "sum_list (map row_count (csm_rows load customers now order ss)) = length (counted now ss) \<and>
    sorted (map row_name (csm_rows load customers now order ss))"
proof -
  define xs where "xs = counted now ss"
  define ks where "ks = order (remdups (map csm_key xs))"
  have ks: "set ks = csm_key ` set xs" "distinct ks"
    using assms(1) [of "remdups (map csm_key xs)"] mset_eq_setD mset_eq_imp_distinct_iff
    unfolding ks_def by fastforce+
  have "list_all (\<lambda>k. csm_row_of load customers xs k \<noteq> None) ks"
    using assms(2) ks(1) row_exists
    by (fastforce simp: list_all_iff xs_def counted_def csm_key_def)
  then have rows: "List.map_filter (csm_row_of load customers xs) ks = map (\<lambda>k. the (csm_row_of load customers xs k)) ks"
    and "\<forall>k \<in> set ks. row_count (the (csm_row_of load customers xs k)) = length (filter (\<lambda>x. csm_key x = k) xs)"
    using row_of_group by (fastforce simp: map_filter_all list_all_iff)+
  then have "sum_list (map row_count (List.map_filter (csm_row_of load customers xs) ks)) =
      sum_list (map (\<lambda>k. length (filter (\<lambda>x. csm_key x = k) xs)) ks)"
    by (simp add: comp_def cong: map_cong)
  also have "\<dots> = length xs"
    using ks by (intro sum_group_sizes) auto
  also have "sum_list (map row_count (List.map_filter (csm_row_of load customers xs) ks)) =
      sum_list (map row_count (csm_rows load customers now order ss))"
    by (simp add: csm_rows_def Let_def xs_def [symmetric] ks_def [symmetric] flip: sum_mset_sum_list)
  finally show ?thesis
    by (simp add: xs_def csm_rows_def Let_def)
qed

section \<open>The customer file\<close>

record lab_config =
  ae_group :: string
  customers_of :: "string \<rightharpoonup> customer_info"

text \<open>\<open>read\<close> gives the embedded file, \<open>parse\<close> what the YAML library makes of it.\<close>

definition loadConfig :: "string option \<Rightarrow> (string \<Rightarrow> lab_config option) \<Rightarrow> lab_config" where
  "loadConfig file parse =
     (case file of
        None \<Rightarrow> \<lparr>ae_group = [], customers_of = (\<lambda>_. None)\<rparr>
      | Some data \<Rightarrow>
          (case parse data of
             None \<Rightarrow> \<lparr>ae_group = [], customers_of = (\<lambda>_. None)\<rparr>
           | Some cfg \<Rightarrow> if ae_group cfg = [] then cfg\<lparr>ae_group := ''/UDS Core/Admin''\<rparr> else cfg))"

section \<open>Examples\<close>

definition csm_session :: "string \<Rightarrow> step_record list \<Rightarrow> status \<Rightarrow> session" where
  "csm_session i done st =
     \<lparr>s_id = i, s_scenario = ''intro'', s_userEmail = ''ann@x.io'', s_clientID = ''c1'', s_serviceDNS = [],
      s_status = st, s_paused = False, s_browserEnabled = False, s_sessionType = [], s_aeToken = [],
      s_createdAt = 100, s_expiresAt = Some 3700, s_completedSteps = done\<rparr>"

definition three_steps :: "string \<Rightarrow> scenario_error + scenario" where
  "three_steps sid =
     (let st = \<lparr>step_title = ''t'', step_file = ''f'', step_verify = ''v'', step_content = [], has_verify = True\<rparr>
      in Inr (sample_scenario\<lparr>sc_steps := [st, st, st]\<rparr>))"

theorem csm_counts_every_session_witness:
  "sum_list (map row_count (csm_rows three_steps (\<lambda>_. None) 200 (\<lambda>ks. ks)
       [csm_session ''i1'' [] Status_expired, csm_session ''i2'' [] Status_ready])) =
     length (counted 200 [csm_session ''i1'' [] Status_expired, csm_session ''i2'' [] Status_ready]) \<and>
   sorted (map row_name (csm_rows three_steps (\<lambda>_. None) 200 (\<lambda>ks. ks)
       [csm_session ''i1'' [] Status_expired, csm_session ''i2'' [] Status_ready]))"
proof (rule csm_counts_every_session)
  show "list_all (\<lambda>x. \<exists>sc. three_steps (s_scenario x) = Inr sc)
      [csm_session ''i1'' [] Status_expired, csm_session ''i2'' [] Status_ready]"
    by (simp add: three_steps_def Let_def)
qed simp

text \<open>
  The dashboard goes by the number of completed steps, not by which they are: a session that
  has completed the third step only is shown as having passed the first, and the third is
  pending.
\<close>

theorem third_step_shown_as_first:
  "map (step_view_of (csm_session ''i1'' [(''3'', 150)] Status_ready)) [0..<3] = [Passed 150 50, Active 150, Pending]"
  by (simp add: step_view_of_def csm_session_def is_active_def Let_def upt_rec)

text \<open>A user counts once for every session: a second session of the same user makes two.\<close>

theorem user_counted_twice:
  "map (\<lambda>r. (row_count r, map u_email (row_users r)))
     (csm_rows three_steps (\<lambda>_. None) 200 (\<lambda>ks. ks)
       [csm_session ''i1'' [] Status_expired, csm_session ''i2'' [] Status_ready]) =
   [(2, [''ann@x.io'', ''ann@x.io''])]"
  by code_simp

end
