(* ===== verification/Admin_Page.thy ===== *)
theory Admin_Page
  imports Start_Page Lab_Page
begin

text \<open>
  The administration page, the script of \<^verbatim>\<open>web/static/admin.html\<close>: the table of sessions with their
  termination, and the demo links. Both tables are markup put together as strings, with what
  users gave escaped. \<open>fmt\<close> is how the browser writes a date. Times of the server are seconds, of the
  browser milliseconds. Texts that fade by themselves (\<^verbatim>\<open>Copied!\<close>) are left out.
\<close>

section \<open>The table of sessions\<close>

definition dash :: string where
  "dash = bytes [0xE2, 0x80, 0x94]"

definition or_dash :: "string \<Rightarrow> string" where
  "or_dash s = (if s \<noteq> [] then s else dash)"

definition status_text :: "status \<Rightarrow> string" where
  "status_text st =
     (case st of Status_provisioning \<Rightarrow> ''provisioning'' | Status_ready \<Rightarrow> ''ready''
      | Status_expired \<Rightarrow> ''expired'' | Status_paused \<Rightarrow> ''paused'')"

text \<open>\<^verbatim>\<open>Math.round\<close> of a quotient: halves are rounded up.\<close>

definition round_div :: "int \<Rightarrow> int \<Rightarrow> int" where
  "round_div a b = (2 * a + b) div (2 * b)"

definition minsLeft :: "int \<Rightarrow> int \<Rightarrow> int" where
  "minsLeft now ts = round_div (ts - now) 60000"

definition time_left :: "int \<Rightarrow> int \<Rightarrow> string" where
  "time_left now ts =
     (let m = minsLeft now ts
      in if m < 0 then ''<span style=\"color:var(--danger)\">expired</span>''
         else if m < 10 then ''<span class=\"ttl-warn\">'' @ int_str m @ ''m left</span>''
         else int_str m @ ''m left'')"

text \<open>The call an attribute \<^verbatim>\<open>onclick\<close> makes, with one argument in quotes.\<close>

definition call_with :: "string \<Rightarrow> string \<Rightarrow> string" where
  "call_with f x = f @ ''('' @ [CHR 0x27] @ esc x @ [CHR 0x27] @ '', this)''"

definition session_row :: "int \<Rightarrow> session \<Rightarrow> string" where
  "session_row now s =
     ''<tr><td class=\"gh\">'' @ esc (or_dash (s_userEmail s)) @ ''</td><td>'' @ esc (s_scenario s) @
     ''</td><td><span class=\"status-'' @ esc (status_text (s_status s)) @ ''\">'' @ esc (status_text (s_status s)) @
     ''</span></td><td class=\"ttl\">'' @ esc (or_dash (s_serviceDNS s)) @ ''</td><td class=\"ttl\">'' @
     time_left now (date_ms (s_expiresAt s)) @ ''</td><td><button class=\"btn-kill\" onclick=\"'' @
     call_with ''terminate'' (s_id s) @ ''\">Terminate</button></td></tr>''"

definition sessions_table :: "int \<Rightarrow> session list \<Rightarrow> string" where
  "sessions_table now ss =
     ''<table><thead><tr><th>User</th><th>Scenario</th><th>Status</th>'' @
     ''<th>Service DNS</th><th>Time Left</th><th></th></tr></thead><tbody>'' @
     concat (map (session_row now) ss) @ ''</tbody></table>''"

section \<open>The table of demo links\<close>

record token_view =
  v_scenario :: string
  v_url :: string
  v_expires :: int
  v_prospect :: "string option"
  v_completed :: nat
  v_total :: nat
  v_active :: "int option"

text \<open>The row the server sends for a record (\<^verbatim>\<open>listDemoTokens\<close>).\<close>

definition share_url :: "origin \<Rightarrow> string \<Rightarrow> string" where
  "share_url o' tok = demoBaseURL o' @ ''/demo?t='' @ tok"

definition token_view_of :: "origin \<Rightarrow> token_record \<times> session option \<times> nat \<Rightarrow> token_view" where
  "token_view_of o' x =
     (case x of (rec, sess, n) \<Rightarrow>
        \<lparr>v_scenario = tr_scenario rec, v_url = share_url o' (tr_token rec), v_expires = tr_expires rec,
         v_prospect = map_option s_userEmail sess,
         v_completed = (case sess of None \<Rightarrow> 0 | Some y \<Rightarrow> length (s_completedSteps y)), v_total = n,
         v_active = (case sess of None \<Rightarrow> None
           | Some y \<Rightarrow> if s_completedSteps y = [] then None else Some (snd (last (s_completedSteps y))))\<rparr>)"

definition steps_cell :: "token_view \<Rightarrow> string" where
  "steps_cell t =
     (if v_total t > 0
      then ''<div class=\"progress-bar\"><div class=\"progress-fill\" style=\"width:'' @
           int_str (round_div (100 * int (v_completed t)) (int (v_total t))) @ ''%\"></div></div> '' @
           nat_str (v_completed t) @ ''/'' @ nat_str (v_total t)
      else dash)"

definition token_row :: "(int \<Rightarrow> string) \<Rightarrow> int \<Rightarrow> token_view \<Rightarrow> string" where
  "token_row fmt now t =
     ''<tr><td class=\"gh\">'' @ esc (or_dash (case v_prospect t of None \<Rightarrow> [] | Some e \<Rightarrow> e)) @ ''</td><td>'' @
     esc (v_scenario t) @ ''</td><td>'' @ steps_cell t @ ''</td><td>'' @
     (case v_active t of None \<Rightarrow> dash | Some a \<Rightarrow> fmt (1000 * a)) @ ''</td><td>'' @
     (if 1000 * v_expires t < now then ''<span style=\"color:var(--danger)\">expired</span>'' else fmt (1000 * v_expires t)) @
     ''</td><td><button class=\"copy-btn\" onclick=\"'' @ call_with ''copyLink'' (v_url t) @
     ''\">Copy link</button></td></tr>''"

definition tokens_table :: "(int \<Rightarrow> string) \<Rightarrow> int \<Rightarrow> token_view list \<Rightarrow> string" where
  "tokens_table fmt now ts =
     ''<table><thead><tr><th>Prospect</th><th>Scenario</th><th>Progress</th>'' @
     ''<th>Last Active</th><th>Expires</th><th></th></tr></thead><tbody>'' @
     concat (map (token_row fmt now) ts) @ ''</tbody></table>''"

text \<open>The choices of the dialog.\<close>

definition option_html :: "summary \<Rightarrow> string" where
  "option_html s = ''<option value=\"'' @ esc (sm_id s) @ ''\">'' @ esc (sm_title s) @ ''</option>''"

section \<open>Cells are text\<close>

lemma html_value_end:
  "html_run (In_value q t) (q # CHR ''>'' # s) = (case html_run Data s of (st, ts) \<Rightarrow> (st, (t @ [q]) # ts))"
  by (simp split: prod.split)

lemma call_free: "CHR 0x22 \<notin> set x \<Longrightarrow> CHR 0x22 \<notin> set f \<Longrightarrow> CHR 0x22 \<notin> set (call_with f x)"
  by (simp add: call_with_def set_esc)

lemma esc_status: "esc (status_text st) = status_text st"
  by (cases st; simp only: status_text_def status.case; code_simp)

lemma status_free: "CHR 0x22 \<notin> set (esc (status_text st))"
  unfolding esc_status by (cases st) (simp_all add: status_text_def)

lemma html_run_concat:
  "(\<And>x. x \<in> set xs \<Longrightarrow> html_run Data (f x) = (Data, g x)) \<Longrightarrow>
   html_run Data (concat (map f xs)) = (Data, concat (map g xs))"
  by (induction xs) simp_all

text \<open>The tags of a row: they name the status and the id of the session, and whether its time runs out.\<close>

definition left_tags :: "int \<Rightarrow> int \<Rightarrow> string list" where
  "left_tags now ts =
     (if minsLeft now ts < 0 then [''span style=\"color:var(--danger)\"'', ''/span'']
      else if minsLeft now ts < 10 then [''span class=\"ttl-warn\"'', ''/span''] else [])"

definition row_tags :: "int \<Rightarrow> session \<Rightarrow> string list" where
  "row_tags now s =
     [''tr'', ''td class=\"gh\"'', ''/td'', ''td'', ''/td'', ''td'', ''span class=\"status-'' @ status_text (s_status s) @ [CHR 0x22],
      ''/span'', ''/td'', ''td class=\"ttl\"'', ''/td'', ''td class=\"ttl\"''] @ left_tags now (date_ms (s_expiresAt s)) @
     [''/td'', ''td'', ''button class=\"btn-kill\" onclick=\"'' @ call_with ''terminate'' (s_id s) @ [CHR 0x22],
      ''/button'', ''/td'', ''/tr'']"

lemma row_pieces:
  "html_run Data ''<tr><td class=\"gh\">'' = (Data, [''tr'', ''td class=\"gh\"''])"
  "html_run Data ''</td><td>'' = (Data, [''/td'', ''td''])"
  "html_run Data ''</td><td><span class=\"status-'' = (In_value (CHR 0x22) ''span class=\"status-'', [''/td'', ''td''])"
  "html_run Data ''</span></td><td class=\"ttl\">'' = (Data, [''/span'', ''/td'', ''td class=\"ttl\"''])"
  "html_run Data ''</td><td class=\"ttl\">'' = (Data, [''/td'', ''td class=\"ttl\"''])"
  "html_run Data ''</td><td><button class=\"btn-kill\" onclick=\"'' =
     (In_value (CHR 0x22) ''button class=\"btn-kill\" onclick=\"'', [''/td'', ''td''])"
  "html_run Data ''Terminate</button></td></tr>'' = (Data, [''/button'', ''/td'', ''/tr''])"
  "html_run Data ''<span style=\"color:var(--danger)\">expired</span>'' = (Data, [''span style=\"color:var(--danger)\"'', ''/span''])"
  "html_run Data ''<span class=\"ttl-warn\">'' = (Data, [''span class=\"ttl-warn\"''])"
  "html_run Data ''m left</span>'' = (Data, [''/span''])" "html_run Data ''m left'' = (Data, [])"
  "html_run Data ''<table><thead><tr><th>User</th><th>Scenario</th><th>Status</th>'' =
     (Data, [''table'', ''thead'', ''tr'', ''th'', ''/th'', ''th'', ''/th'', ''th'', ''/th''])"
  "html_run Data ''<th>Service DNS</th><th>Time Left</th><th></th></tr></thead><tbody>'' =
     (Data, [''th'', ''/th'', ''th'', ''/th'', ''th'', ''/th'', ''/tr'', ''/thead'', ''tbody''])"
  "html_run Data ''</tbody></table>'' = (Data, [''/tbody'', ''/table''])"
  by code_simp+

lemma html_run_left: "html_run Data (time_left now ts) = (Data, left_tags now ts)"
  by (cases "minsLeft now ts < 0"; cases "minsLeft now ts < 10")
    (simp_all only: time_left_def left_tags_def Let_def if_True if_False html_run_append row_pieces html_run_digits
      prod.case append_Nil, simp_all)

lemma html_run_row:
  assumes "CHR 0x22 \<notin> set (s_id s)"
  shows "html_run Data (session_row now s) = (Data, row_tags now s)"
proof -
  have call: "CHR 0x22 \<notin> set (call_with ''terminate'' (s_id s))"
    using assms by (intro call_free) simp_all
  show ?thesis
    unfolding session_row_def row_tags_def html_run_append row_pieces html_run_esc prod.case
      html_run_value [OF status_free] html_run_value [OF call] html_value_end html_run_left html_run.simps(1)
    by (simp add: esc_status)
qed

section \<open>The page\<close>

datatype admin_tab = Tab_sessions | Tab_demo

datatype admin_request =
    Get_config | Get_sessions | Get_scenarios | Get_tokens
  | Delete_session string | Post_token string int

text \<open>
  The variables of the script and what it wrote to the elements. \<open>terminating\<close> are the sessions whose
  button waits; a new table has new buttons. \<open>requests\<close> were sent, \<open>open_requests\<close> are not answered.
\<close>

record admin_page =
  currentTab :: admin_tab
  demo_tab :: bool
  content :: string
  demo_content :: string
  scenario_options :: string
  terminating :: "string list"
  modal :: bool
  share_visible :: bool
  share_text :: string
  create_visible :: bool
  create_disabled :: bool
  generatedURL :: string
  clipboard :: "string option"
  requests :: "admin_request list"
  open_requests :: "admin_request list"

definition fetches :: "admin_request \<Rightarrow> admin_page \<Rightarrow> admin_page" where
  "fetches q p = p\<lparr>requests := requests p @ [q], open_requests := open_requests p @ [q]\<rparr>"

definition loading_text :: string where
  "loading_text = ''Loading'' @ bytes [0xE2, 0x80, 0xA6]"

text \<open>The page as it is served, with \<^verbatim>\<open>init\<close> run up to its first \<^verbatim>\<open>await\<close>.\<close>

definition open_admin :: admin_page where
  "open_admin =
     \<lparr>currentTab = Tab_sessions, demo_tab = False, content = loading_text, demo_content = loading_text,
      scenario_options = [], terminating = [], modal = False, share_visible = False, share_text = [],
      create_visible = True, create_disabled = False, generatedURL = [], clipboard = None,
      requests = [Get_config], open_requests = [Get_config]\<rparr>"

definition switchTab_admin :: "admin_tab \<Rightarrow> admin_page \<Rightarrow> admin_page" where
  "switchTab_admin t p =
     (let q = p\<lparr>currentTab := t\<rparr> in if t = Tab_demo then fetches Get_tokens q else q)"

definition openModal :: "admin_page \<Rightarrow> admin_page" where
  "openModal p = p\<lparr>share_visible := False, create_visible := True, modal := True\<rparr>"

definition closeModal :: "admin_page \<Rightarrow> admin_page" where
  "closeModal p =
     (let q = p\<lparr>modal := False, generatedURL := []\<rparr>
      in if currentTab p = Tab_demo then fetches Get_tokens q else q)"

definition terminate :: "string \<Rightarrow> bool \<Rightarrow> admin_page \<Rightarrow> admin_page" where
  "terminate i confirmed p =
     (if \<not> confirmed then p else fetches (Delete_session i) (p\<lparr>terminating := terminating p @ [i]\<rparr>))"

definition createLink :: "string \<Rightarrow> int \<Rightarrow> admin_page \<Rightarrow> admin_page" where
  "createLink sid hours p = fetches (Post_token sid hours) (p\<lparr>create_disabled := True\<rparr>)"

text \<open>The answers, and the functions after their \<^verbatim>\<open>await\<close>.\<close>

datatype admin_answer =
    Ans_config bool | Ans_sessions reply | Ans_scenarios "summary list option"
  | Ans_tokens "token_view list option" | Ans_done | Ans_created "string option"

definition init_config :: "bool \<Rightarrow> admin_page \<Rightarrow> admin_page" where
  "init_config is_ae p = fetches Get_scenarios (fetches Get_sessions (if is_ae then p\<lparr>demo_tab := True\<rparr> else p))"

definition sessions_answered :: "int \<Rightarrow> reply \<Rightarrow> admin_page \<Rightarrow> admin_page" where
  "sessions_answered now rep p =
     (case rep of
        Status st \<Rightarrow>
          (if st = 403 then p\<lparr>content := ''<div class=\"denied\">Access denied '' @ dash @ '' not an admin account.</div>'', terminating := []\<rparr>
           else p\<lparr>content := ''<div class=\"empty\">No active sessions.</div>'', terminating := []\<rparr>)
      | Sessions_reply ss \<Rightarrow>
          (if ss = [] then p\<lparr>content := ''<div class=\"empty\">No active sessions.</div>'', terminating := []\<rparr>
           else p\<lparr>content := sessions_table now ss, terminating := []\<rparr>)
      | _ \<Rightarrow> p)"

definition tokens_answered :: "(int \<Rightarrow> string) \<Rightarrow> int \<Rightarrow> token_view list option \<Rightarrow> admin_page \<Rightarrow> admin_page" where
  "tokens_answered fmt now ts p =
     (case ts of
        None \<Rightarrow> p\<lparr>demo_content := ''<div class=\"empty\">No demo links yet.</div>''\<rparr>
      | Some [] \<Rightarrow>
          p\<lparr>demo_content := ''<div class=\"empty\">No demo links yet. Click \"Generate Link\" to create one.</div>''\<rparr>
      | Some vs \<Rightarrow> p\<lparr>demo_content := tokens_table fmt now vs\<rparr>)"

definition link_created :: "string option \<Rightarrow> admin_page \<Rightarrow> admin_page" where
  "link_created url p =
     (case url of
        None \<Rightarrow> p\<lparr>create_disabled := False\<rparr>
      | Some u \<Rightarrow> p\<lparr>generatedURL := u, share_text := u, share_visible := True, create_visible := False,
                     create_disabled := False\<rparr>)"

definition admin_answered ::
  "(int \<Rightarrow> string) \<Rightarrow> int \<Rightarrow> admin_request \<Rightarrow> admin_answer \<Rightarrow> admin_page \<Rightarrow> admin_page" where
  "admin_answered fmt now q ans p =
     (case (q, ans) of
        (Get_config, Ans_config b) \<Rightarrow> init_config b p
      | (Get_sessions, Ans_sessions rep) \<Rightarrow> sessions_answered now rep p
      | (Get_scenarios, Ans_scenarios (Some ss)) \<Rightarrow> p\<lparr>scenario_options := concat (map option_html ss)\<rparr>
      | (Get_tokens, Ans_tokens ts) \<Rightarrow> tokens_answered fmt now ts p
      | (Delete_session _, Ans_done) \<Rightarrow> fetches Get_sessions p
      | (Post_token _ _, Ans_created u) \<Rightarrow> link_created u p
      | _ \<Rightarrow> p)"

datatype admin_event =
    Tab_clicked admin_tab | Interval | Terminate_clicked string bool | Modal_opened | Modal_closed
  | Create_clicked string int | Copy_url | Copy_link string | Admin_answered int nat admin_answer

fun admin_step :: "(int \<Rightarrow> string) \<Rightarrow> admin_page \<Rightarrow> admin_event \<Rightarrow> admin_page" where
  "admin_step fmt p (Tab_clicked t) = (if t = Tab_sessions \<or> demo_tab p then switchTab_admin t p else p)"
| "admin_step fmt p Interval = (if currentTab p = Tab_sessions then fetches Get_sessions p else p)"
| "admin_step fmt p (Terminate_clicked i c) = (if i \<in> set (terminating p) then p else terminate i c p)"
| "admin_step fmt p Modal_opened = (if currentTab p = Tab_demo then openModal p else p)"
| "admin_step fmt p Modal_closed = (if modal p then closeModal p else p)"
| "admin_step fmt p (Create_clicked sid h) =
     (if modal p \<and> create_visible p \<and> \<not> create_disabled p then createLink sid h p else p)"
| "admin_step fmt p Copy_url =
     (if modal p \<and> share_visible p then p\<lparr>clipboard := Some (generatedURL p)\<rparr> else p)"
| "admin_step fmt p (Copy_link u) = p\<lparr>clipboard := Some u\<rparr>"
| "admin_step fmt p (Admin_answered now w ans) =
     (if w < length (open_requests p)
      then admin_answered fmt now (open_requests p ! w) ans (p\<lparr>open_requests := remove_at w (open_requests p)\<rparr>) else p)"

section \<open>What the administrator sees\<close>

definition head_tags :: "string list" where
  "head_tags =
     [''table'', ''thead'', ''tr'', ''th'', ''/th'', ''th'', ''/th'', ''th'', ''/th'', ''th'', ''/th'', ''th'', ''/th'', ''th'', ''/th'',
     ''/tr'', ''/thead'', ''tbody'']"

lemma tags_sessions_table:
  assumes "\<And>s. s \<in> set ss \<Longrightarrow> CHR 0x22 \<notin> set (s_id s)"
  shows "tags (sessions_table now ss) =
    head_tags @ concat (map (row_tags now) ss) @ [''/tbody'', ''/table'']"
proof -
  have rows: "html_run Data (concat (map (session_row now) ss)) = (Data, concat (map (row_tags now) ss))"
    by (rule html_run_concat) (use html_run_row assms in blast)
  then show ?thesis
    unfolding tags_def sessions_table_def html_run_append row_pieces rows prod.case by (simp add: head_tags_def)
qed

text \<open>
  C10: No one who has a session can put markup into the administrator's page: the tags of the
  table are those of its frame and of one row for each session, which depend on the id, the
  status and the time left alone; whatever a visitor gave for an email, the browser finds
  the same tags and shows the email as it was given.
\<close>

theorem admin_cells_are_text:
  assumes "adminListSessions k = (Sessions_reply ss, call, k')" and "ss \<noteq> []"
    and "\<And>l. l \<in> set (crs k) \<Longrightarrow> CHR 0x22 \<notin> set (sessionID (ls_spec l))"
  shows "tags (content (sessions_answered now (Sessions_reply ss) p)) =
      head_tags @ concat (map (row_tags now) ss) @ [''/tbody'', ''/table''] \<and>
    tags (sessions_table now (map (s_userEmail_update f) ss)) = tags (content (sessions_answered now (Sessions_reply ss) p)) \<and>
    map (\<lambda>s. shown_as (esc (s_userEmail s))) ss = map s_userEmail ss"
proof -
  have ids: "CHR 0x22 \<notin> set (s_id s)" if "s \<in> set ss" for s
  proof -
    have "ss = map lsToSession (crs k)"
      using assms(1,2) by (auto simp: adminListSessions_def All_sessions_def cr_list_def api_call_def
          split: prod.splits sum.splits if_splits list.splits)
    then show ?thesis
      using that assms(3) by (auto simp: lsToSession_def)
  qed
  have rows: "row_tags now \<circ> s_userEmail_update f = row_tags now"
    by (rule ext) (simp add: row_tags_def)
  have "tags (sessions_table now (map (s_userEmail_update f) ss)) = head_tags @ concat (map (row_tags now) ss) @ [''/tbody'', ''/table'']"
    by (subst tags_sessions_table) (use ids in \<open>auto simp: rows\<close>)
  then show ?thesis
    using assms(2) ids by (simp add: sessions_answered_def shown_as_esc tags_sessions_table)
qed

theorem admin_cells_are_text_witness:
  "\<exists>l1. tags (content (sessions_answered 0 (Sessions_reply [lsToSession l1]) open_admin)) =
      head_tags @ row_tags 0 (lsToSession l1) @ [''/tbody'', ''/table''] \<and>
     s_userEmail (lsToSession l1) = ''<img src=x onerror=go()>@x.io''"
proof -
  let ?l = "ready_session\<lparr>ls_spec := (ls_spec ready_session)\<lparr>userEmail := ''<img src=x onerror=go()>@x.io''\<rparr>\<rparr>"
  let ?k = "\<lparr>crs = [?l], faults = []\<rparr>"
  have "adminListSessions ?k = (Sessions_reply [lsToSession ?l], None, ?k)"
    by (simp add: adminListSessions_def All_sessions_def cr_list_def api_call_def)
  moreover have "CHR 0x22 \<notin> set (sessionID (ls_spec l))" if "l \<in> set (crs ?k)" for l
    using that by (simp add: ready_session_def new_session_def)
  ultimately have "tags (content (sessions_answered 0 (Sessions_reply [lsToSession ?l]) open_admin)) =
      head_tags @ concat (map (row_tags 0) [lsToSession ?l]) @ [''/tbody'', ''/table'']"
    using admin_cells_are_text [of ?k "[lsToSession ?l]" None ?k 0 open_admin] by blast
  then show ?thesis
    by (intro exI [of _ ?l]) (simp add: lsToSession_def)
qed

section \<open>What the page does of itself\<close>

definition deletes :: "admin_page \<Rightarrow> string set" where
  "deletes p = {i. Delete_session i \<in> set (requests p)}"

lemmas admin_handlers =
  switchTab_admin_def openModal_def closeModal_def terminate_def createLink_def fetches_def
  init_config_def sessions_answered_def tokens_answered_def link_created_def admin_answered_def

lemma deletes_answered: "deletes (admin_answered fmt now q ans p) = deletes p"
  by (auto simp: deletes_def admin_handlers Let_def
      split: admin_request.split admin_answer.split option.split list.split reply.split)

lemma deletes_step:
  "deletes (admin_step fmt p e) \<subseteq> deletes p \<union> {i. e = Terminate_clicked i True}"
proof (cases e)
  case (Admin_answered now w ans)
  then show ?thesis
    using deletes_answered [of fmt now "open_requests p ! w" ans "p\<lparr>open_requests := remove_at w (open_requests p)\<rparr>"]
    by (simp add: deletes_def)
qed (auto simp: deletes_def admin_handlers Let_def)

lemma deletes_run: "deletes (foldl (admin_step fmt) open_admin es) \<subseteq> {i. Terminate_clicked i True \<in> set es}"
proof (induction es rule: rev_induct)
  case Nil
  then show ?case
    by (simp add: deletes_def open_admin_def)
next
  case (snoc e es)
  then show ?case
    using deletes_step [of fmt "foldl (admin_step fmt) open_admin es" e] by auto
qed

text \<open>The link in the dialog is the one its button copies; a closed dialog copies none.\<close>

definition dialog_ok :: "admin_page \<Rightarrow> bool" where
  "dialog_ok p \<longleftrightarrow> (modal p \<and> share_visible p \<longrightarrow> generatedURL p = share_text p)"

lemma dialog_answered: "dialog_ok p \<Longrightarrow> dialog_ok (admin_answered fmt now q ans p)"
  by (auto simp: dialog_ok_def admin_handlers Let_def
      split: admin_request.split admin_answer.split option.split list.split reply.split)

lemma dialog_step: "dialog_ok p \<Longrightarrow> dialog_ok (admin_step fmt p e)"
proof (cases e)
  case (Admin_answered now w ans)
  assume "dialog_ok p"
  then have "dialog_ok (p\<lparr>open_requests := remove_at w (open_requests p)\<rparr>)"
    by (simp add: dialog_ok_def)
  then show ?thesis
    using \<open>dialog_ok p\<close> Admin_answered dialog_answered by simp
qed (auto simp: dialog_ok_def admin_handlers Let_def)

interpretation admin_dialog: guarded_machine "admin_step fmt" "\<lambda>_ _. True" dialog_ok for fmt
  by unfold_locales (rule dialog_step)

text \<open>
  In every run of the administration page, with answers in any order, it deletes only
  sessions whose termination the administrator asked for and confirmed, and the button of the
  dialog copies the link that is shown there.
\<close>

theorem admin_acts_as_asked:
  "let p = foldl (admin_step fmt) open_admin es
   in deletes p \<subseteq> {i. Terminate_clicked i True \<in> set es} \<and>
      clipboard (admin_step fmt p Copy_url) = (if modal p \<and> share_visible p then Some (share_text p) else clipboard p)"
proof -
  have "dialog_ok (foldl (admin_step fmt) open_admin es)"
    by (rule admin_dialog.run_inv) (simp_all add: dialog_ok_def open_admin_def)
  then show ?thesis
    using deletes_run [of fmt es] by (auto simp: dialog_ok_def Let_def)
qed

text \<open>
  An answer to a list that was asked for before the termination is not told from one asked for
  after it: a slow answer puts the ended session back on the screen, its button enabled.
\<close>

theorem slow_list_shows_old_state:
  "content (foldl (admin_step fmt) (p\<lparr>open_requests := [Get_sessions, Get_sessions]\<rparr>)
     [Admin_answered now 1 (Ans_sessions (Sessions_reply [])), Admin_answered now 0 (Ans_sessions (Sessions_reply [x]))]) =
   sessions_table now [x]"
  by (simp add: admin_answered_def sessions_answered_def remove_at_def)

end
