(* ===== verification/Csm_Page.thy ===== *)
theory Csm_Page
  imports Csm Admin_Page
begin

text \<open>
  The customer dashboard, the script of \<^verbatim>\<open>web/static/csm.html\<close>, over the rows that \<^verbatim>\<open>adminCSM\<close> sends.
  Spans of time are milliseconds; the server's times and durations are seconds, a duration of zero is
  left out of its JSON (\<^verbatim>\<open>omitempty\<close>). \<open>fmt\<close> is how the browser writes a date.
\<close>

section \<open>Times\<close>

definition hour :: int where "hour = 3600000"

definition fmtH :: "int \<Rightarrow> string" where
  "fmtH h =
     (if h < hour then int_str (round_div h 60000) @ ''m''
      else if h < 24 * hour then int_str (round_div h hour) @ ''h''
      else (let d = h div (24 * hour); r = round_div (h mod (24 * hour)) hour
            in if r > 0 then int_str d @ ''d '' @ int_str r @ ''h'' else int_str d @ ''d''))"

text \<open>\<^verbatim>\<open>fmtH(undefined)\<close>: no comparison holds, and the days are not a number.\<close>

definition fmtH_opt :: "int option \<Rightarrow> string" where
  "fmtH_opt h = (case h of None \<Rightarrow> ''NaNd'' | Some x \<Rightarrow> fmtH x)"

definition hoursSince :: "int \<Rightarrow> int \<Rightarrow> int" where
  "hoursSince now t = now - 1000 * t"

definition fmtAgo :: "int \<Rightarrow> int \<Rightarrow> string" where
  "fmtAgo now t =
     (let h = hoursSince now t
      in if h < hour then ''just now''
         else if h < 24 * hour then int_str (round_div h hour) @ ''h ago''
         else (let d = h div (24 * hour) in if d = 1 then ''yesterday'' else int_str d @ ''d ago''))"

section \<open>Customers\<close>

text \<open>A step as the page knows them; the server sends no failed ones.\<close>

datatype csm_step =
    S_passed (completedAt: int) (duration: "int option")
  | S_failed (failedAt: int) (reason: string)
  | S_active (startedAt: int)
  | S_pending

definition sent_step :: "step_view \<Rightarrow> csm_step" where
  "sent_step v =
     (case v of
        Passed t d \<Rightarrow> S_passed t (if d = 0 then None else Some (1000 * d))
      | Active t \<Rightarrow> S_active t
      | Pending \<Rightarrow> S_pending)"

record customer =
  cu_name :: string
  cu_scenario :: string
  cu_cse :: string
  cu_count :: nat
  cu_users :: "csm_user list"
  cu_steps :: "csm_step list"

definition customer_of :: "csm_row \<Rightarrow> customer" where
  "customer_of r =
     \<lparr>cu_name = row_name r, cu_scenario = row_scenario r, cu_cse = row_cse r,
      cu_count = (if row_count r = 0 then 1 else row_count r), cu_users = row_users r,
      cu_steps = map sent_step (row_steps r)\<rparr>"

datatype standing = Graduated | Failed_at nat int | Stuck_at nat int | Active_at nat int | Not_started

text \<open>\<^verbatim>\<open>findIndex\<close>.\<close>

fun find_index :: "('a \<Rightarrow> bool) \<Rightarrow> 'a list \<Rightarrow> nat option" where
  "find_index P [] = None"
| "find_index P (x # xs) = (if P x then Some 0 else map_option Suc (find_index P xs))"

definition is_passed :: "csm_step \<Rightarrow> bool" where "is_passed s = (case s of S_passed _ _ \<Rightarrow> True | _ \<Rightarrow> False)"
definition is_failed :: "csm_step \<Rightarrow> bool" where "is_failed s = (case s of S_failed _ _ \<Rightarrow> True | _ \<Rightarrow> False)"
definition is_started :: "csm_step \<Rightarrow> bool" where "is_started s = (case s of S_active _ \<Rightarrow> True | _ \<Rightarrow> False)"

text \<open>The type of \<^verbatim>\<open>summary(c)\<close>, with the step and the span its label names.\<close>

definition progress :: "int \<Rightarrow> customer \<Rightarrow> standing" where
  "progress now c =
     (if list_all is_passed (cu_steps c) then Graduated
      else case find_index is_failed (cu_steps c) of
             Some fi \<Rightarrow> Failed_at fi (hoursSince now (failedAt (cu_steps c ! fi)))
           | None \<Rightarrow>
               (case find_index is_started (cu_steps c) of
                  Some ai \<Rightarrow>
                    (let h = hoursSince now (startedAt (cu_steps c ! ai))
                     in if h > 48 * hour then Stuck_at ai h else Active_at ai h)
                | None \<Rightarrow> Not_started))"

definition middot :: string where "middot = '' '' @ bytes [0xC2, 0xB7] @ '' ''"

definition label_of :: "standing \<Rightarrow> string" where
  "label_of p =
     (case p of
        Graduated \<Rightarrow> ''Graduated''
      | Failed_at i h \<Rightarrow> ''Failed on step '' @ nat_str (i + 1) @ middot @ fmtH h
      | Stuck_at i h \<Rightarrow> ''Stuck on step '' @ nat_str (i + 1) @ middot @ fmtH h
      | Active_at i h \<Rightarrow> ''Step '' @ nat_str (i + 1) @ middot @ fmtH h
      | Not_started \<Rightarrow> ''Not started'')"

definition badge_of :: "standing \<Rightarrow> string" where
  "badge_of p =
     (case p of Graduated \<Rightarrow> ''badge-graduated'' | Failed_at _ _ \<Rightarrow> ''badge-failed''
      | Stuck_at _ _ \<Rightarrow> ''badge-stuck'' | _ \<Rightarrow> ''badge-active'')"

definition rowClass :: "standing \<Rightarrow> string" where
  "rowClass p =
     (case p of Graduated \<Rightarrow> ''row-success'' | Failed_at _ _ \<Rightarrow> ''row-danger''
      | Stuck_at _ _ \<Rightarrow> ''row-warn'' | _ \<Rightarrow> [])"

definition step_time :: "csm_step \<Rightarrow> int option" where
  "step_time s =
     (case s of S_passed t _ \<Rightarrow> Some t | S_failed t _ \<Rightarrow> Some t | S_active t \<Rightarrow> Some t | S_pending \<Rightarrow> None)"

definition lastActive :: "customer \<Rightarrow> int option" where
  "lastActive c =
     (case List.map_filter step_time (cu_steps c) of
        [] \<Rightarrow> None
      | t # ts \<Rightarrow> Some (foldl (\<lambda>a b. if a > b then a else b) t ts))"

section \<open>The cards\<close>

fun count_progress :: "standing list \<Rightarrow> nat \<times> nat \<times> nat \<times> nat \<Rightarrow> nat \<times> nat \<times> nat \<times> nat" where
  "count_progress [] acc = acc"
| "count_progress (p # ps) (g, a, s, f) =
     count_progress ps
       (case p of Graduated \<Rightarrow> (g + 1, a, s, f) | Failed_at _ _ \<Rightarrow> (g, a, s, f + 1)
        | Stuck_at _ _ \<Rightarrow> (g, a, s + 1, f) | _ \<Rightarrow> (g, a + 1, s, f))"

text \<open>\<^verbatim>\<open>buildSummary\<close>: value, caption and class of each card.\<close>

definition buildSummary :: "int \<Rightarrow> customer list \<Rightarrow> (nat \<times> string \<times> string) list" where
  "buildSummary now cs =
     (case count_progress (map (progress now) cs) (0, 0, 0, 0) of
        (g, a, s, f) \<Rightarrow>
          [(length cs, ''Customers'', []), (g, ''Graduated'', if g > 0 then ''card-success'' else []),
           (a, ''In Progress'', []), (s, ''Stuck (>48h)'', if s > 0 then ''card-warn'' else []),
           (f, ''Failed'', if f > 0 then ''card-danger'' else [])])"

section \<open>The table\<close>

definition stepCellHTML :: "int \<Rightarrow> csm_step \<Rightarrow> string" where
  "stepCellHTML now s =
     (case s of
        S_passed _ d \<Rightarrow>
          ''<td class=\"step-cell cell-passed\" title=\"Completed in '' @ fmtH_opt d @
          ''\"><div class=\"cell-inner\"><span class=\"cell-icon\">&#x2713;</span><span class=\"cell-dur\">'' @
          fmtH_opt d @ ''</span></div></td>''
      | S_failed t r \<Rightarrow>
          ''<td class=\"step-cell cell-failed\" title=\"'' @ r @
          ''\"><div class=\"cell-inner\"><span class=\"cell-icon\">&#x2717;</span><span class=\"cell-dur\">'' @
          fmtH (hoursSince now t) @ ''</span></div></td>''
      | S_active t \<Rightarrow>
          ''<td class=\"step-cell '' @ (if hoursSince now t > 48 * hour then ''cell-active cell-stuck'' else ''cell-active'') @
          ''\" title=\"'' @ fmtH (hoursSince now t) @ '' on this step\"><div class=\"cell-inner\"><span class=\"cell-dur\">'' @
          fmtH (hoursSince now t) @ ''</span></div></td>''
      | S_pending \<Rightarrow>
          ''<td class=\"step-cell cell-pending\"><div class=\"cell-inner\"><span class=\"cell-icon\">&ndash;</span></div></td>'')"

text \<open>The first cell puts in what the server sent as it is.\<close>

definition name_cell :: "customer \<Rightarrow> string" where
  "name_cell c =
     ''<td><div class=\"customer-name\">'' @ cu_name c @
     (if cu_count c > 1
      then '' <span style=\"font-size:11px;color:var(--text-muted);font-weight:400;\">'' @ nat_str (cu_count c) @ '' users</span>''
      else []) @
     ''</div><div class=\"customer-scenario\">'' @ cu_scenario c @ ''</div></td>''"

definition row_html :: "int \<Rightarrow> customer \<Rightarrow> string" where
  "row_html now c =
     name_cell c @ ''<td style=\"font-size:12px;white-space:nowrap\">'' @ cu_cse c @ ''</td>'' @
     concat (map (stepCellHTML now) (cu_steps c)) @
     ''<td><span class=\"status-badge '' @ badge_of (progress now c) @ ''\">'' @ label_of (progress now c) @
     ''</span></td><td class=\"time-muted\">'' @
     (case lastActive c of None \<Rightarrow> ''&mdash;'' | Some t \<Rightarrow> fmtAgo now t) @ ''</td>''"

definition header_html :: "string list \<Rightarrow> string" where
  "header_html names =
     ''<th style=\"text-align:left\">Customer</th><th style=\"text-align:left\">CSE</th>'' @
     concat (map (\<lambda>i. ''<th title=\"'' @ names ! i @ ''\">Step '' @ nat_str (i + 1) @ ''</th>'') [0..<length names]) @
     ''<th style=\"text-align:left\">Status</th><th style=\"text-align:left\">Last Active</th>''"

section \<open>The panel of one customer\<close>

definition detail_of :: "(int \<Rightarrow> string) \<Rightarrow> int \<Rightarrow> csm_step \<Rightarrow> string" where
  "detail_of fmt now s =
     (case s of
        S_passed t d \<Rightarrow> ''Completed in '' @ fmtH_opt d @ '' &mdash; '' @ fmt (1000 * t)
      | S_failed t _ \<Rightarrow> ''Failed '' @ fmtAgo now t
      | S_active t \<Rightarrow> ''In progress &middot; '' @ fmtH (hoursSince now t) @ '' &middot; started '' @ fmt (1000 * t)
      | S_pending \<Rightarrow> ''Not reached'')"

text \<open>A line of the panel: the number of the step, the name it is given, and the detail.\<close>

record drill_line =
  dl_number :: nat
  dl_name :: "string option"
  dl_detail :: string
  dl_error :: string

definition drill_line_of :: "(int \<Rightarrow> string) \<Rightarrow> int \<Rightarrow> string list \<Rightarrow> nat \<times> csm_step \<Rightarrow> drill_line" where
  "drill_line_of fmt now names x =
     (case x of (i, s) \<Rightarrow>
        \<lparr>dl_number = i + 1, dl_name = (if i < length names then Some (names ! i) else None),
         dl_detail = detail_of fmt now s, dl_error = (case s of S_failed _ r \<Rightarrow> r | _ \<Rightarrow> [])\<rparr>)"

definition user_line :: "csm_user \<Rightarrow> string" where
  "user_line u =
     ''<div style=\"display:flex;align-items:center;gap:8px;font-size:12px;\"><span style=\"color:'' @
     (if u_active u then ''var(--success)'' else ''var(--text-muted)'') @
     '';font-size:8px;\">&#x25CF;</span><span style=\"flex:1;font-family:var(--mono)\">'' @ u_email u @
     ''</span><span style=\"color:var(--text-muted)\">'' @ nat_str (u_completed u) @ '' step'' @
     (if u_completed u \<noteq> 1 then ''s'' else []) @ ''</span></div>''"

record drill_panel =
  dp_title :: string
  dp_subtitle :: string
  dp_cse :: string
  dp_status :: "string \<times> string"
  dp_users :: "string list"
  dp_lines :: "drill_line list"

definition panel_of :: "(int \<Rightarrow> string) \<Rightarrow> int \<Rightarrow> string list \<Rightarrow> customer \<Rightarrow> drill_panel" where
  "panel_of fmt now names c =
     \<lparr>dp_title = cu_name c, dp_subtitle = cu_scenario c, dp_cse = cu_cse c,
      dp_status = (badge_of (progress now c), label_of (progress now c)),
      dp_users = (if length (cu_users c) > 1 then map user_line (cu_users c) else []),
      dp_lines = map (drill_line_of fmt now names) (zip [0..<length (cu_steps c)] (cu_steps c))\<rparr>"

section \<open>The page\<close>

record csm_page =
  customers :: "customer list"
  step_names :: "string list"
  header :: "string option"
  cards :: "(nat \<times> string \<times> string) list"
  rows :: "(string \<times> string) list"
  selectedRow :: "nat option"
  panel_open :: bool
  panel :: "drill_panel option"
  error_banner :: bool

definition open_csm :: csm_page where
  "open_csm =
     \<lparr>customers = [], step_names = [], header = None, cards = [], rows = [], selectedRow = None,
      panel_open = False, panel = None, error_banner = False\<rparr>"

definition build :: "int \<Rightarrow> csm_page \<Rightarrow> csm_page" where
  "build now p =
     p\<lparr>cards := buildSummary now (customers p),
       rows := map (\<lambda>c. (rowClass (progress now c), row_html now c)) (customers p)\<rparr>"

text \<open>
  \<^verbatim>\<open>init\<close> after its \<^verbatim>\<open>await\<close>; \<open>None\<close> for an answer that is not ok. The names of the steps, an array
  and so true even when it is empty, are those of the first row.
\<close>

definition csm_answered :: "int \<Rightarrow> csm_row list option \<Rightarrow> csm_page \<Rightarrow> csm_page" where
  "csm_answered now rs p =
     build now
       (case rs of
          None \<Rightarrow> p\<lparr>error_banner := True\<rparr>
        | Some [] \<Rightarrow> p\<lparr>customers := [], error_banner := True\<rparr>
        | Some (r # rs') \<Rightarrow>
            p\<lparr>customers := map customer_of (r # rs'), step_names := row_titles r,
              header := Some (header_html (row_titles r))\<rparr>)"

definition closeDrill :: "csm_page \<Rightarrow> csm_page" where
  "closeDrill p = p\<lparr>selectedRow := None, panel_open := False\<rparr>"

definition openDrill :: "(int \<Rightarrow> string) \<Rightarrow> int \<Rightarrow> nat \<Rightarrow> csm_page \<Rightarrow> csm_page" where
  "openDrill fmt now i p =
     (if selectedRow p = Some i then closeDrill p
      else p\<lparr>selectedRow := Some i, panel := Some (panel_of fmt now (step_names p) (customers p ! i)), panel_open := True\<rparr>)"

datatype csm_event = Csm_answered int "csm_row list option" | Row_clicked int nat | Drill_closed

fun csm_step_page :: "(int \<Rightarrow> string) \<Rightarrow> csm_page \<Rightarrow> csm_event \<Rightarrow> csm_page" where
  "csm_step_page fmt p (Csm_answered now rs) = csm_answered now rs p"
| "csm_step_page fmt p (Row_clicked now i) = (if i < length (rows p) then openDrill fmt now i p else p)"
| "csm_step_page fmt p Drill_closed = (if panel_open p then closeDrill p else p)"

section \<open>What the dashboard says of a customer\<close>

lemma find_index_Some:
  "i < length xs \<Longrightarrow> P (xs ! i) \<Longrightarrow> (\<And>j. j < i \<Longrightarrow> \<not> P (xs ! j)) \<Longrightarrow> find_index P xs = Some i"
proof (induction xs arbitrary: i)
  case (Cons x xs)
  show ?case
  proof (cases i)
    case 0
    then show ?thesis
      using Cons.prems by simp
  next
    case (Suc k)
    have "\<not> P x" "find_index P xs = Some k"
      using Cons.prems(1,2) Cons.prems(3) [of 0] Cons.prems(3) [of "Suc _"] Suc by (auto intro!: Cons.IH)
    then show ?thesis
      by (simp add: Suc)
  qed
qed simp

lemma find_index_None: "(\<And>x. x \<in> set xs \<Longrightarrow> \<not> P x) \<Longrightarrow> find_index P xs = None"
  by (induction xs) auto

lemma sent_kinds:
  "is_passed (sent_step (step_view_of b i)) = (i < length (s_completedSteps b))"
  "\<not> is_failed (sent_step (step_view_of b i))"
  "is_started (sent_step (step_view_of b i)) = (i = length (s_completedSteps b) \<and> is_active b)"
  by (auto simp: sent_step_def step_view_of_def Let_def is_passed_def is_failed_def is_started_def)

text \<open>The time the step a session is at was begun.\<close>

definition begun :: "session \<Rightarrow> int" where
  "begun b = (if s_completedSteps b = [] then s_createdAt b else snd (last (s_completedSteps b)))"

lemma started_begun:
  "is_active b \<Longrightarrow> startedAt (sent_step (step_view_of b (length (s_completedSteps b)))) = begun b"
  by (auto simp: sent_step_def step_view_of_def Let_def begun_def last_conv_nth)

lemma progress_of_steps:
  assumes "cu_steps c = map (\<lambda>i. sent_step (step_view_of b i)) [0..<n]"
  shows "progress now c =
    (let m = length (s_completedSteps b); h = hoursSince now (begun b)
     in if n \<le> m then Graduated
        else if is_active b then (if h > 48 * hour then Stuck_at m h else Active_at m h)
        else Not_started)"
proof -
  let ?m = "length (s_completedSteps b)"
  have passed: "list_all is_passed (cu_steps c) \<longleftrightarrow> n \<le> ?m"
    by (auto simp: assms list_all_iff sent_kinds)
  have failed: "find_index is_failed (cu_steps c) = None"
    by (rule find_index_None) (auto simp: assms sent_kinds)
  have active: "find_index is_started (cu_steps c) = (if is_active b then Some ?m else None)" if "\<not> n \<le> ?m"
    using that by (auto simp: assms sent_kinds intro!: find_index_Some find_index_None)
  show ?thesis
    using passed failed active started_begun [of b] by (auto simp: progress_def Let_def assms)
qed



section \<open>Cards\<close>

lemma count_progress_sum:
  "count_progress ps (g, a, s, f) = (g', a', s', f') \<Longrightarrow> g' + a' + s' + f' = g + a + s + f + length ps"
  by (induction ps arbitrary: g a s f) (auto split: standing.splits)

text \<open>The cards add up: every customer is counted in exactly one of them.\<close>

theorem cards_add_up:
  "fst (hd (buildSummary now cs)) = length cs \<and>
   sum_list (map fst (tl (buildSummary now cs))) = length cs"
  using count_progress_sum [of "map (progress now) cs" 0 0 0 0]
  by (auto simp: buildSummary_def add.assoc split: prod.split)

section \<open>Markup in names\<close>

lemma name_pieces:
  "html_run Data ''<td><div class=\"customer-name\">'' = (Data, [''td'', ''div class=\"customer-name\"''])"
  "html_run Data '' <span style=\"font-size:11px;color:var(--text-muted);font-weight:400;\">'' =
     (Data, [''span style=\"font-size:11px;color:var(--text-muted);font-weight:400;\"''])"
  "html_run Data '' users</span>'' = (Data, [''/span''])"
  "html_run Data ''</div><div class=\"customer-scenario\">'' = (Data, [''/div'', ''div class=\"customer-scenario\"''])"
  "html_run Data ''</div></td>'' = (Data, [''/div'', ''/td''])"
  by code_simp+

text \<open>
  Unlike the administration page the dashboard puts names in unescaped: every tag in the
  name of a customer, which is the domain of a user's email unless the customer file gives
  one, is a tag of the page.
\<close>

theorem names_are_markup:
  assumes "html_run Data (cu_name c) = (Data, ts)" and "cu_count c = 1"
  shows "tags (name_cell c) =
    [''td'', ''div class=\"customer-name\"''] @ ts @ [''/div'', ''div class=\"customer-scenario\"''] @
    snd (html_run Data (cu_scenario c @ ''</div></td>''))"
  using assms
  by (simp only: tags_def name_cell_def html_run_append name_pieces prod.case less_irrefl if_False append_Nil html_run.simps(1))
    (simp split: prod.split)

definition odd_session :: session where
  "odd_session = (csm_session ''i1'' [] Status_ready)\<lparr>s_userEmail := ''ann@<img src=x onerror=go()>''\<rparr>"

theorem email_becomes_markup:
  "\<exists>r. csm_rows three_steps (\<lambda>_. None) 200 (\<lambda>ks. ks) [odd_session] = [r] \<and>
     ''img src=x onerror=go()'' \<in> set (tags (name_cell (customer_of r)))"
proof -
  have "map (\<lambda>r. list_ex (\<lambda>t. t = ''img src=x onerror=go()'') (tags (name_cell (customer_of r))))
      (csm_rows three_steps (\<lambda>_. None) 200 (\<lambda>ks. ks) [odd_session]) = [True]"
    by code_simp
  then show ?thesis
    by (auto simp: list_ex_iff)
qed

section \<open>The panel\<close>

text \<open>
  The names of the steps are those of the first row: in the panel of a customer with another
  scenario each step has the name of the first row's step with its number, or none.
\<close>

theorem panel_names_of_first_row:
  assumes "rs = r0 # rs'" and "p = csm_answered now (Some rs) open_csm" and "i < length rs"
  shows "map dl_name (dp_lines (the (panel (openDrill fmt now' i p)))) =
    map (\<lambda>k. if k < length (row_titles r0) then Some (row_titles r0 ! k) else None) [0..<length (row_steps (rs ! i))]"
  using assms
  by (auto simp: csm_answered_def build_def open_csm_def openDrill_def panel_of_def drill_line_of_def customer_of_def
      intro!: nth_equalityI simp del: list.map nth_Cons_Suc)

text \<open>What is open is the panel of the row that is marked.\<close>

definition drill_ok :: "csm_page \<Rightarrow> bool" where
  "drill_ok p \<longleftrightarrow>
     panel_open p = (selectedRow p \<noteq> None) \<and>
     (case selectedRow p of None \<Rightarrow> True
      | Some i \<Rightarrow> i < length (customers p) \<and> map_option dp_title (panel p) = Some (cu_name (customers p ! i))) \<and>
     length (rows p) = length (customers p)"

fun once_loaded :: "csm_page \<Rightarrow> csm_event \<Rightarrow> bool" where
  "once_loaded p (Csm_answered _ _) = (selectedRow p = None)"
| "once_loaded p _ = True"

lemma drill_answered: "drill_ok p \<Longrightarrow> selectedRow p = None \<Longrightarrow> drill_ok (csm_answered now rs p)"
  by (auto simp: drill_ok_def csm_answered_def build_def split: option.split list.split)

lemma drill_step: "drill_ok p \<Longrightarrow> once_loaded p e \<Longrightarrow> drill_ok (csm_step_page fmt p e)"
proof (cases e)
  case (Csm_answered now rs)
  assume "drill_ok p" "once_loaded p e"
  then show ?thesis
    using Csm_answered drill_answered by simp
qed (auto simp: drill_ok_def openDrill_def closeDrill_def panel_of_def split: option.splits)

interpretation csm_drill: guarded_machine "csm_step_page fmt" once_loaded drill_ok for fmt
  by unfold_locales (rule drill_step)

lemma panel_shows_marked_row:
  "admitted (csm_step_page fmt) once_loaded open_csm es \<Longrightarrow> drill_ok (foldl (csm_step_page fmt) open_csm es)"
  by (rule csm_drill.run_inv) (simp_all add: drill_ok_def open_csm_def)

section \<open>Where the labels mislead\<close>

text \<open>
  A customer whose session is over is called "Not started" with every step but the last
  completed; one of a scenario without steps is graduated at once; and a step completed in the second in which it
  was begun took "NaNd".
\<close>

theorem labels_mislead:
  "label_of (progress now (customer_of (the (csm_row_of three_steps (\<lambda>_. None)
      [csm_session ''i1'' [(''1'', 150), (''2'', 160)] Status_expired] (''x.io'', ''intro''))))) = ''Not started'' \<and>
   (cu_steps c = [] \<longrightarrow> progress now c = Graduated) \<and>
   fmtH_opt (duration (sent_step (step_view_of (csm_session ''i1'' [(''1'', 100)] Status_ready) 0))) = ''NaNd''"
proof (intro conjI impI)
  let ?b = "csm_session ''i1'' [(''1'', 150), (''2'', 160)] Status_expired" and ?key = "(''x.io'', ''intro'')"
  obtain sc where sc: "three_steps ''intro'' = Inr sc" "length (sc_steps sc) = 3"
    by (simp add: three_steps_def Let_def)
  have "csm_key ?b = ?key"
    by code_simp
  then have "row_steps (the (csm_row_of three_steps (\<lambda>_. None) [?b] ?key)) = map (step_view_of ?b) [0..<3]"
    using sc by (simp add: csm_row_of_def Let_def best_def pick_def)
  then have "progress now (customer_of (the (csm_row_of three_steps (\<lambda>_. None) [?b] ?key))) = Not_started"
    by (subst progress_of_steps [of _ ?b 3]) (simp_all add: customer_of_def csm_session_def is_active_def Let_def comp_def)
  then show "label_of (progress now (customer_of (the (csm_row_of three_steps (\<lambda>_. None) [?b] ?key)))) = ''Not started''"
    by (simp add: label_of_def)
qed (simp_all add: progress_def fmtH_opt_def sent_step_def step_view_of_def csm_session_def)

end
