(* ===== verification/Js_Regex.thy ===== *)
theory Js_Regex
  imports Lab_Prelude
begin

text \<open>
  Regular expressions of JavaScript, as far as the editor bundle and the scenario editor use
  them: classes of characters, greedy and lazy repetition of a class, alternatives tried from
  left to right, groups, and the two anchors. The engine backtracks, so a pattern has a list of
  possible ends, in the order in which they are tried; \<^verbatim>\<open>match\<close> and \<^verbatim>\<open>replace\<close> take the first.
\<close>

section \<open>Patterns\<close>

datatype rx =
    Nothing
  | Class "char \<Rightarrow> bool"
  | Star "char \<Rightarrow> bool"
  | Lazy "char \<Rightarrow> bool"
  | Then rx rx
  | Or rx rx
  | Group nat rx
  | Line_start
  | Line_end

definition this_char :: "char \<Rightarrow> rx" where
  "this_char c = Class (\<lambda>x. x = c)"

fun text_rx :: "string \<Rightarrow> rx" where
  "text_rx [] = Nothing"
| "text_rx (c # cs) = Then (this_char c) (text_rx cs)"

definition plus_rx :: "(char \<Rightarrow> bool) \<Rightarrow> rx" where
  "plus_rx p = Then (Class p) (Star p)"

definition lazy_plus :: "(char \<Rightarrow> bool) \<Rightarrow> rx" where
  "lazy_plus p = Then (Class p) (Lazy p)"

definition opt :: "rx \<Rightarrow> rx" where
  "opt r = Or r Nothing"

fun seq_rx :: "rx list \<Rightarrow> rx" where
  "seq_rx [] = Nothing"
| "seq_rx [r] = r"
| "seq_rx (r # q # rs) = Then r (seq_rx (q # rs))"

fun alt_rx :: "rx list \<Rightarrow> rx" where
  "alt_rx [] = Class (\<lambda>c. False)"
| "alt_rx [r] = r"
| "alt_rx (r # q # rs) = Or r (alt_rx (q # rs))"

text \<open>The classes \<^verbatim>\<open>\d\<close>, \<^verbatim>\<open>\w\<close>, \<^verbatim>\<open>\s\<close>, \<^verbatim>\<open>.\<close> and sets of characters.\<close>

definition ascii_letter :: "char \<Rightarrow> bool" where
  "ascii_letter c \<longleftrightarrow> (let d = char_code (lower_char c) in 97 \<le> d \<and> d \<le> 122)"

definition dec_digit :: "char \<Rightarrow> bool" where
  "dec_digit c \<longleftrightarrow> 48 \<le> char_code c \<and> char_code c \<le> 57"

definition word_char :: "char \<Rightarrow> bool" where
  "word_char c \<longleftrightarrow> ascii_letter c \<or> dec_digit c \<or> c = CHR ''_''"

definition white :: "char \<Rightarrow> bool" where
  "white c \<longleftrightarrow> is_space c \<or> char_code c = 160"

definition line_break :: "char \<Rightarrow> bool" where
  "line_break c \<longleftrightarrow> char_code c = 10 \<or> char_code c = 13"

definition inline_char :: "char \<Rightarrow> bool" where
  "inline_char c \<longleftrightarrow> \<not> line_break c"

definition one_of :: "string \<Rightarrow> char \<Rightarrow> bool" where
  "one_of cs c \<longleftrightarrow> c \<in> set cs"

section \<open>Matching\<close>

text \<open>
  A place in the text: the character before it (\<open>None\<close> at the start), the text behind it, and
  the captures so far, the latest first.
\<close>

type_synonym place = "char option \<times> string \<times> (nat \<times> string) list"

fun run_ends :: "(char \<Rightarrow> bool) \<Rightarrow> char option \<Rightarrow> string \<Rightarrow> (char option \<times> string) list" where
  "run_ends p b [] = [(b, [])]"
| "run_ends p b (c # cs) = (if p c then run_ends p (Some c) cs @ [(b, c # cs)] else [(b, c # cs)])"

text \<open>With the flag \<^verbatim>\<open>m\<close> the anchors hold at line breaks too.\<close>

primrec ends :: "bool \<Rightarrow> rx \<Rightarrow> place \<Rightarrow> place list" where
  "ends m Nothing a = [a]"
| "ends m (Class p) a =
     (case a of (b, s, caps) \<Rightarrow>
        (case s of [] \<Rightarrow> [] | c # cs \<Rightarrow> if p c then [(Some c, cs, caps)] else []))"
| "ends m (Star p) a = (case a of (b, s, caps) \<Rightarrow> map (\<lambda>(b', s'). (b', s', caps)) (run_ends p b s))"
| "ends m (Lazy p) a = (case a of (b, s, caps) \<Rightarrow> map (\<lambda>(b', s'). (b', s', caps)) (rev (run_ends p b s)))"
| "ends m (Then q r) a = concat (map (ends m r) (ends m q a))"
| "ends m (Or q r) a = ends m q a @ ends m r a"
| "ends m (Group n q) a =
     (case a of (b, s, caps) \<Rightarrow>
        map (\<lambda>(b', s', caps'). (b', s', (n, take (length s - length s') s) # caps')) (ends m q a))"
| "ends m Line_start a =
     (case a of (b, s, caps) \<Rightarrow> (case b of None \<Rightarrow> [a] | Some c \<Rightarrow> if m \<and> line_break c then [a] else []))"
| "ends m Line_end a =
     (case a of (b, s, caps) \<Rightarrow> (case s of [] \<Rightarrow> [a] | c # cs \<Rightarrow> if m \<and> line_break c then [a] else []))"

definition first_end :: "bool \<Rightarrow> rx \<Rightarrow> char option \<Rightarrow> string \<Rightarrow> place option" where
  "first_end m r b s = (case ends m r (b, s, []) of [] \<Rightarrow> None | a # _ \<Rightarrow> Some a)"

text \<open>\<^verbatim>\<open>s.match(/^(?:r)/)\<close>: the matched text and the rest.\<close>

definition match_prefix :: "rx \<Rightarrow> string \<Rightarrow> (string \<times> string) option" where
  "match_prefix r s =
     (case first_end False r None s of
        None \<Rightarrow> None
      | Some (b, s', caps) \<Rightarrow> Some (take (length s - length s') s, s'))"

section \<open>Replacing\<close>

text \<open>A replacement is a text with references to captures.\<close>

datatype piece = Text string | Ref nat

primrec piece_text :: "(nat \<times> string) list \<Rightarrow> piece \<Rightarrow> string" where
  "piece_text caps (Text s) = s"
| "piece_text caps (Ref n) = (case map_of caps n of None \<Rightarrow> [] | Some s \<Rightarrow> s)"

definition fill :: "piece list \<Rightarrow> (nat \<times> string) list \<Rightarrow> string" where
  "fill ps caps = concat (map (piece_text caps) ps)"

text \<open>\<^verbatim>\<open>s.replace(/r/g, ps)\<close>, from a place inside the text. After an empty match the search moves on by one.\<close>

function replace_g :: "bool \<Rightarrow> rx \<Rightarrow> piece list \<Rightarrow> char option \<Rightarrow> string \<Rightarrow> string" where
  "replace_g m r ps b s =
     (case first_end m r b s of
        Some (b', s', caps) \<Rightarrow>
          (if length s' < length s then fill ps caps @ replace_g m r ps b' s'
           else fill ps caps @ (case s of [] \<Rightarrow> [] | c # cs \<Rightarrow> c # replace_g m r ps (Some c) cs))
      | None \<Rightarrow> (case s of [] \<Rightarrow> [] | c # cs \<Rightarrow> c # replace_g m r ps (Some c) cs))"
  by pat_completeness auto
termination
  by (relation "measure (\<lambda>(m, r, ps, b, s). length s)") auto

declare replace_g.simps [simp del]

section \<open>What is matched is a prefix\<close>

lemma run_ends_prefix:
  "(b', s') \<in> set (run_ends p b s) \<Longrightarrow> \<exists>u. s = u @ s' \<and> list_all p u \<and> b' = (if u = [] then b else Some (last u))"
proof (induction p b s rule: run_ends.induct)
  case (2 p b c cs)
  show ?case
  proof (cases "p c \<and> (b', s') \<in> set (run_ends p (Some c) cs)")
    case True
    then obtain u where "cs = u @ s'" "list_all p u" "b' = (if u = [] then Some c else Some (last u))"
      using 2 by auto
    then show ?thesis
      using True by (intro exI [of _ "c # u"]) auto
  next
    case False
    then show ?thesis
      using 2 by (intro exI [of _ "[]"]) (auto split: if_splits)
  qed
qed auto

lemma ends_prefix: "(b', s', caps') \<in> set (ends m r (b, s, caps)) \<Longrightarrow> \<exists>u. s = u @ s'"
proof (induction r arbitrary: b s caps b' s' caps')
  case (Then q r)
  then obtain b1 s1 c1 where "(b1, s1, c1) \<in> set (ends m q (b, s, caps))"
    "(b', s', caps') \<in> set (ends m r (b1, s1, c1))"
    by auto
  then show ?case
    using Then.IH by (metis append.assoc)
next
  case (Group n q)
  then show ?case
    by fastforce
qed (auto dest: run_ends_prefix split: list.splits option.splits if_splits)

lemma ends_length: "(b', s', caps') \<in> set (ends m r (b, s, caps)) \<Longrightarrow> length s' \<le> length s"
  by (drule ends_prefix) auto

lemma first_end_mem: "first_end m r b s = Some a \<Longrightarrow> a \<in> set (ends m r (b, s, []))"
  by (auto simp: first_end_def split: list.splits)

lemma match_prefix_append: "match_prefix r s = Some (u, s') \<Longrightarrow> s = u @ s'"
  by (auto simp: match_prefix_def split: option.splits dest!: first_end_mem ends_prefix)

text \<open>A pattern that cannot match the empty text.\<close>

primrec proper :: "rx \<Rightarrow> bool" where
  "proper Nothing = False"
| "proper (Class p) = True"
| "proper (Star p) = False"
| "proper (Lazy p) = False"
| "proper (Then q r) = (proper q \<or> proper r)"
| "proper (Or q r) = (proper q \<and> proper r)"
| "proper (Group n q) = proper q"
| "proper Line_start = False"
| "proper Line_end = False"

lemma proper_ends: "proper r \<Longrightarrow> (b', s', caps') \<in> set (ends m r (b, s, caps)) \<Longrightarrow> length s' < length s"
proof (induction r arbitrary: b s caps b' s' caps')
  case (Then q r)
  then obtain b1 s1 c1 where *: "(b1, s1, c1) \<in> set (ends m q (b, s, caps))"
    "(b', s', caps') \<in> set (ends m r (b1, s1, c1))"
    by auto
  show ?case
    using Then.prems(1) Then.IH(1) [OF _ *(1)] Then.IH(2) [OF _ *(2)] ends_length [OF *(1)] ends_length [OF *(2)]
    by auto
next
  case (Group n q)
  then show ?case
    by fastforce
qed (auto split: list.splits if_splits)

lemma match_prefix_proper: "proper r \<Longrightarrow> match_prefix r s = Some (u, s') \<Longrightarrow> u \<noteq> [] \<and> length s' < length s"
  by (auto simp: match_prefix_def split: option.splits dest!: first_end_mem proper_ends)

text \<open>A greedy run takes all it can.\<close>

lemma run_ends_hd: "\<exists>b'. hd (run_ends p b s) = (b', dropWhile p s)" "run_ends p b s \<noteq> []"
proof (induction p b s rule: run_ends.induct)
  case (2 p b c cs)
  {
    case 1
    then show ?case
      using 2 by (cases "run_ends p (Some c) cs") auto
  next
    case 2
    then show ?case
      by simp
  }
qed auto

lemma match_plus:
  "match_prefix (plus_rx p) s =
     (case s of [] \<Rightarrow> None | c # cs \<Rightarrow> if p c then Some (takeWhile p s, dropWhile p s) else None)"
proof (cases s)
  case (Cons c cs)
  obtain b where "hd (run_ends p (Some c) cs) = (b, dropWhile p cs)"
    using run_ends_hd(1) by blast
  then obtain zs where "run_ends p (Some c) cs = (b, dropWhile p cs) # zs"
    using run_ends_hd(2) [of p "Some c" cs] by (metis list.collapse)
  moreover have "take (length cs - length (dropWhile p cs)) cs = takeWhile p cs"
    by (metis add_diff_cancel_right' append_eq_conv_conj length_append takeWhile_dropWhile_id)
  ultimately show ?thesis
    using Cons length_dropWhile_le [of p cs]
    by (simp add: match_prefix_def first_end_def plus_rx_def Suc_diff_le)
qed (simp add: match_prefix_def first_end_def plus_rx_def)

section \<open>The ends of the patterns in use\<close>

lemma ends_text: "(b', s', caps') \<in> set (ends m (text_rx t) (b, s, caps)) \<Longrightarrow> s = t @ s' \<and> caps' = caps"
  by (induction t arbitrary: b s) (auto simp: this_char_def split: list.splits if_splits)

lemma ends_star: "(b', s', caps') \<in> set (ends m (Star p) (b, s, caps)) \<Longrightarrow> \<exists>u. s = u @ s' \<and> list_all p u \<and> caps' = caps"
  by (auto dest: run_ends_prefix)

lemma ends_lazy: "(b', s', caps') \<in> set (ends m (Lazy p) (b, s, caps)) \<Longrightarrow> \<exists>u. s = u @ s' \<and> list_all p u \<and> caps' = caps"
  by (auto dest: run_ends_prefix)

lemma ends_plus:
  "(b', s', caps') \<in> set (ends m (plus_rx p) (b, s, caps)) \<Longrightarrow>
   \<exists>u. s = u @ s' \<and> u \<noteq> [] \<and> list_all p u \<and> caps' = caps"
  by (auto simp: plus_rx_def split: list.splits if_splits dest!: run_ends_prefix intro: exI [of _ "_ # _"])

lemma ends_lazy_plus:
  "(b', s', caps') \<in> set (ends m (lazy_plus p) (b, s, caps)) \<Longrightarrow>
   \<exists>u. s = u @ s' \<and> u \<noteq> [] \<and> list_all p u \<and> caps' = caps"
  by (auto simp: lazy_plus_def split: list.splits if_splits dest!: run_ends_prefix intro: exI [of _ "_ # _"])

text \<open>A group captures what its pattern consumed.\<close>

lemma ends_group:
  "(b', s', caps') \<in> set (ends m (Group n r) (b, s, caps)) \<Longrightarrow>
   \<exists>caps1. (b', s', caps1) \<in> set (ends m r (b, s, caps)) \<and> caps' = (n, take (length s - length s') s) # caps1"
  by auto

lemma ends_line_end:
  "(b', s', caps') \<in> set (ends m Line_end (b, s, caps)) \<Longrightarrow>
   s' = s \<and> caps' = caps \<and> (s = [] \<or> line_break (hd s))"
  by (auto split: list.splits if_splits)

lemma ends_line_start: "(b', s', caps') \<in> set (ends m Line_start (b, s, caps)) \<Longrightarrow> s' = s \<and> caps' = caps"
  by (auto split: option.splits if_splits)

lemma ends_Then:
  "(b', s', caps') \<in> set (ends m (Then q r) (b, s, caps)) \<Longrightarrow>
   \<exists>b1 s1 c1. (b1, s1, c1) \<in> set (ends m q (b, s, caps)) \<and> (b', s', caps') \<in> set (ends m r (b1, s1, c1))"
  by auto

section \<open>Replacing nothing\<close>

lemma replace_nothing:
  "(\<And>u v c. s = u @ v \<Longrightarrow> first_end m r c v = None) \<Longrightarrow> replace_g m r ps b s = s"
proof (induction s arbitrary: b)
  case Nil
  then show ?case
    by (simp add: replace_g.simps)
next
  case (Cons x s)
  have "first_end m r c v = None" if "s = u @ v" for u v c
    using Cons.prems [of "x # u" v] that by simp
  then show ?case
    using Cons.IH Cons.prems [of "[]" "x # s"] by (simp add: replace_g.simps)
qed

end
