(* ===== verification/Wgsl_Lexer.thy ===== *)
theory Wgsl_Lexer
  imports Js_Regex Wgsl_Grammar
begin

text \<open>
  The shading language as the editor reads it: the loop of the tokenizer
  (\<^verbatim>\<open>_myTokenize\<close> of \<^verbatim>\<open>web/static/ide-assets/index-B0jeqYpn.js\<close>) with the rules of the language
  (\<^verbatim>\<open>web/static/ide-assets/wgsl-DYQqGqAW.js\<close>). A line is read from a stack of states, which
  passes from line to line. Of the loop the branches are modelled that a rule of this language
  can take: no embedded languages, no groups, no \<^verbatim>\<open>switchTo\<close>, \<^verbatim>\<open>goBack\<close> and \<^verbatim>\<open>@rematch\<close>, and no
  rule that is bound to the start of a line.
\<close>

section \<open>Rules\<close>

datatype lex_action = Token string | Cases "(string list \<times> string) list" "string option"

datatype lex_move = Stay | Push_again | Pop | Enter string

record lex_rule =
  pattern_of :: rx
  action_of :: lex_action
  move_of :: lex_move

datatype lex_item = Rule lex_rule | Include string

record language =
  lang_items :: "(string \<times> lex_item list) list"
  lang_start :: string
  lang_brackets :: "(char \<times> char \<times> string) list"
  default_token :: string
  token_postfix :: string
  max_stack :: nat

definition rule :: "rx \<Rightarrow> string \<Rightarrow> lex_item" where
  "rule r t = Rule \<lparr>pattern_of = r, action_of = Token t, move_of = Stay\<rparr>"

definition rule_then :: "rx \<Rightarrow> string \<Rightarrow> lex_move \<Rightarrow> lex_item" where
  "rule_then r t mv = Rule \<lparr>pattern_of = r, action_of = Token t, move_of = mv\<rparr>"

definition rule_cases :: "rx \<Rightarrow> (string list \<times> string) list \<Rightarrow> string \<Rightarrow> lex_item" where
  "rule_cases r cs d = Rule \<lparr>pattern_of = r, action_of = Cases cs (Some d), move_of = Stay\<rparr>"

text \<open>
  The rules of a state, includes taken in place; \<open>None\<close> when an include names no state or the
  includes do not end within \<open>n\<close> levels.
\<close>

fun expand_rules :: "nat \<Rightarrow> (string \<times> lex_item list) list \<Rightarrow> lex_item list \<Rightarrow> lex_rule list option" where
  "expand_rules n tbl [] = Some []"
| "expand_rules n tbl (Rule r # is) = map_option (\<lambda>rs. r # rs) (expand_rules n tbl is)"
| "expand_rules 0 tbl (Include s # is) = None"
| "expand_rules (Suc n) tbl (Include s # is) =
     (case map_of tbl s of
        None \<Rightarrow> None
      | Some js \<Rightarrow>
          (case (expand_rules n tbl js, expand_rules (Suc n) tbl is) of
             (Some rs, Some qs) \<Rightarrow> Some (rs @ qs)
           | _ \<Rightarrow> None))"

definition rules_of :: "language \<Rightarrow> string \<Rightarrow> lex_rule list option" where
  "rules_of lg st =
     (case map_of (lang_items lg) st of
        None \<Rightarrow> None
      | Some is \<Rightarrow> expand_rules (length (lang_items lg)) (lang_items lg) is)"

section \<open>The tokenizer\<close>

datatype lex_error =
    No_state string | Stack_full | Stack_empty | No_bracket string | No_progress | Out_of_fuel

text \<open>\<^verbatim>\<open>U8\<close>: what may not stand in a class name becomes a hyphen.\<close>

definition class_text :: "string \<Rightarrow> string" where
  "class_text s = map (\<lambda>c. if one_of (''&<>_'' @ [CHR 0x27, CHR 0x22]) c then CHR ''-'' else c) s"

text \<open>The first rule that matches here, with the matched text and the rest.\<close>

fun find_rule :: "lex_rule list \<Rightarrow> string \<Rightarrow> (lex_rule \<times> string \<times> string) option" where
  "find_rule [] s = None"
| "find_rule (r # rs) s =
     (case match_prefix (pattern_of r) s of None \<Rightarrow> find_rule rs s | Some (v, s') \<Rightarrow> Some (r, v, s'))"

definition chosen_token :: "language \<Rightarrow> lex_action \<Rightarrow> string \<Rightarrow> string" where
  "chosen_token lg act v =
     (case act of
        Token t \<Rightarrow> t
      | Cases cs d \<Rightarrow>
          (case find (\<lambda>(ws, t). v \<in> set ws) cs of
             Some (ws, t) \<Rightarrow> t
           | None \<Rightarrow> (case d of Some t \<Rightarrow> t | None \<Rightarrow> default_token lg)))"

definition bracket_token :: "language \<Rightarrow> string \<Rightarrow> string option" where
  "bracket_token lg v =
     map_option (\<lambda>(l, r, t). t @ token_postfix lg)
       (find (\<lambda>(l, r, t). v = [l] \<or> v = [r]) (lang_brackets lg))"

text \<open>The state stack, its top first. Only \<^verbatim>\<open>@push\<close> looks at the largest depth.\<close>

definition moved :: "language \<Rightarrow> lex_move \<Rightarrow> string list \<Rightarrow> lex_error + string list" where
  "moved lg mv st =
     (case mv of
        Stay \<Rightarrow> Inr st
      | Push_again \<Rightarrow> if max_stack lg \<le> length st then Inl Stack_full else Inr (hd st # st)
      | Pop \<Rightarrow> if length st \<le> 1 then Inl Stack_empty else Inr (tl st)
      | Enter x \<Rightarrow> (if map_of (lang_items lg) x = None then Inl (No_state x) else Inr (x # st)))"

definition emitted :: "language \<Rightarrow> string \<Rightarrow> string \<Rightarrow> lex_error + string" where
  "emitted lg k v =
     (if starts_with ''@brackets'' k
      then (case bracket_token lg v of
              None \<Rightarrow> Inl (No_bracket v)
            | Some t \<Rightarrow> Inr (class_text (t @ drop 9 k)))
      else Inr (class_text (if k = [] then k else k @ token_postfix lg)))"

text \<open>
  One turn of the loop with the text \<open>s\<close> left of a line of length \<open>l\<close>: the tokens of the turn,
  the stack and the rest. A turn without a rule takes one character as the default token.
\<close>

definition lex_turn ::
    "language \<Rightarrow> nat \<Rightarrow> string list \<Rightarrow> string \<Rightarrow> lex_error + (string \<times> string) list \<times> string list \<times> string" where
  "lex_turn lg l st s =
     (case rules_of lg (hd st) of
        None \<Rightarrow> Inl (No_state (hd st))
      | Some rs \<Rightarrow>
          (let (act, mv, v, s') =
             (case find_rule rs s of
                Some (r, v, s') \<Rightarrow> (action_of r, move_of r, v, s')
              | None \<Rightarrow> (Token (default_token lg), Stay, take 1 s, drop 1 s))
           in (case moved lg mv st of
                 Inl e \<Rightarrow> Inl e
               | Inr st' \<Rightarrow>
                   (if v = [] then
                      (if l = 0 \<or> length st \<noteq> length st' \<or> hd st \<noteq> hd st' then Inr ([], st', s')
                       else Inl No_progress)
                    else (case emitted lg (chosen_token lg act v) v of
                            Inl e \<Rightarrow> Inl e
                          | Inr t \<Rightarrow> Inr ([(v, t)], st', s'))))))"

text \<open>The first turn is taken on an empty line too.\<close>

fun lex_loop ::
    "nat \<Rightarrow> language \<Rightarrow> nat \<Rightarrow> bool \<Rightarrow> string list \<Rightarrow> string \<Rightarrow> lex_error + (string \<times> string) list \<times> string list" where
  "lex_loop 0 lg l first st s = Inl Out_of_fuel"
| "lex_loop (Suc n) lg l first st s =
     (if first \<or> s \<noteq> []
      then (case lex_turn lg l st s of
              Inl e \<Rightarrow> Inl e
            | Inr (ts, st', s') \<Rightarrow>
                (case lex_loop n lg l False st' s' of
                   Inl e \<Rightarrow> Inl e
                 | Inr (us, st'') \<Rightarrow> Inr (ts @ us, st'')))
      else Inr ([], st))"

definition lex_line :: "language \<Rightarrow> string list \<Rightarrow> string \<Rightarrow> lex_error + (string \<times> string) list \<times> string list" where
  "lex_line lg st s = lex_loop (Suc (Suc (length s))) lg (length s) True st s"

text \<open>\<^verbatim>\<open>emit\<close>: a token is an offset and a class; one of the same class as the last is left out.\<close>

fun emit_all :: "nat \<Rightarrow> string option \<Rightarrow> (string \<times> string) list \<Rightarrow> (nat \<times> string) list" where
  "emit_all h last_type [] = []"
| "emit_all h last_type ((v, t) # ts) =
     (if last_type = Some t then [] else [(h, t)]) @ emit_all (h + length v) (Some t) ts"

fun lex_text :: "language \<Rightarrow> string list \<Rightarrow> string list \<Rightarrow> lex_error + (string \<times> string) list list \<times> string list" where
  "lex_text lg st [] = Inr ([], st)"
| "lex_text lg st (l # ls) =
     (case lex_line lg st l of
        Inl e \<Rightarrow> Inl e
      | Inr (ts, st') \<Rightarrow>
          (case lex_text lg st' ls of Inl e \<Rightarrow> Inl e | Inr (tss, st'') \<Rightarrow> Inr (ts # tss, st'')))"

section \<open>The rules of the language\<close>

text \<open>\<^verbatim>\<open>XID_Start\<close> and \<^verbatim>\<open>XID_Continue\<close> below 256.\<close>

definition xid_start :: "char \<Rightarrow> bool" where
  "xid_start c \<longleftrightarrow>
     ascii_letter c \<or>
     (let d = char_code c in d = 170 \<or> d = 181 \<or> d = 186 \<or> 192 \<le> d \<and> d \<noteq> 215 \<and> d \<noteq> 247)"

definition xid_continue :: "char \<Rightarrow> bool" where
  "xid_continue c \<longleftrightarrow> xid_start c \<or> dec_digit c \<or> c = CHR ''_'' \<or> char_code c = 183"

definition ident_rx :: rx where
  "ident_rx = Then (Class (\<lambda>c. c = CHR ''_'' \<or> xid_start c)) (Star xid_continue)"

definition directive_rx :: rx where
  "directive_rx = alt_rx [text_rx ''enable'', text_rx ''requires'', text_rx ''diagnostic'']"

definition symbols_rx :: rx where
  "symbols_rx = plus_rx (one_of ''!%&*+-./:;<=>^|_~,'')"

definition hex_digit :: "char \<Rightarrow> bool" where
  "hex_digit c \<longleftrightarrow> dec_digit c \<or> (let d = char_code (lower_char c) in 97 \<le> d \<and> d \<le> 102)"

definition nonzero :: "char \<Rightarrow> bool" where
  "nonzero c \<longleftrightarrow> dec_digit c \<and> c \<noteq> CHR ''0''"

text \<open>\<^verbatim>\<open>[eE][+-]?[0-9]+\<close>, with the letters of the exponent given, and the suffix \<^verbatim>\<open>[fh]?\<close>.\<close>

definition exponent :: "string \<Rightarrow> rx" where
  "exponent es = seq_rx [Class (one_of es), opt (Class (one_of ''+-'')), plus_rx dec_digit]"

definition float_suffix :: rx where
  "float_suffix = opt (Class (one_of ''fh''))"

definition hex_exponent :: rx where
  "hex_exponent = Then (exponent ''pP'') float_suffix"

definition hex_head :: rx where
  "hex_head = Then (this_char CHR ''0'') (Class (one_of ''xX''))"

definition number_items :: "lex_item list" where
  "number_items =
     [rule (Then (this_char CHR ''0'') (Class (one_of ''fh''))) ''number.float'',
      rule (seq_rx [Class nonzero, Star dec_digit, Class (one_of ''fh'')]) ''number.float'',
      rule (seq_rx [Star dec_digit, this_char CHR ''.'', plus_rx dec_digit, opt (Group 1 (exponent ''eE'')), float_suffix])
        ''number.float'',
      rule (seq_rx [plus_rx dec_digit, this_char CHR ''.'', Star dec_digit, opt (Group 1 (exponent ''eE'')), float_suffix])
        ''number.float'',
      rule (seq_rx [plus_rx dec_digit, exponent ''eE'', float_suffix]) ''number.float'',
      rule (seq_rx [hex_head, Star hex_digit, this_char CHR ''.'', plus_rx hex_digit, opt hex_exponent])
        ''number.hex'',
      rule (seq_rx [hex_head, plus_rx hex_digit, this_char CHR ''.'', Star hex_digit, opt hex_exponent])
        ''number.hex'',
      rule (seq_rx [hex_head, plus_rx hex_digit, hex_exponent]) ''number.hex'',
      rule (seq_rx [hex_head, plus_rx hex_digit, opt (Class (one_of ''iu''))]) ''number.hex'',
      rule (seq_rx [Class nonzero, Star dec_digit, opt (Class (one_of ''iu''))]) ''number'',
      rule (Then (this_char CHR ''0'') (opt (Class (one_of ''iu'')))) ''number'']"

definition comment_items :: "lex_item list" where
  "comment_items =
     [rule (plus_rx white) ''white'',
      rule_then (text_rx ''/*'') ''comment'' (Enter ''blockComment''),
      rule (Then (text_rx ''//'') (Then (Star inline_char) Line_end)) ''comment'']"

definition block_items :: "lex_item list" where
  "block_items =
     [rule (plus_rx (\<lambda>c. \<not> one_of ''/*'' c)) ''comment'',
      rule_then (text_rx ''/*'') ''comment'' Push_again,
      rule_then (text_rx ''*/'') ''comment'' Pop,
      rule (Class (one_of ''/*'')) ''comment'']"

definition attribute_items :: "lex_item list" where
  "attribute_items = [Include ''commentOrSpace'', rule_then (plus_rx word_char) ''annotation'' Pop]"

definition directive_items :: "lex_item list" where
  "directive_items =
     [Include ''commentOrSpace'',
      rule (Class (one_of ''()'')) ''@brackets'',
      rule (this_char CHR '','') ''delimiter'',
      rule ident_rx ''meta.content'',
      rule_then (this_char CHR '';'') ''delimiter'' Pop]"

definition predefined :: string where
  "predefined = ''variable.predefined''"

definition root_items :: "lex_item list" where
  "root_items =
     [rule_then directive_rx ''keyword'' (Enter ''directive''),
      rule_cases ident_rx
        [(wgsl_atoms, predefined), (wgsl_keywords, ''keyword''), (wgsl_reserved, ''invalid''),
         (wgsl_enums, predefined), (wgsl_types, predefined), (wgsl_generators, predefined),
         (wgsl_aliases, predefined), (wgsl_intrinsics, predefined)] ''identifier'',
      Include ''commentOrSpace'',
      Include ''numbers'',
      rule (Class (one_of ''{}()[]'')) ''@brackets'',
      rule_then (this_char CHR ''@'') ''annotation'' (Enter ''attribute''),
      rule_cases symbols_rx [(wgsl_operators, ''operator'')] ''delimiter'',
      rule (Class inline_char) ''invalid'']"

text \<open>The brackets are the default ones of the compiler of grammars; the language gives none.\<close>

definition default_brackets :: "(char \<times> char \<times> string) list" where
  "default_brackets =
     [(CHR ''{'', CHR ''}'', ''delimiter.curly''), (CHR ''['', CHR '']'', ''delimiter.square''),
      (CHR ''('', CHR '')'', ''delimiter.parenthesis''), (CHR ''<'', CHR ''>'', ''delimiter.angle'')]"

definition wgsl :: language where
  "wgsl =
     \<lparr>lang_items =
        [(''root'', root_items), (''commentOrSpace'', comment_items), (''blockComment'', block_items),
         (''attribute'', attribute_items), (''directive'', directive_items), (''numbers'', number_items)],
      lang_start = ''root'', lang_brackets = default_brackets, default_token = ''invalid'',
      token_postfix = ''.wgsl'', max_stack = 100\<rparr>"
section \<open>No line fails but for deep comments\<close>

text \<open>The root is at the bottom of the stack and nowhere else.\<close>

definition inner_states :: "string list" where
  "inner_states = [''directive'', ''attribute'', ''blockComment'']"

fun wgsl_stack :: "string list \<Rightarrow> bool" where
  "wgsl_stack [] = False"
| "wgsl_stack [x] = (x = ''root'')"
| "wgsl_stack (x # y # ys) = (x \<in> set inner_states \<and> wgsl_stack (y # ys))"

lemma wgsl_stack_Cons: "wgsl_stack (x # st) \<longleftrightarrow> (if st = [] then x = ''root'' else x \<in> set inner_states \<and> wgsl_stack st)"
  by (cases st) auto

text \<open>What makes a rule safe in its state.\<close>

definition rule_safe :: "string \<Rightarrow> lex_rule \<Rightarrow> bool" where
  "rule_safe x r \<longleftrightarrow>
     proper (pattern_of r) \<and>
     (case action_of r of
        Token t \<Rightarrow> starts_with ''@brackets'' t \<longrightarrow>
          (case pattern_of r of Class p \<Rightarrow> \<forall>c. p c \<longrightarrow> bracket_token wgsl [c] \<noteq> None | _ \<Rightarrow> False)
      | Cases cs d \<Rightarrow> d \<noteq> None \<and> list_all (\<lambda>(ws, t). \<not> starts_with ''@brackets'' t) cs \<and>
          \<not> starts_with ''@brackets'' (the d)) \<and>
     (case move_of r of
        Stay \<Rightarrow> True
      | Push_again \<Rightarrow> x = ''blockComment''
      | Pop \<Rightarrow> x \<noteq> ''root''
      | Enter y \<Rightarrow> y \<in> set inner_states)"

lemmas rule_simps =
  rule_def rule_then_def rule_cases_def rule_safe_def starts_with_def predefined_def

lemma comment_safe: "list_all (\<lambda>i. case i of Rule r \<Rightarrow> rule_safe x r | Include y \<Rightarrow> False) comment_items"
  by (simp add: comment_items_def rule_simps plus_rx_def this_char_def inner_states_def)

lemma numbers_safe: "list_all (\<lambda>i. case i of Rule r \<Rightarrow> rule_safe x r | Include y \<Rightarrow> False) number_items"
  by (simp add: number_items_def rule_simps plus_rx_def this_char_def hex_head_def exponent_def
      hex_exponent_def float_suffix_def opt_def)

lemma expand_safe:
  "list_all (\<lambda>i. case i of Rule r \<Rightarrow> P r | Include y \<Rightarrow> False) is \<Longrightarrow>
   \<exists>rs. expand_rules n tbl is = Some rs \<and> list_all P rs"
  by (induction n tbl "is" rule: expand_rules.induct) auto

text \<open>The rules of a state are safe when its own are and the included states are.\<close>

fun item_safe :: "string \<Rightarrow> lex_item \<Rightarrow> bool" where
  "item_safe x (Rule r) = rule_safe x r"
| "item_safe x (Include y) = (y = ''commentOrSpace'' \<or> y = ''numbers'')"

lemma wgsl_lookup:
  "map_of (lang_items wgsl) ''commentOrSpace'' = Some comment_items"
  "map_of (lang_items wgsl) ''numbers'' = Some number_items"
  "map_of (lang_items wgsl) ''root'' = Some root_items"
  "map_of (lang_items wgsl) ''blockComment'' = Some block_items"
  "map_of (lang_items wgsl) ''attribute'' = Some attribute_items"
  "map_of (lang_items wgsl) ''directive'' = Some directive_items"
  by (simp_all add: wgsl_def)

lemma expand_items:
  "list_all (item_safe x) is \<Longrightarrow>
   \<exists>rs. expand_rules (Suc n) (lang_items wgsl) is = Some rs \<and> list_all (rule_safe x) rs"
proof (induction "is")
  case (Cons i "is")
  then obtain qs where qs: "expand_rules (Suc n) (lang_items wgsl) is = Some qs" "list_all (rule_safe x) qs"
    by auto
  show ?case
  proof (cases i)
    case (Rule r)
    then show ?thesis
      using Cons.prems qs by simp
  next
    case (Include y)
    have "\<exists>js. map_of (lang_items wgsl) y = Some js \<and>
        list_all (\<lambda>i. case i of Rule r \<Rightarrow> rule_safe x r | Include y \<Rightarrow> False) js"
      using Cons.prems Include comment_safe numbers_safe by (auto simp: wgsl_lookup)
    then obtain js rs where "map_of (lang_items wgsl) y = Some js" "expand_rules n (lang_items wgsl) js = Some rs"
      "list_all (rule_safe x) rs"
      using expand_safe by blast
    then show ?thesis
      using qs Include by simp
  qed
qed simp

lemma brackets_known: "one_of ''{}()[]'' c \<Longrightarrow> bracket_token wgsl [c] \<noteq> None"
  by (auto simp: one_of_def bracket_token_def wgsl_def default_brackets_def)

lemma parens_known: "one_of ''()'' c \<Longrightarrow> bracket_token wgsl [c] \<noteq> None"
  by (rule brackets_known) (auto simp: one_of_def)

lemma states_safe:
  "list_all (item_safe ''root'') root_items"
  "list_all (item_safe ''blockComment'') block_items"
  "list_all (item_safe ''attribute'') attribute_items"
  "list_all (item_safe ''directive'') directive_items"
  using brackets_known parens_known
  by (simp_all add: root_items_def block_items_def attribute_items_def directive_items_def rule_simps
      plus_rx_def this_char_def inner_states_def directive_rx_def ident_rx_def symbols_rx_def)

lemma rules_of_safe:
  assumes "x = ''root'' \<or> x \<in> set inner_states"
  shows "\<exists>rs. rules_of wgsl x = Some rs \<and> list_all (rule_safe x) rs"
proof -
  have "\<exists>is. map_of (lang_items wgsl) x = Some is \<and> list_all (item_safe x) is"
    using assms states_safe by (auto simp: wgsl_lookup inner_states_def)
  moreover have "length (lang_items wgsl) = Suc 5"
    by (simp add: wgsl_def)
  ultimately show ?thesis
    using expand_items [of x _ 5] by (auto simp: rules_of_def)
qed

lemma find_rule_mem:
  "find_rule rs s = Some (r, v, s') \<Longrightarrow> r \<in> set rs \<and> match_prefix (pattern_of r) s = Some (v, s')"
  by (induction rs) (auto split: option.splits)

lemma find_mem: "find P xs = Some x \<Longrightarrow> x \<in> set xs"
  by (auto simp: find_Some_iff)

text \<open>A bracket rule consumes one character, a bracket of the table.\<close>

lemma safe_emits:
  assumes "rule_safe x r" "match_prefix (pattern_of r) s = Some (v, s')"
  shows "\<exists>t. emitted wgsl (chosen_token wgsl (action_of r) v) v = Inr t"
proof (cases "action_of r")
  case (Cases cs d)
  have "\<not> starts_with ''@brackets'' (chosen_token wgsl (action_of r) v)"
  proof (cases "find (\<lambda>(ws, t). v \<in> set ws) cs")
    case None
    then show ?thesis
      using assms(1) Cases by (auto simp: rule_safe_def chosen_token_def)
  next
    case (Some a)
    then show ?thesis
      using assms(1) Cases find_mem [OF Some] by (cases a) (auto simp: rule_safe_def chosen_token_def list_all_iff)
  qed
  then show ?thesis
    by (simp add: emitted_def)
next
  case (Token t)
  show ?thesis
  proof (cases "starts_with ''@brackets'' t")
    case True
    then obtain p where p: "pattern_of r = Class p" "\<And>c. p c \<Longrightarrow> bracket_token wgsl [c] \<noteq> None"
      using assms(1) Token by (auto simp: rule_safe_def split: rx.splits)
    then obtain c where "v = [c]" "p c"
      using assms(2) by (cases s) (auto simp: match_prefix_def first_end_def split: if_splits)
    then obtain b where "bracket_token wgsl v = Some b"
      using p(2) by blast
    then show ?thesis
      using True Token by (simp add: emitted_def chosen_token_def)
  next
    case False
    then show ?thesis
      using Token by (simp add: emitted_def chosen_token_def)
  qed
qed

lemma safe_moves:
  assumes "rule_safe (hd st) r" "wgsl_stack st"
  shows "case moved wgsl (move_of r) st of
           Inl e \<Rightarrow> e = Stack_full \<and> 100 \<le> length st
         | Inr st' \<Rightarrow> wgsl_stack st' \<and> length st' \<le> Suc (length st)"
proof -
  obtain x xs where st: "st = x # xs"
    using assms(2) by (cases st) auto
  have "Enter y = move_of r \<Longrightarrow> map_of (lang_items wgsl) y \<noteq> None" for y
    using assms(1) by (auto simp: rule_safe_def inner_states_def wgsl_lookup split: lex_move.splits)
  then show ?thesis
    using assms st
    by (auto simp: rule_safe_def moved_def wgsl_stack_Cons inner_states_def wgsl_def split: lex_move.splits if_splits)
qed

lemma turn_safe:
  assumes "wgsl_stack st" "s \<noteq> []"
  shows "case lex_turn wgsl l st s of
           Inl e \<Rightarrow> e = Stack_full \<and> 100 \<le> length st
         | Inr (ts, st', s') \<Rightarrow> \<exists>v t. ts = [(v, t)] \<and> v \<noteq> [] \<and> s = v @ s' \<and> wgsl_stack st' \<and>
             length st' \<le> Suc (length st)"
proof -
  have "hd st = ''root'' \<or> hd st \<in> set inner_states"
    using assms(1) by (cases st) (auto simp: wgsl_stack_Cons split: if_splits)
  then obtain rs where rs: "rules_of wgsl (hd st) = Some rs" "list_all (rule_safe (hd st)) rs"
    using rules_of_safe by blast
  show ?thesis
  proof (cases "find_rule rs s")
    case None
    have "emitted wgsl (default_token wgsl) v = Inr ''invalid.wgsl''" for v
      by (simp add: emitted_def wgsl_def starts_with_def class_text_def one_of_def)
    then show ?thesis
      using assms rs(1) None by (cases s) (simp_all add: lex_turn_def moved_def chosen_token_def)
  next
    case (Some a)
    then obtain r v s' where a: "find_rule rs s = Some (r, v, s')"
      by (cases a) auto
    then have r: "rule_safe (hd st) r" "match_prefix (pattern_of r) s = Some (v, s')"
      using rs(2) find_rule_mem by (auto simp: list_all_iff)
    have v: "v \<noteq> []" "s = v @ s'"
      using match_prefix_append [OF r(2)] match_prefix_proper [OF _ r(2)] r(1) by (auto simp: rule_safe_def)
    obtain t where "emitted wgsl (chosen_token wgsl (action_of r) v) v = Inr t"
      using safe_emits [OF r] by blast
    then show ?thesis
      using safe_moves [OF r(1) assms(1)] rs(1) a v by (simp add: lex_turn_def split: sum.splits)
  qed
qed

lemma loop_safe:
  assumes "wgsl_stack st" "length s < n" "\<not> first \<or> s \<noteq> []"
  shows "case lex_loop n wgsl l first st s of
           Inl e \<Rightarrow> e = Stack_full \<and> 100 \<le> length st + length s
         | Inr (ts, st') \<Rightarrow> concat (map fst ts) = s \<and> [] \<notin> fst ` set ts \<and> wgsl_stack st' \<and>
             length st' \<le> length st + length ts"
  using assms
proof (induction n arbitrary: first st s)
  case (Suc n)
  show ?case
  proof (cases "s = []")
    case True
    then show ?thesis
      using Suc.prems by simp
  next
    case False
    note turn = turn_safe [OF Suc.prems(1) False, of l]
    show ?thesis
    proof (cases "lex_turn wgsl l st s")
      case (Inl e)
      then show ?thesis
        using turn False by auto
    next
      case (Inr a)
      then obtain v t st' s' where a: "lex_turn wgsl l st s = Inr ([(v, t)], st', s')" "v \<noteq> []" "s = v @ s'"
        "wgsl_stack st'" "length st' \<le> Suc (length st)"
        using turn by (auto split: prod.splits)
      have "length s' < n"
        using Suc.prems(2) a(2,3) by (cases v) auto
      then show ?thesis
        using Suc.IH [of st' s' False] a False
        by (cases v) (auto split: sum.splits)
    qed
  qed
qed simp

text \<open>On an empty line the first turn leaves everything as it is.\<close>

lemma proper_no_empty: "list_all (\<lambda>r. proper (pattern_of r)) rs \<Longrightarrow> find_rule rs [] = None"
  by (induction rs) (auto split: option.splits dest: match_prefix_proper)

lemma empty_line: "wgsl_stack st \<Longrightarrow> lex_line wgsl st [] = Inr ([], st)"
proof -
  assume st: "wgsl_stack st"
  then have "hd st = ''root'' \<or> hd st \<in> set inner_states"
    by (cases st) (auto simp: wgsl_stack_Cons split: if_splits)
  then obtain rs where rs: "rules_of wgsl (hd st) = Some rs" "list_all (rule_safe (hd st)) rs"
    using rules_of_safe by blast
  then have "find_rule rs [] = None"
    by (intro proper_no_empty) (auto simp: list_all_iff rule_safe_def)
  then show "lex_line wgsl st [] = Inr ([], st)"
    using rs(1) by (simp add: lex_line_def lex_turn_def moved_def)
qed

lemma lex_line_safe:
  assumes "wgsl_stack st"
  shows "case lex_line wgsl st s of
           Inl e \<Rightarrow> e = Stack_full \<and> 100 \<le> length st + length s
         | Inr (ts, st') \<Rightarrow> concat (map fst ts) = s \<and> [] \<notin> fst ` set ts \<and> wgsl_stack st' \<and>
             length st' \<le> length st + length ts"
proof (cases "s = []")
  case True
  then show ?thesis
    using assms empty_line by simp
next
  case False
  then show ?thesis
    using assms loop_safe [of st s "Suc (Suc (length s))" True "length s"] by (simp add: lex_line_def)
qed

section \<open>Comments\<close>

text \<open>Turns one after the other, as far as they are followed.\<close>

inductive lex_reads ::
    "nat \<Rightarrow> string list \<Rightarrow> string \<Rightarrow> (string \<times> string) list \<Rightarrow> string list \<Rightarrow> string \<Rightarrow> bool" for l where
  reads_nothing: "lex_reads l st s [] st s"
| reads_turn: "s \<noteq> [] \<Longrightarrow> ts \<noteq> [] \<Longrightarrow> lex_turn wgsl l st s = Inr (ts, st1, s1) \<Longrightarrow> lex_reads l st1 s1 us st2 s2 \<Longrightarrow>
    lex_reads l st s (ts @ us) st2 s2"

definition plain_char :: "char \<Rightarrow> bool" where
  "plain_char c \<longleftrightarrow> \<not> one_of ''/*'' c"

lemma plain_char_eq: "(\<lambda>c. \<not> one_of ''/*'' c) = plain_char"
  by (simp add: plain_char_def fun_eq_iff)

definition block_rules :: "lex_rule list" where
  "block_rules = the (rules_of wgsl ''blockComment'')"

lemma rules_of_block: "rules_of wgsl ''blockComment'' = Some block_rules"
  using rules_of_safe [of "''blockComment''"] by (auto simp: block_rules_def inner_states_def)

lemma block_rules_list:
  "block_rules =
     [\<lparr>pattern_of = plus_rx plain_char, action_of = Token ''comment'', move_of = Stay\<rparr>,
      \<lparr>pattern_of = text_rx ''/*'', action_of = Token ''comment'', move_of = Push_again\<rparr>,
      \<lparr>pattern_of = text_rx ''*/'', action_of = Token ''comment'', move_of = Pop\<rparr>,
      \<lparr>pattern_of = Class (one_of ''/*''), action_of = Token ''comment'', move_of = Stay\<rparr>]"
  by (simp add: block_rules_def rules_of_def wgsl_lookup block_items_def rule_def rule_then_def plain_char_eq)

lemma match_text2:
  "match_prefix (text_rx [a, b]) s =
     (case s of x # y # r \<Rightarrow> if x = a \<and> y = b then Some ([a, b], r) else None | _ \<Rightarrow> None)"
  by (auto simp: match_prefix_def first_end_def this_char_def split: list.splits)

lemma comment_emitted: "emitted wgsl (chosen_token wgsl (Token ''comment'') v) v = Inr ''comment.wgsl''"
  by (simp add: emitted_def chosen_token_def wgsl_def starts_with_def class_text_def one_of_def)

lemmas turn_simps =
  lex_turn_def rules_of_block block_rules_list match_plus match_text2 comment_emitted moved_def

lemma turn_plain:
  "plain_char c \<Longrightarrow>
   lex_turn wgsl l (''blockComment'' # st) (c # s) =
     Inr ([(takeWhile plain_char (c # s), ''comment.wgsl'')], ''blockComment'' # st, dropWhile plain_char s)"
  by (simp add: turn_simps)

lemma marks_not_plain [simp]: "\<not> plain_char CHR ''/''" "\<not> plain_char CHR ''*''"
  by (simp_all add: plain_char_def one_of_def)

lemma turn_open:
  "length st < 99 \<Longrightarrow>
   lex_turn wgsl l (''blockComment'' # st) (''/*'' @ s) =
     Inr ([(''/*'', ''comment.wgsl'')], ''blockComment'' # ''blockComment'' # st, s)"
  by (simp add: turn_simps del: text_rx.simps) (simp add: wgsl_def)

lemma turn_close:
  "st \<noteq> [] \<Longrightarrow> lex_turn wgsl l (''blockComment'' # st) (''*/'' @ s) = Inr ([(''*/'', ''comment.wgsl'')], st, s)"
  by (cases st) (simp_all add: turn_simps del: text_rx.simps)

lemma lex_reads_text:
  "lex_reads l st s ts st2 s2 \<Longrightarrow> wgsl_stack st \<Longrightarrow> s = concat (map fst ts) @ s2 \<and> wgsl_stack st2"
proof (induction rule: lex_reads.induct)
  case (reads_turn s ts st st1 s1 us st2 s2)
  then show ?case
    using turn_safe [of st s l] by auto
qed simp

text \<open>From here the lexer comes to the place \<open>(st2, s2)\<close> with comment tokens only, at least one.\<close>

definition only_comments :: "(string \<times> string) list \<Rightarrow> bool" where
  "only_comments ts \<longleftrightarrow> list_all (\<lambda>t. snd t = ''comment.wgsl'') ts"

definition comment_to :: "nat \<Rightarrow> string list \<Rightarrow> string \<Rightarrow> string list \<Rightarrow> string \<Rightarrow> bool" where
  "comment_to l st2 s2 st s \<longleftrightarrow>
     (\<exists>ts. ts \<noteq> [] \<and> only_comments ts \<and> lex_reads l st s ts st2 s2)"

inductive_cases reads_cases: "lex_reads l st s ts st2 s2"

lemma reads_Nil: "lex_reads l st s [] st2 s2 \<Longrightarrow> st2 = st \<and> s2 = s"
  by (erule reads_cases) auto

lemma reads_Cons:
  "lex_reads l st s ts st2 s2 \<Longrightarrow> ts \<noteq> [] \<Longrightarrow> lex_turn wgsl l st s = Inr (vs, st1, s1) \<Longrightarrow>
   \<exists>us. ts = vs @ us \<and> lex_reads l st1 s1 us st2 s2"
  by (erule reads_cases) auto

lemma comment_to_turn:
  assumes "s \<noteq> []" "lex_turn wgsl l st s = Inr ([(v, ''comment.wgsl'')], st1, s1)"
    "comment_to l st2 s2 st1 s1 \<or> st1 = st2 \<and> s1 = s2"
  shows "comment_to l st2 s2 st s"
proof -
  have "only_comments []"
    by (simp add: only_comments_def)
  then obtain us where us: "only_comments us" "lex_reads l st1 s1 us st2 s2"
    using assms(3) unfolding comment_to_def by (metis reads_nothing)
  have "lex_reads l st s ([(v, ''comment.wgsl'')] @ us) st2 s2"
    by (rule reads_turn) (use assms us in simp_all)
  moreover have "only_comments ([(v, ''comment.wgsl'')] @ us)"
    using us(1) by (simp add: only_comments_def)
  ultimately show ?thesis
    unfolding comment_to_def by blast
qed

lemma comment_plain_char:
  assumes "plain_char c" "comment_to l st2 s2 (''blockComment'' # st) s"
  shows "comment_to l st2 s2 (''blockComment'' # st) (c # s)"
proof -
  obtain ts where ts: "ts \<noteq> []" "only_comments ts"
    "lex_reads l (''blockComment'' # st) s ts st2 s2"
    using assms(2) by (auto simp: comment_to_def)
  show ?thesis
  proof (cases "s = [] \<or> \<not> plain_char (hd s)")
    case True
    then have "dropWhile plain_char s = s"
      by (cases s) auto
    then show ?thesis
      using comment_to_turn [OF _ turn_plain [OF assms(1), of l st s]] assms(2) by simp
  next
    case False
    then obtain d r where s: "s = d # r" "plain_char d"
      by (cases s) auto
    have "\<exists>us. ts = [(takeWhile plain_char (d # r), ''comment.wgsl'')] @ us \<and>
        lex_reads l (''blockComment'' # st) (dropWhile plain_char r) us st2 s2"
      using reads_Cons [OF ts(3) ts(1)] turn_plain [OF s(2), of l st r] s(1) by simp
    then obtain us where us: "lex_reads l (''blockComment'' # st) (dropWhile plain_char r) us st2 s2"
      "only_comments us"
      using ts(2) by (auto simp: only_comments_def)
    then have "comment_to l st2 s2 (''blockComment'' # st) (dropWhile plain_char r) \<or>
        ''blockComment'' # st = st2 \<and> dropWhile plain_char r = s2"
      by (cases "us = []") (auto simp: comment_to_def dest: reads_Nil)
    then show ?thesis
      using comment_to_turn [OF _ turn_plain [OF assms(1), of l st s]] s by simp
  qed
qed

lemma comment_plain:
  "list_all plain_char p \<Longrightarrow> comment_to l st2 s2 (''blockComment'' # st) s \<Longrightarrow>
   comment_to l st2 s2 (''blockComment'' # st) (p @ s)"
  by (induction p) (simp_all add: comment_plain_char)

text \<open>How deep the comments inside a comment are.\<close>

fun parts_depth :: "part list \<Rightarrow> nat" and part_depth :: "part \<Rightarrow> nat" where
  "parts_depth [] = 0"
| "parts_depth (p # ps) = max (part_depth p) (parts_depth ps)"
| "part_depth (Plain s) = 0"
| "part_depth (Nested ps) = Suc (parts_depth ps)"

lemma comment_parts:
  "plain_parts ps \<Longrightarrow> length st + parts_depth ps \<le> 99 \<Longrightarrow>
   comment_to l st2 s2 (''blockComment'' # st) r \<Longrightarrow> comment_to l st2 s2 (''blockComment'' # st) (show_parts ps @ r)"
  "plain_part p \<Longrightarrow> length st + part_depth p \<le> 99 \<Longrightarrow>
   comment_to l st2 s2 (''blockComment'' # st) r \<Longrightarrow> comment_to l st2 s2 (''blockComment'' # st) (show_part p @ r)"
proof (induction ps and p arbitrary: st r and st r rule: show_parts_show_part.induct)
  case (3 s)
  then show ?case
    by (auto simp: list_all_iff plain_char_def one_of_def intro!: comment_plain)
next
  case (4 ps)
  have "comment_to l st2 s2 (''blockComment'' # ''blockComment'' # st) (''*/'' @ r)"
    by (rule comment_to_turn [OF _ turn_close]) (use 4 in simp_all)
  then have "comment_to l st2 s2 (''blockComment'' # ''blockComment'' # st) (show_parts ps @ ''*/'' @ r)"
    using 4 by simp
  then have "comment_to l st2 s2 (''blockComment'' # st) (''/*'' @ (show_parts ps @ ''*/'' @ r))"
    using 4 by (intro comment_to_turn [OF _ turn_open]) simp_all
  then show ?case
    by simp
qed auto

text \<open>Fuel and length of the line make no difference where every turn consumes.\<close>

lemma turn_any_length:
  assumes "wgsl_stack st" "s \<noteq> []"
  shows "lex_turn wgsl l st s = lex_turn wgsl k st s"
proof -
  have "hd st = ''root'' \<or> hd st \<in> set inner_states"
    using assms(1) by (cases st) (auto simp: wgsl_stack_Cons split: if_splits)
  then obtain rs where rs: "rules_of wgsl (hd st) = Some rs" "list_all (rule_safe (hd st)) rs"
    using rules_of_safe by blast
  show ?thesis
  proof (cases "find_rule rs s")
    case None
    then show ?thesis
      using assms rs(1) by (cases s) (simp_all add: lex_turn_def moved_def)
  next
    case (Some a)
    then obtain r v s' where a: "find_rule rs s = Some (r, v, s')"
      by (cases a) auto
    have "proper (pattern_of r)" "match_prefix (pattern_of r) s = Some (v, s')"
      using rs(2) find_rule_mem [OF a] by (auto simp: list_all_iff rule_safe_def)
    then have "v \<noteq> []"
      using match_prefix_proper by blast
    then show ?thesis
      using a rs(1) by (simp add: lex_turn_def split: sum.split)
  qed
qed

lemma loop_any_fuel:
  "wgsl_stack st \<Longrightarrow> length s < n \<Longrightarrow> length s < m \<Longrightarrow>
   lex_loop n wgsl l False st s = lex_loop m wgsl k False st s"
proof (induction n arbitrary: m st s)
  case (Suc n)
  obtain m' where m: "m = Suc m'"
    using Suc.prems(3) by (cases m) auto
  show ?case
  proof (cases "s = []")
    case False
    note turn = turn_safe [OF Suc.prems(1) False, of l] turn_any_length [OF Suc.prems(1) False, of l k]
    show ?thesis
    proof (cases "lex_turn wgsl l st s")
      case (Inr a)
      then obtain v t st' s' where a: "a = ([(v, t)], st', s')" "v \<noteq> []" "s = v @ s'" "wgsl_stack st'"
        using turn(1) by (auto split: prod.splits)
      then have "length s' < n" "length s' < m'"
        using Suc.prems m by (cases v; simp)+
      then have "lex_loop n wgsl l False st' s' = lex_loop m' wgsl k False st' s'"
        using Suc.IH a(4) by blast
      then show ?thesis
        using False Inr turn(2) a(1) m by simp
    next
      case (Inl e)
      then show ?thesis
        using False turn(2) m by simp
    qed
  qed (simp add: m)
qed simp

lemma lex_line_loop:
  assumes "wgsl_stack st"
  shows "lex_line wgsl st s = lex_loop (Suc (length s)) wgsl l False st s"
proof (cases "s = []")
  case True
  then show ?thesis
    using assms empty_line by simp
next
  case False
  then have "lex_line wgsl st s = lex_loop (Suc (Suc (length s))) wgsl (length s) False st s"
    by (simp add: lex_line_def)
  also have "\<dots> = lex_loop (Suc (length s)) wgsl l False st s"
    by (rule loop_any_fuel [OF assms]) simp_all
  finally show ?thesis .
qed

lemma loop_reads:
  "lex_reads l st s ts st1 s1 \<Longrightarrow> wgsl_stack st \<Longrightarrow>
   lex_line wgsl st s =
     (case lex_line wgsl st1 s1 of Inl e \<Rightarrow> Inl e | Inr (us, st2) \<Rightarrow> Inr (ts @ us, st2))"
proof (induction rule: lex_reads.induct)
  case (reads_nothing st s)
  then show ?case
    by (auto split: sum.split)
next
  case (reads_turn s ts st st1 s1 us st2 s2)
  then obtain v t where v: "ts = [(v, t)]" "v \<noteq> []" "s = v @ s1" "wgsl_stack st1"
    using turn_safe [of st s l] by auto
  have "lex_line wgsl st s = lex_loop (Suc (length s)) wgsl l False st s"
    using lex_line_loop reads_turn.prems by blast
  also have "\<dots> = (case lex_loop (length s) wgsl l False st1 s1 of Inl e \<Rightarrow> Inl e | Inr (us, st2) \<Rightarrow> Inr (ts @ us, st2))"
    using reads_turn.hyps by simp
  also have "lex_loop (length s) wgsl l False st1 s1 = lex_line wgsl st1 s1"
  proof -
    have "length s1 < length s"
      using v(2,3) by (cases v) auto
    then show ?thesis
      using lex_line_loop [OF v(4)] loop_any_fuel [OF v(4)] by (metis lessI)
  qed
  finally show ?case
    using reads_turn.IH v(4) by (simp split: sum.splits)
qed

lemma root_rules_start:
  "\<exists>rs. rules_of wgsl ''root'' = Some
     (\<lparr>pattern_of = directive_rx, action_of = Token ''keyword'', move_of = Enter ''directive''\<rparr> #
      \<lparr>pattern_of = ident_rx, action_of = Cases
         [(wgsl_atoms, predefined), (wgsl_keywords, ''keyword''), (wgsl_reserved, ''invalid''),
          (wgsl_enums, predefined), (wgsl_types, predefined), (wgsl_generators, predefined),
          (wgsl_aliases, predefined), (wgsl_intrinsics, predefined)] (Some ''identifier''), move_of = Stay\<rparr> #
      \<lparr>pattern_of = plus_rx white, action_of = Token ''white'', move_of = Stay\<rparr> #
      \<lparr>pattern_of = text_rx ''/*'', action_of = Token ''comment'', move_of = Enter ''blockComment''\<rparr> # rs)"
  by (simp add: rules_of_def wgsl_lookup root_items_def comment_items_def number_items_def rule_simps
      del: text_rx.simps expand_rules.simps) (simp add: wgsl_def number_items_def comment_items_def rule_simps del: text_rx.simps)

lemma comment_start:
  "lex_turn wgsl l [''root''] (''/*'' @ s) = Inr ([(''/*'', ''comment.wgsl'')], [''blockComment'', ''root''], s)"
proof -
  have "match_prefix directive_rx (''/*'' @ s) = None" "match_prefix ident_rx (''/*'' @ s) = None"
    by (simp_all add: match_prefix_def first_end_def directive_rx_def ident_rx_def this_char_def xid_start_def
        ascii_letter_def lower_char_def char_code_def)
  moreover have "match_prefix (plus_rx white) (''/*'' @ s) = None"
    by (simp add: match_plus white_def is_space_def char_code_def)
  moreover have "emitted wgsl (chosen_token wgsl (Token ''comment'') v) v = Inr ''comment.wgsl''" for v
    by (rule comment_emitted)
  ultimately show ?thesis
    using root_rules_start
    by (auto simp: lex_turn_def match_text2 moved_def wgsl_lookup simp del: text_rx.simps)
qed

lemma directive_start:
  "lex_turn wgsl l [''root''] (''enable'' @ s) = Inr ([(''enable'', ''keyword.wgsl'')], [''directive'', ''root''], s)"
proof -
  have "match_prefix directive_rx (''enable'' @ s) = Some (''enable'', s)"
    by (simp add: match_prefix_def first_end_def directive_rx_def this_char_def)
  moreover have "emitted wgsl (chosen_token wgsl (Token ''keyword'') v) v = Inr ''keyword.wgsl''" for v
    by (simp add: emitted_def chosen_token_def wgsl_def starts_with_def class_text_def one_of_def)
  ultimately show ?thesis
    using root_rules_start by (auto simp: lex_turn_def moved_def wgsl_lookup)
qed

section \<open>Whole texts\<close>

lemma few_tokens: "[] \<notin> fst ` set ts \<Longrightarrow> length ts \<le> length (concat (map fst ts))"
proof (induction ts)
  case (Cons t ts)
  then have "0 < length (fst t)" "length ts \<le> length (concat (map fst ts))"
    by auto
  then show ?case
    by (simp only: list.map concat.simps length_append length_Cons)
qed simp

lemma lex_text_safe:
  "wgsl_stack st \<Longrightarrow>
   (case lex_text wgsl st ls of
      Inl e \<Rightarrow> e = Stack_full \<and> 100 \<le> length st + sum_list (map length ls)
    | Inr (tss, st') \<Rightarrow> map (\<lambda>ts. concat (map fst ts)) tss = ls \<and> [] \<notin> fst ` set (concat tss) \<and>
        wgsl_stack st' \<and> length st' \<le> length st + sum_list (map length ls))"
proof (induction ls arbitrary: st)
  case (Cons l ls)
  note line = lex_line_safe [OF Cons.prems, of l]
  show ?case
  proof (cases "lex_line wgsl st l")
    case (Inl e)
    then show ?thesis
      using line by auto
  next
    case (Inr a)
    then obtain ts st' where a: "lex_line wgsl st l = Inr (ts, st')"
      by (cases a) auto
    then have ts: "concat (map fst ts) = l" "[] \<notin> fst ` set ts" "wgsl_stack st'" "length st' \<le> length st + length ts"
      using line by auto
    then have "length st' \<le> length st + length l"
      using few_tokens by fastforce
    then show ?thesis
      using Cons.IH [OF ts(3)] a ts by (auto split: sum.splits)
  qed
qed simp

section \<open>Properties\<close>

text \<open>
  C39: The lexer of the shading language reads every text: from its first state, and whatever the
  text, the tokens of each line put together are the line, no token is empty, and behind each
  line the root state is at the bottom of the stack and nowhere else. So no line can pop the
  empty stack, meet an unknown bracket or make no progress, and the number of turns given is
  enough. The one failure left is a stack of 100 states, which takes a text of 99 characters
  at least.
\<close>

theorem wgsl_text_covered:
  "case lex_text wgsl [lang_start wgsl] ls of
     Inl e \<Rightarrow> e = Stack_full \<and> 99 \<le> sum_list (map length ls)
   | Inr (tss, st) \<Rightarrow> map (\<lambda>ts. concat (map fst ts)) tss = ls \<and>
       [] \<notin> fst ` set (concat tss) \<and> wgsl_stack st"
proof -
  have "lang_start wgsl = ''root''"
    by (simp add: wgsl_def)
  then show ?thesis
    using lex_text_safe [of "[''root'']" ls] by (auto split: sum.splits)
qed

text \<open>
  A comment in a line, with comments nested in it: it is read as comment tokens alone, which
  together are its text, and the lexer goes on behind its closing mark as it would on a line
  that begins there. The depth is below the bound of the stack.
\<close>

theorem nested_comment_read:
  assumes "plain_parts ps" "parts_depth ps \<le> 98"
  shows "\<exists>ts. only_comments ts \<and> concat (map fst ts) = ''/*'' @ show_parts ps @ ''*/'' \<and>
     lex_line wgsl [''root''] (''/*'' @ show_parts ps @ ''*/'' @ rest) =
       (case lex_line wgsl [''root''] rest of Inl e \<Rightarrow> Inl e | Inr (us, st) \<Rightarrow> Inr (ts @ us, st))"
proof -
  let ?body = "show_parts ps @ ''*/'' @ rest"
  let ?l = "length (''/*'' @ ?body)"
  have "comment_to ?l [''root''] rest [''blockComment'', ''root''] (''*/'' @ rest)"
    by (rule comment_to_turn [OF _ turn_close]) simp_all
  then have "comment_to ?l [''root''] rest [''blockComment'', ''root''] ?body"
    using comment_parts(1) [OF assms(1)] assms(2) by simp
  then have "comment_to ?l [''root''] rest [''root''] (''/*'' @ ?body)"
    by (intro comment_to_turn [OF _ comment_start]) simp_all
  then obtain ts where "only_comments ts" "lex_reads ?l [''root''] (''/*'' @ ?body) ts [''root''] rest"
    unfolding comment_to_def by blast
  then show ?thesis
    using loop_reads lex_reads_text by (intro exI [of _ ts]) fastforce
qed

theorem nested_comment_read_witness:
  "\<exists>ts. only_comments ts \<and> concat (map fst ts) = ''/*'' @ show_parts [Plain ''a'', Nested [Plain ''b'']] @ ''*/'' \<and>
     lex_line wgsl [''root''] (''/*'' @ show_parts [Plain ''a'', Nested [Plain ''b'']] @ ''*/'' @ ''fn'') =
       (case lex_line wgsl [''root''] ''fn'' of Inl e \<Rightarrow> Inl e | Inr (us, st) \<Rightarrow> Inr (ts @ us, st))"
  by (rule nested_comment_read) simp_all

text \<open>
  The rule of the directives has no end of word: whatever follows \<^verbatim>\<open>enable\<close>, the word is read
  as a keyword that opens a directive, so also in a name such as \<^verbatim>\<open>enabled\<close>.
\<close>

theorem directive_prefix_read:
  "lex_line wgsl [''root''] (''enable'' @ s) =
     (case lex_line wgsl [''directive'', ''root''] s of
        Inl e \<Rightarrow> Inl e
      | Inr (us, st) \<Rightarrow> Inr ((''enable'', ''keyword.wgsl'') # us, st))"
proof -
  have "lex_reads 1 [''root''] (''enable'' @ s) ([(''enable'', ''keyword.wgsl'')] @ []) [''directive'', ''root''] s"
    by (rule reads_turn [OF _ _ directive_start reads_nothing]) simp_all
  from loop_reads [OF this] show ?thesis
    by (simp split: sum.split)
qed

end
