(* ===== verification/Scenario_Files.thy ===== *)
theory Scenario_Files
  imports File_Kinds "HOL-Library.List_Lexorder" "HOL-Library.Char_ord" "HOL-Library.Multiset"
begin

text \<open>
  The list of files beside the scenario editor (\<^verbatim>\<open>P\<close>, \<^verbatim>\<open>E\<close>, \<^verbatim>\<open>R\<close>, \<^verbatim>\<open>K\<close> of
  \<^verbatim>\<open>web/static/ide-assets/scenario-editor.js\<close>): paths grouped by their first segment, with
  badges and languages. The order of strings is that of their code units.
\<close>

section \<open>Badges and languages\<close>

definition editor_icons :: "(string \<times> icon) list" where
  "editor_icons =
     [(''go'', badge ''GO'' ''fb-go''), (''js'', badge ''JS'' ''fb-js''), (''ts'', badge ''TS'' ''fb-ts''),
      (''py'', badge ''PY'' ''fb-py''), (''sh'', badge ''SH'' ''fb-sh''), (''yaml'', badge ''YAML'' ''fb-yaml''),
      (''yml'', badge ''YAML'' ''fb-yaml''), (''json'', badge ''JSON'' ''fb-json''),
      (''md'', badge ''MD'' ''fb-md''), (''css'', badge ''CSS'' ''fb-css''), (''tf'', badge ''TF'' ''fb-tf''),
      (''hcl'', badge ''HCL'' ''fb-tf'')]"

definition editor_icon :: "string \<Rightarrow> icon" where
  "editor_icon name =
     (case js_get editor_icons (file_ext name) of
        Own i \<Rightarrow> i
      | Inherited \<Rightarrow> no_fields
      | Missing \<Rightarrow> icon_fallback (file_ext name))"

definition editor_langs :: "(string \<times> string) list" where
  "editor_langs =
     [(''go'', ''go''), (''js'', ''javascript''), (''ts'', ''typescript''), (''py'', ''python''),
      (''sh'', ''shell''), (''bash'', ''shell''), (''yaml'', ''yaml''), (''yml'', ''yaml''),
      (''json'', ''json''), (''md'', ''markdown''), (''css'', ''css''), (''tf'', ''hcl''), (''hcl'', ''hcl'')]"

definition editor_lang :: "string \<Rightarrow> lang" where
  "editor_lang path =
     (case js_get editor_langs (lower (last (split_on (CHR ''.'') path))) of
        Own l \<Rightarrow> Lang l
      | Inherited \<Rightarrow> Lang_object
      | Missing \<Rightarrow> Lang ''plaintext'')"

section \<open>Grouping\<close>

text \<open>
  The loop of \<^verbatim>\<open>P\<close>: paths of one segment go to one list, the others to an object by their first
  segment. Under a name that the object inherits stands a value without \<^verbatim>\<open>push\<close>, so the loop throws.
\<close>

type_synonym folders = "(string \<times> string list) list"

definition push_path :: "string \<Rightarrow> string \<Rightarrow> folders \<Rightarrow> folders" where
  "push_path l p fs =
     (case map_of fs l of
        None \<Rightarrow> fs @ [(l, [p])]
      | Some ps \<Rightarrow> map (\<lambda>(k, qs). if k = l then (k, qs @ [p]) else (k, qs)) fs)"

fun group_paths :: "string list \<times> folders \<Rightarrow> string list \<Rightarrow> (string list \<times> folders) option" where
  "group_paths (ns, fs) [] = Some (ns, fs)"
| "group_paths (ns, fs) (p # ps) =
     (case split_on (CHR ''/'') p of
        [x] \<Rightarrow> group_paths (ns @ [p], fs) ps
      | l # xs \<Rightarrow>
          (case js_get fs l of
             Inherited \<Rightarrow> None
           | _ \<Rightarrow> group_paths (ns, push_path l p fs) ps)
      | [] \<Rightarrow> None)"

text \<open>\<^verbatim>\<open>Object.entries(o).sort()\<close> compares the pairs as strings.\<close>

definition entry_text :: "string \<times> string list \<Rightarrow> string" where
  "entry_text e = fst e @ '','' @ join '','' (snd e)"

section \<open>The tree\<close>

record file_row =
  fr_path :: string
  fr_indent :: nat
  fr_icon :: icon
  fr_name :: string

record folder_row =
  fo_name :: string
  fo_open :: bool
  fo_arrow_down :: bool
  fo_files :: "file_row list"

datatype tree_view = Tree_failed | Tree_rows "file_row list" "folder_row list"

definition file_row :: "string \<Rightarrow> nat \<Rightarrow> file_row" where
  "file_row p depth =
     \<lparr>fr_path = p, fr_indent = 8 + depth * 14, fr_icon = editor_icon (base_name p), fr_name = base_name p\<rparr>"

text \<open>A folder is open at first, with the arrow of a closed one.\<close>

definition folder_row :: "string \<times> string list \<Rightarrow> folder_row" where
  "folder_row e =
     \<lparr>fo_name = fst e, fo_open = True, fo_arrow_down = False,
      fo_files = map (\<lambda>p. file_row p 1) (sort (snd e))\<rparr>"

text \<open>\<^verbatim>\<open>P\<close>: \<open>None\<close> when the grouping throws, which is after the tree was emptied and before a row is added.\<close>

definition show_files :: "string list \<Rightarrow> tree_view option" where
  "show_files ps =
     map_option (\<lambda>(ns, fs). Tree_rows (map (\<lambda>p. file_row p 0) ns) (map folder_row (sort_key entry_text fs)))
       (group_paths ([], []) ps)"

definition toggle_folder :: "folder_row \<Rightarrow> folder_row" where
  "toggle_folder f = (let now = \<not> fo_open f in f\<lparr>fo_open := now, fo_arrow_down := now\<rparr>)"

fun rows_of :: "tree_view \<Rightarrow> file_row list" where
  "rows_of Tree_failed = []"
| "rows_of (Tree_rows ns fs) = ns @ concat (map fo_files fs)"

section \<open>Every path has one row\<close>

definition paths_in :: "string list \<times> folders \<Rightarrow> string multiset" where
  "paths_in g = mset (fst g) + mset (concat (map snd (snd g)))"

lemma push_path_keys: "distinct (map fst fs) \<Longrightarrow> distinct (map fst (push_path l p fs))"
proof (cases "map_of fs l")
  case None
  then have "l \<notin> fst ` set fs"
    by (simp add: map_of_eq_None_iff)
  then show "distinct (map fst fs) \<Longrightarrow> ?thesis"
    using None by (auto simp: push_path_def)
next
  case (Some ps)
  have "map fst (map (\<lambda>(k, qs). if k = l then (k, qs @ [p]) else (k, qs)) fs) = map fst fs"
    by (induction fs) auto
  then show "distinct (map fst fs) \<Longrightarrow> ?thesis"
    using Some by (simp add: push_path_def del: map_map map_eq_conv)
qed

lemma push_path_other:
  "l \<notin> fst ` set fs \<Longrightarrow> map (\<lambda>(k, qs). if k = l then (k, qs @ [p]) else (k, qs)) fs = fs"
  by (induction fs) auto

lemma push_path_paths:
  "distinct (map fst fs) \<Longrightarrow> mset (concat (map snd (push_path l p fs))) = mset (concat (map snd fs)) + {#p#}"
proof (cases "map_of fs l")
  case None
  then show ?thesis
    by (simp add: push_path_def)
next
  case (Some ps)
  have "l \<in> fst ` set fs \<Longrightarrow> distinct (map fst fs) \<Longrightarrow>
      mset (concat (map snd (map (\<lambda>(k, qs). if k = l then (k, qs @ [p]) else (k, qs)) fs))) =
        mset (concat (map snd fs)) + {#p#}"
  proof (induction fs)
    case (Cons e fs)
    show ?case
    proof (cases "fst e = l")
      case True
      then have "map (\<lambda>(k, qs). if k = l then (k, qs @ [p]) else (k, qs)) fs = fs"
        using Cons.prems by (intro push_path_other) auto
      then show ?thesis
        using True by (cases e) simp
    next
      case False
      then show ?thesis
        using Cons by (cases e) auto
    qed
  qed simp
  moreover have "l \<in> fst ` set fs"
    using Some by (metis domI dom_map_of_conv_image_fst)
  ultimately show "distinct (map fst fs) \<Longrightarrow> ?thesis"
    using Some by (simp add: push_path_def)
qed

lemma group_paths_all:
  "distinct (map fst (snd g)) \<Longrightarrow>
   (case group_paths g ps of
      None \<Rightarrow> list_ex (\<lambda>p. CHR ''/'' \<in> set p \<and> hd (split_on (CHR ''/'') p) \<in> set object_prototype_keys) ps
    | Some h \<Rightarrow> paths_in h = paths_in g + mset ps)"
proof (induction g ps rule: group_paths.induct)
  case (2 ns fs p ps)
  have slash: "CHR ''/'' \<notin> set p \<Longrightarrow> split_on (CHR ''/'') p = [p]"
    by (simp add: split_simps)
  show ?case
  proof (cases "split_on (CHR ''/'') p")
    case (Cons l xs)
    show ?thesis
    proof (cases xs)
      case Nil
      then show ?thesis
        using Cons 2(1) [OF Cons Nil] 2(4) by (auto simp: paths_in_def split: option.splits)
    next
      case xs: (Cons y ys)
      have p: "CHR ''/'' \<in> set p" "hd (split_on (CHR ''/'') p) = l"
        using Cons xs slash by auto
      show ?thesis
      proof (cases "js_get fs l")
        case (Own v)
        note IH = 2(2) [OF Cons xs Own]
        show ?thesis
          using IH 2(4) Own Cons xs push_path_keys [of fs l p] push_path_paths [of fs l p]
          by (auto simp: paths_in_def split: option.splits)
      next
        case Missing
        note IH = 2(3) [OF Cons xs Missing]
        show ?thesis
          using IH 2(4) Missing Cons xs push_path_keys [of fs l p] push_path_paths [of fs l p]
          by (auto simp: paths_in_def split: option.splits)
      next
        case Inherited
        then show ?thesis
          using Cons xs p js_get_Inherited [OF Inherited] by simp
      qed
    qed
  qed simp
qed (simp add: paths_in_def)

lemma mset_concat_map_sort: "mset (concat (map (\<lambda>e. sort (snd e)) es)) = mset (concat (map snd es))"
  by (induction es) simp_all

lemma mset_concat_cong: "mset xs = mset ys \<Longrightarrow> mset (concat (map f xs)) = mset (concat (map f ys))"
  by (metis mset_concat mset_map sum_mset_sum_list)

section \<open>Properties\<close>

text \<open>
  The list shows every path of the scenario once, in a folder or outside, whatever the paths
  are; the one exception is a scenario with a folder named as a property every object inherits
  (\<^verbatim>\<open>constructor\<close>, \<^verbatim>\<open>toString\<close>): then nothing is listed.
\<close>

theorem every_file_listed_once:
  "case show_files ps of
     None \<Rightarrow> list_ex (\<lambda>p. CHR ''/'' \<in> set p \<and> hd (split_on (CHR ''/'') p) \<in> set object_prototype_keys) ps
   | Some t \<Rightarrow> mset (map fr_path (rows_of t)) = mset ps"
proof -
  have "map fr_path (concat (map fo_files (map folder_row es))) = concat (map (\<lambda>e. sort (snd e)) es)" for es
    by (induction es) (simp_all add: folder_row_def file_row_def comp_def)
  then have "mset (map fr_path (concat (map fo_files (map folder_row (sort_key entry_text fs))))) =
      mset (concat (map snd fs))" for fs
    by (metis mset_concat_map_sort mset_concat_cong mset_sort)
  moreover have "map fr_path (map (\<lambda>p. file_row p 0) ns) = ns" for ns
    by (induction ns) (simp_all add: file_row_def)
  ultimately have "mset (map fr_path (rows_of (Tree_rows (map (\<lambda>p. file_row p 0) ns)
      (map folder_row (sort_key entry_text fs))))) = mset ns + mset (concat (map snd fs))" for ns fs
    by (simp only: rows_of.simps map_append mset_append)
  then show ?thesis
    using group_paths_all [of "([], [])" ps]
    by (auto simp: show_files_def paths_in_def split: option.splits simp del: rows_of.simps mset_map)
qed

text \<open>A folder whose name every object has hides all files; a listed folder points the wrong way at first.\<close>

theorem inherited_folder_hides_all:
  "show_files [''scenario.yaml'', ''constructor/main.go''] = None"
  by code_simp

end
