(* ===== verification/Editor_Preview.thy ===== *)
theory Editor_Preview
  imports Js_Regex Html_Text
begin

text \<open>
  The preview of a step that the scenario editor shows beside its Markdown
  (\<^verbatim>\<open>S\<close> of \<^verbatim>\<open>web/static/ide-assets/scenario-editor.js\<close>): the text is escaped and then rewritten
  by seven regular expressions, one after the other, and the result is assigned to \<^verbatim>\<open>innerHTML\<close>.
\<close>

section \<open>The rewriting\<close>

definition backtick :: char where "backtick = CHR 0x60"
definition line_feed :: char where "line_feed = CHR 0x0A"

definition wrapped :: "string \<Rightarrow> nat \<Rightarrow> string \<Rightarrow> piece list" where
  "wrapped l n r = [Text l, Ref n, Text r]"

definition heading_rx :: "string \<Rightarrow> rx" where
  "heading_rx h = seq_rx [Line_start, text_rx h, Group 1 (plus_rx inline_char), Line_end]"

definition strong_rx :: rx where
  "strong_rx = seq_rx [text_rx ''**'', Group 1 (lazy_plus inline_char), text_rx ''**'']"

definition code_rx :: rx where
  "code_rx = seq_rx [text_rx [backtick], Group 1 (plus_rx (\<lambda>c. c \<noteq> backtick)), text_rx [backtick]]"

definition fence_rx :: rx where
  "fence_rx =
     seq_rx [text_rx [backtick, backtick, backtick], Group 1 (Star word_char), text_rx [line_feed],
             Group 2 (Lazy (\<lambda>c. True)), text_rx [backtick, backtick, backtick]]"

definition blank_line_rx :: rx where
  "blank_line_rx = text_rx [line_feed, line_feed]"

text \<open>The chain of \<^verbatim>\<open>replace\<close> calls behind the escaping; \<open>Line_start\<close> and \<open>Line_end\<close> with the flag \<^verbatim>\<open>m\<close>.\<close>

definition with_headings :: "string \<Rightarrow> string" where
  "with_headings s =
     replace_g True (heading_rx ''# '') (wrapped ''<h1>'' 1 ''</h1>'') None
      (replace_g True (heading_rx ''## '') (wrapped ''<h2>'' 1 ''</h2>'') None
       (replace_g True (heading_rx ''### '') (wrapped ''<h3>'' 1 ''</h3>'') None s))"

definition with_code :: "string \<Rightarrow> string" where
  "with_code s =
     replace_g False code_rx (wrapped ''<code>'' 1 ''</code>'') None
      (replace_g False strong_rx (wrapped ''<strong>'' 1 ''</strong>'') None s)"

definition with_fences :: "string \<Rightarrow> string" where
  "with_fences s = replace_g False fence_rx (wrapped ''<pre><code>'' 2 ''</code></pre>'') None s"

definition with_items :: "string \<Rightarrow> string" where
  "with_items s =
     replace_g False blank_line_rx [Text ''<br><br>''] None
      (replace_g True (heading_rx ''- '') (wrapped ''<li>'' 1 ''</li>'') None s)"

definition preview :: "string \<Rightarrow> string" where
  "preview e = with_items (with_fences (with_code (with_headings (esc e))))"

section \<open>Text with known tags\<close>

text \<open>
  A reader of text in which only the tags of the list \<open>A\<close> may occur, without attributes, and
  no other \<^verbatim>\<open><\<close> or \<^verbatim>\<open>>\<close>.
\<close>

datatype scan_state = Out | Inside string

definition begins_tag :: "string list \<Rightarrow> string \<Rightarrow> bool" where
  "begins_tag A t \<longleftrightarrow> list_ex (starts_with t) A"

definition scan_step :: "string list \<Rightarrow> scan_state \<Rightarrow> char \<Rightarrow> scan_state option" where
  "scan_step A st c =
     (case st of
        Out \<Rightarrow> if c = CHR ''<'' then Some (Inside []) else if c = CHR ''>'' then None else Some Out
      | Inside t \<Rightarrow>
          if c = CHR ''>'' then (if t \<in> set A then Some Out else None)
          else if begins_tag A (t @ [c]) then Some (Inside (t @ [c])) else None)"

fun scan :: "string list \<Rightarrow> scan_state \<Rightarrow> string \<Rightarrow> scan_state option" where
  "scan A st [] = Some st"
| "scan A st (c # cs) = (case scan_step A st c of None \<Rightarrow> None | Some st' \<Rightarrow> scan A st' cs)"

lemma scan_append:
  "scan A st (u @ v) = (case scan A st u of None \<Rightarrow> None | Some st' \<Rightarrow> scan A st' v)"
  by (induction u arbitrary: st) (auto split: option.split)

text \<open>A character of no tag can only stand outside of tags.\<close>

definition special :: "string list \<Rightarrow> char \<Rightarrow> bool" where
  "special A c \<longleftrightarrow> c \<noteq> CHR ''<'' \<and> c \<noteq> CHR ''>'' \<and> c \<notin> set (concat A)"

lemma begins_tag_last: "begins_tag A (t @ [c]) \<Longrightarrow> \<exists>a \<in> set A. c \<in> set a"
proof -
  assume "begins_tag A (t @ [c])"
  then obtain a where "a \<in> set A" "take (length (t @ [c])) a = t @ [c]"
    unfolding begins_tag_def list_ex_iff starts_with_def by blast
  then show ?thesis
    by (metis in_set_conv_decomp in_set_takeD)
qed

lemma special_outside: "special A c \<Longrightarrow> scan A st (c # cs) = Some st' \<Longrightarrow> st = Out"
  using begins_tag_last [of A]
  by (cases st) (auto simp: special_def scan_step_def split: if_splits option.splits)

lemma scan_text: "CHR ''<'' \<notin> set s \<Longrightarrow> CHR ''>'' \<notin> set s \<Longrightarrow> scan A Out s = Some Out"
  by (induction s) (auto simp: scan_step_def)

text \<open>A match that is cut out of such text and put between two such texts.\<close>

definition plain_mark :: "string list \<Rightarrow> string \<Rightarrow> bool" where
  "plain_mark A h \<longleftrightarrow> h \<noteq> [] \<and> special A (hd h) \<and> CHR ''<'' \<notin> set h \<and> CHR ''>'' \<notin> set h"

lemma scan_wrap:
  assumes "scan A st (h @ u @ k @ s') = Some Out" "plain_mark A h"
    "plain_mark A k \<or> k = [] \<and> (s' = [] \<or> special A (hd s'))"
    "scan A Out t1 = Some Out" "scan A Out t2 = Some Out"
  shows "scan A st (t1 @ u @ t2) = Some Out \<and> scan A Out s' = Some Out"
proof -
  obtain c h' where h: "h = c # h'" "special A c"
    using assms(2) by (cases h) (auto simp: plain_mark_def)
  then have st: "st = Out"
    using special_outside assms(1) by fastforce
  have "scan A Out h = Some Out"
    using assms(2) by (intro scan_text) (auto simp: plain_mark_def)
  then obtain t where t: "scan A Out u = Some t" "scan A t (k @ s') = Some Out"
    using assms(1) st by (auto simp: scan_append split: option.splits)
  have "t = Out"
  proof (cases "k @ s'")
    case Nil
    then show ?thesis
      using t(2) by simp
  next
    case (Cons d r)
    then have "special A d"
      using assms(3) by (cases k) (auto simp: plain_mark_def)
    then show ?thesis
      using special_outside t(2) Cons by metis
  qed
  moreover have "scan A Out k = Some Out"
    using assms(3) by (cases "k = []") (auto simp: plain_mark_def intro!: scan_text)
  ultimately show ?thesis
    using t st assms(4,5) by (simp add: scan_append)
qed

section \<open>Each rewriting keeps the text readable\<close>

definition keeps :: "string list \<Rightarrow> bool \<Rightarrow> rx \<Rightarrow> piece list \<Rightarrow> bool" where
  "keeps A m r ps \<longleftrightarrow>
     (\<forall>b s b' s' caps st. (b', s', caps) \<in> set (ends m r (b, s, [])) \<and> scan A st s = Some Out \<longrightarrow>
        (\<exists>st1. scan A st (fill ps caps) = Some st1 \<and> scan A st1 s' = Some Out))"

lemma replace_keeps:
  assumes "keeps A m r ps"
  shows "scan A st s = Some Out \<Longrightarrow> scan A st (replace_g m r ps b s) = Some Out"
  using assms
proof (induction m r ps b s arbitrary: st rule: replace_g.induct)
  case (1 m r ps b s)
  note IH = "1.IH" and prems = "1.prems"
  have walk: "scan A st1 (case s of [] \<Rightarrow> [] | c # cs \<Rightarrow> c # replace_g m r ps (Some c) cs) = Some Out"
    if "scan A st1 s = Some Out" "\<And>c cs st2. s = c # cs \<Longrightarrow> scan A st2 cs = Some Out \<Longrightarrow>
        scan A st2 (replace_g m r ps (Some c) cs) = Some Out" for st1
    using that by (auto split: list.splits option.splits)
  show ?case
  proof (cases "first_end m r b s")
    case None
    have "scan A st2 (replace_g m r ps (Some c) cs) = Some Out"
      if "s = c # cs" "scan A st2 cs = Some Out" for c cs st2
      using IH(1) [OF None that(1) that(2) prems(2)] .
    then have "scan A st (case s of [] \<Rightarrow> [] | c # cs \<Rightarrow> c # replace_g m r ps (Some c) cs) = Some Out"
      using walk prems(1) by blast
    then show ?thesis
      using None by (simp add: replace_g.simps [of m r ps b s])
  next
    case (Some a)
    then obtain b' s' caps where a: "first_end m r b s = Some (b', s', caps)"
      by (cases a) auto
    note mem = first_end_mem [OF a]
    obtain st1 where st1: "scan A st (fill ps caps) = Some st1" "scan A st1 s' = Some Out"
      using prems mem unfolding keeps_def by blast
    show ?thesis
    proof (cases "length s' < length s")
      case True
      have "scan A st1 (replace_g m r ps b' s') = Some Out"
        using IH(2) [OF a _ _ True st1(2) prems(2)] by simp
      then show ?thesis
        using a True st1(1) by (simp add: replace_g.simps [of m r ps b s] scan_append)
    next
      case False
      then have "s' = s"
        using ends_prefix [OF mem] by auto
      have "scan A st2 (replace_g m r ps (Some c) cs) = Some Out"
        if "s = c # cs" "scan A st2 cs = Some Out" for c cs st2
        using IH(3) [OF a _ _ False that(1) that(2) prems(2)] by simp
      then have "scan A st1 (case s of [] \<Rightarrow> [] | c # cs \<Rightarrow> c # replace_g m r ps (Some c) cs) = Some Out"
        using walk st1(2) \<open>s' = s\<close> by blast
      then show ?thesis
        using a False st1(1) by (simp add: replace_g.simps [of m r ps b s] scan_append)
    qed
  qed
qed

text \<open>What the patterns cut out of the text.\<close>

lemma ends_heading:
  assumes "(b', s', caps) \<in> set (ends True (heading_rx h) (b, s, []))"
  shows "\<exists>u. s = h @ u @ s' \<and> caps = [(1, u)] \<and> (s' = [] \<or> line_break (hd s'))"
  using assms
  by (auto simp: heading_rx_def simp del: ends.simps
      dest!: ends_Then ends_line_start ends_text ends_group ends_plus ends_line_end)

lemma ends_strong:
  assumes "(b', s', caps) \<in> set (ends m strong_rx (b, s, []))"
  shows "\<exists>u. s = ''**'' @ u @ ''**'' @ s' \<and> caps = [(1, u)]"
  using assms
  by (auto simp: strong_rx_def simp del: ends.simps text_rx.simps dest!: ends_Then ends_text ends_group ends_lazy_plus)

lemma ends_code:
  assumes "(b', s', caps) \<in> set (ends m code_rx (b, s, []))"
  shows "\<exists>u. s = [backtick] @ u @ [backtick] @ s' \<and> caps = [(1, u)] \<and> backtick \<notin> set u \<and> u \<noteq> []"
  using assms
  by (auto simp: code_rx_def list_all_iff simp del: ends.simps text_rx.simps dest!: ends_Then ends_text ends_group ends_plus)

lemma ends_fence:
  assumes "(b', s', caps) \<in> set (ends m fence_rx (b, s, []))"
  shows "\<exists>w u. s = ([backtick, backtick, backtick] @ w @ [line_feed]) @ u @ [backtick, backtick, backtick] @ s' \<and>
     caps = [(2, u), (1, w)] \<and> list_all word_char w"
  using assms
  by (auto simp: fence_rx_def simp del: ends.simps text_rx.simps dest!: ends_Then ends_text ends_group ends_star ends_lazy)

lemma keeps_wrapped:
  assumes "\<And>b s b' s' caps. (b', s', caps) \<in> set (ends m r (b, s, [])) \<Longrightarrow>
      \<exists>h u k. s = h @ u @ k @ s' \<and> map_of caps n = Some u \<and> plain_mark A h \<and>
        (plain_mark A k \<or> k = [] \<and> (s' = [] \<or> special A (hd s')))"
    and "scan A Out t1 = Some Out" "scan A Out t2 = Some Out"
  shows "keeps A m r (wrapped t1 n t2)"
  unfolding keeps_def
proof (intro allI impI)
  fix b s b' s' caps st
  assume *: "(b', s', caps) \<in> set (ends m r (b, s, [])) \<and> scan A st s = Some Out"
  then obtain h u k where s: "s = h @ u @ k @ s'" "map_of caps n = Some u" "plain_mark A h"
      "plain_mark A k \<or> k = [] \<and> (s' = [] \<or> special A (hd s'))"
    using assms(1) [OF conjunct1 [OF *]] by metis
  have "scan A st (h @ u @ k @ s') = Some Out"
    using * s(1) by simp
  from scan_wrap [OF this s(3,4) assms(2,3)]
  show "\<exists>st1. scan A st (fill (wrapped t1 n t2) caps) = Some st1 \<and> scan A st1 s' = Some Out"
    using s(2) by (simp add: fill_def wrapped_def)
qed

text \<open>The tags of the rewritings that are ever used, and that of the fences.\<close>

definition preview_tags :: "string list" where
  "preview_tags =
     [''h1'', ''/h1'', ''h2'', ''/h2'', ''h3'', ''/h3'', ''strong'', ''/strong'', ''code'', ''/code'',
      ''li'', ''/li'', ''br'']"

lemma marks_plain:
  "plain_mark preview_tags ''# ''" "plain_mark preview_tags ''## ''" "plain_mark preview_tags ''### ''"
  "plain_mark preview_tags ''- ''" "plain_mark preview_tags ''**''" "plain_mark preview_tags [backtick]"
  "plain_mark preview_tags [line_feed, line_feed]"
  by code_simp+

lemma break_special: "line_break c \<Longrightarrow> special preview_tags c"
  by (auto simp: line_break_def special_def preview_tags_def char_code_def)

lemma tags_scanned:
  "scan preview_tags Out ''<h1>'' = Some Out" "scan preview_tags Out ''</h1>'' = Some Out"
  "scan preview_tags Out ''<h2>'' = Some Out" "scan preview_tags Out ''</h2>'' = Some Out"
  "scan preview_tags Out ''<h3>'' = Some Out" "scan preview_tags Out ''</h3>'' = Some Out"
  "scan preview_tags Out ''<strong>'' = Some Out" "scan preview_tags Out ''</strong>'' = Some Out"
  "scan preview_tags Out ''<code>'' = Some Out" "scan preview_tags Out ''</code>'' = Some Out"
  "scan preview_tags Out ''<li>'' = Some Out" "scan preview_tags Out ''</li>'' = Some Out"
  "scan preview_tags Out ''<br><br>'' = Some Out"
  by code_simp+

lemma heading_keeps:
  assumes "plain_mark preview_tags h" "scan preview_tags Out t1 = Some Out" "scan preview_tags Out t2 = Some Out"
  shows "keeps preview_tags True (heading_rx h) (wrapped t1 1 t2)"
proof (rule keeps_wrapped [OF _ assms(2,3)])
  fix b s b' s' caps
  assume "(b', s', caps) \<in> set (ends True (heading_rx h) (b, s, []))"
  then obtain u where "s = h @ u @ s'" "caps = [(1, u)]" "s' = [] \<or> line_break (hd s')"
    using ends_heading by blast
  then show "\<exists>h u k. s = h @ u @ k @ s' \<and> map_of caps 1 = Some u \<and> plain_mark preview_tags h \<and>
      (plain_mark preview_tags k \<or> k = [] \<and> (s' = [] \<or> special preview_tags (hd s')))"
    using assms(1) break_special by (intro exI [of _ h] exI [of _ u] exI [of _ "[]"]) auto
qed

lemma strong_keeps: "keeps preview_tags False strong_rx (wrapped ''<strong>'' 1 ''</strong>'')"
proof (rule keeps_wrapped)
  fix b s b' s' caps
  assume "(b', s', caps) \<in> set (ends False strong_rx (b, s, []))"
  then obtain u where "s = ''**'' @ u @ ''**'' @ s'" "caps = [(1, u)]"
    using ends_strong by blast
  then show "\<exists>h u k. s = h @ u @ k @ s' \<and> map_of caps 1 = Some u \<and> plain_mark preview_tags h \<and>
      (plain_mark preview_tags k \<or> k = [] \<and> (s' = [] \<or> special preview_tags (hd s')))"
    using marks_plain by (intro exI [of _ "''**''"] exI [of _ u]) auto
qed (rule tags_scanned)+

lemma code_keeps: "keeps preview_tags False code_rx (wrapped ''<code>'' 1 ''</code>'')"
proof (rule keeps_wrapped)
  fix b s b' s' caps
  assume "(b', s', caps) \<in> set (ends False code_rx (b, s, []))"
  then obtain u where "s = [backtick] @ u @ [backtick] @ s'" "caps = [(1, u)]"
    using ends_code by blast
  then show "\<exists>h u k. s = h @ u @ k @ s' \<and> map_of caps 1 = Some u \<and> plain_mark preview_tags h \<and>
      (plain_mark preview_tags k \<or> k = [] \<and> (s' = [] \<or> special preview_tags (hd s')))"
    using marks_plain by (intro exI [of _ "[backtick]"] exI [of _ u]) auto
qed (rule tags_scanned)+

lemma blank_line_keeps: "keeps preview_tags False blank_line_rx [Text ''<br><br>'']"
  unfolding keeps_def
proof (intro allI impI)
  fix b s b' s' caps st
  assume *: "(b', s', caps) \<in> set (ends False blank_line_rx (b, s, [])) \<and> scan preview_tags st s = Some Out"
  then have s: "s = [line_feed, line_feed] @ s'"
    unfolding blank_line_rx_def using ends_text by blast
  have st: "st = Out"
    using * s special_outside [of preview_tags line_feed st] break_special [of line_feed]
    by (auto simp: line_feed_def line_break_def char_code_def)
  have "scan preview_tags Out [line_feed, line_feed] = Some Out"
    by code_simp
  then have "scan preview_tags Out s' = Some Out"
    using * s st by (simp only: scan_append) simp
  then show "\<exists>st1. scan preview_tags st (fill [Text ''<br><br>''] caps) = Some st1 \<and>
      scan preview_tags st1 s' = Some Out"
    using st tags_scanned(13) by (simp add: fill_def)
qed

section \<open>What is left behind the inline code\<close>

text \<open>
  Behind the rewriting of inline code a backtick that another character than a backtick or a
  tag follows is the last one: else it had opened inline code.
\<close>

fun last_tick :: "string \<Rightarrow> bool" where
  "last_tick [] = True"
| "last_tick (c # cs) =
     ((c = backtick \<longrightarrow> cs = [] \<or> hd cs = backtick \<or> hd cs = CHR ''<'' \<or> backtick \<notin> set cs) \<and> last_tick cs)"

lemma last_tick_append: "backtick \<notin> set u \<Longrightarrow> last_tick (u @ v) \<longleftrightarrow> last_tick v"
  by (induction u) auto

lemma last_tick_suffix: "last_tick (u @ v) \<Longrightarrow> last_tick v"
  by (induction u) auto

lemma first_end_None: "first_end m r b s = None \<longleftrightarrow> ends m r (b, s, []) = []"
  by (simp add: first_end_def split: list.split)

lemma code_matches:
  assumes "d \<noteq> backtick" "backtick \<in> set r"
  shows "first_end False code_rx b (backtick # d # r) \<noteq> None"
proof -
  let ?p = "\<lambda>c. c \<noteq> backtick"
  obtain b1 zs where run: "run_ends ?p (Some d) r = (b1, dropWhile ?p r) # zs"
    using run_ends_hd [of ?p "Some d" r] by (metis list.collapse)
  obtain r2 where r2: "dropWhile ?p r = backtick # r2"
    using assms(2) by (metis (mono_tags, lifting) dropWhile_eq_Nil_conv hd_dropWhile list.collapse)
  have "(b1, backtick # r2, []) \<in> set (ends False (plus_rx ?p) (Some backtick, d # r, []))"
    using run r2 assms(1) by (simp add: plus_rx_def)
  then have "\<exists>caps. (b1, backtick # r2, caps) \<in> set (ends False (Group 1 (plus_rx ?p)) (Some backtick, d # r, []))"
    by force
  then have "\<exists>a. a \<in> set (ends False code_rx (b, backtick # d # r, []))"
    by (force simp: code_rx_def this_char_def)
  then show ?thesis
    by (auto simp: first_end_None)
qed

lemma code_needs_tick: "backtick \<notin> set s \<Longrightarrow> first_end False code_rx b s = None"
  by (cases s) (auto simp: first_end_None code_rx_def this_char_def)

lemma code_no_tick: "backtick \<notin> set s \<Longrightarrow> replace_g False code_rx ps b s = s"
  by (rule replace_nothing) (auto intro!: code_needs_tick)

lemma code_keeps_head:
  "hd (replace_g False code_rx (wrapped ''<code>'' 1 t) b (backtick # cs)) \<in> {backtick, CHR ''<''}"
proof (cases "first_end False code_rx b (backtick # cs)")
  case None
  then show ?thesis
    by (simp add: replace_g.simps)
next
  case (Some a)
  then show ?thesis
    by (cases a) (simp add: replace_g.simps fill_def wrapped_def)
qed

lemma code_last_tick: "last_tick (replace_g False code_rx (wrapped ''<code>'' 1 ''</code>'') b s)"
proof (induction "length s" arbitrary: b s rule: less_induct)
  case less
  show ?case
  proof (cases "first_end False code_rx b s")
    case (Some a)
    then obtain b' s' caps where a: "first_end False code_rx b s = Some (b', s', caps)"
      by (cases a) auto
    obtain u where u: "s = [backtick] @ u @ [backtick] @ s'" "caps = [(1, u)]" "backtick \<notin> set u"
      using ends_code [OF first_end_mem [OF a]] by blast
    have "last_tick (replace_g False code_rx (wrapped ''<code>'' 1 ''</code>'') b' s')"
      using less u(1) by simp
    moreover have "backtick \<notin> set (''<code>'' @ u @ ''</code>'')"
      using u(3) by (simp add: backtick_def)
    ultimately have "last_tick ((''<code>'' @ u @ ''</code>'') @
        replace_g False code_rx (wrapped ''<code>'' 1 ''</code>'') b' s')"
      using last_tick_append by blast
    moreover have "replace_g False code_rx (wrapped ''<code>'' 1 ''</code>'') b s =
        (''<code>'' @ u @ ''</code>'') @ replace_g False code_rx (wrapped ''<code>'' 1 ''</code>'') b' s'"
      using a u(1,2) by (subst replace_g.simps) (simp add: fill_def wrapped_def)
    ultimately show ?thesis
      by simp
  next
    case None
    show ?thesis
    proof (cases s)
      case (Cons c cs)
      let ?r = "replace_g False code_rx (wrapped ''<code>'' 1 ''</code>'') (Some c) cs"
      have "last_tick ?r"
        using less Cons by simp
      moreover have "?r = [] \<or> hd ?r = backtick \<or> hd ?r = CHR ''<'' \<or> backtick \<notin> set ?r" if c: "c = backtick"
      proof (cases cs)
        case (Cons d r)
        then consider "d = backtick" | "d \<noteq> backtick" "backtick \<notin> set cs"
          using code_matches [of d r b] None \<open>s = c # cs\<close> c by auto
        then show ?thesis
        proof cases
          case 1
          then show ?thesis
            using code_keeps_head [of "''</code>''" "Some c" r] unfolding Cons 1 by blast
        next
          case 2
          then show ?thesis
            by (simp add: code_no_tick)
        qed
      qed (simp add: replace_g.simps code_needs_tick)
      ultimately show ?thesis
        using None Cons by (subst replace_g.simps) (simp del: One_nat_def)
    qed (simp add: replace_g.simps code_needs_tick)
  qed
qed

text \<open>So no fence is ever found.\<close>

lemma fence_unmatched:
  assumes "last_tick s"
  shows "with_fences s = s"
  unfolding with_fences_def
proof (rule replace_nothing)
  fix u v c
  assume s: "s = u @ v"
  show "first_end False fence_rx c v = None"
  proof (rule ccontr)
    assume "first_end False fence_rx c v \<noteq> None"
    then obtain b' s' caps where "(b', s', caps) \<in> set (ends False fence_rx (c, v, []))"
      using first_end_mem by fastforce
    then obtain w x where v: "v = ([backtick, backtick, backtick] @ w @ [line_feed]) @ x @ [backtick, backtick, backtick] @ s'"
      "list_all word_char w"
      using ends_fence by blast
    let ?t = "backtick # w @ [line_feed] @ x @ [backtick, backtick, backtick] @ s'"
    have "last_tick ((u @ [backtick, backtick]) @ ?t)"
      using assms s v(1) by simp
    then have "last_tick ?t"
      by (rule last_tick_suffix)
    moreover have "hd (w @ [line_feed]) \<noteq> backtick" "hd (w @ [line_feed]) \<noteq> CHR ''<''"
      using v(2)
      by (cases w; simp add: backtick_def line_feed_def word_char_def ascii_letter_def dec_digit_def lower_char_def
          char_code_def; auto)+
    ultimately show False
      by (cases w) auto
  qed
qed

section \<open>The tags a browser finds\<close>

definition tags_proper :: "string list \<Rightarrow> bool" where
  "tags_proper A \<longleftrightarrow>
     list_all (\<lambda>a. a \<noteq> [] \<and> opens_tag (hd a) \<and> list_all (\<lambda>c. \<not> quote c) a) A"

fun html_of :: "scan_state \<Rightarrow> html_state" where
  "html_of Out = Data"
| "html_of (Inside t) = (if t = [] then Opened else In_tag t)"

lemma scan_step_html:
  assumes "tags_proper A" "scan_step A st c = Some st'"
  shows "\<exists>ts. html_step (html_of st) c = (html_of st', ts) \<and> set ts \<subseteq> set A"
proof (cases st)
  case (Inside t)
  have hd_opens: "begins_tag A [c] \<Longrightarrow> opens_tag c"
    using assms(1) by (auto simp: begins_tag_def list_ex_iff starts_with_def tags_proper_def list_all_iff take_Suc)
  have no_quote: "begins_tag A (t @ [c]) \<Longrightarrow> \<not> quote c"
    using assms(1) begins_tag_last [of A t c] by (auto simp: tags_proper_def list_all_iff)
  show ?thesis
    using assms Inside hd_opens no_quote
    by (auto simp: scan_step_def tags_proper_def list_all_iff split: if_splits)
qed (use assms(2) in \<open>auto simp: scan_step_def split: if_splits\<close>)

lemma scan_html:
  "tags_proper A \<Longrightarrow> scan A st s = Some st' \<Longrightarrow>
   \<exists>ts. html_run (html_of st) s = (html_of st', ts) \<and> set ts \<subseteq> set A"
proof (induction s arbitrary: st)
  case (Cons c s)
  then obtain st1 where "scan_step A st c = Some st1" "scan A st1 s = Some st'"
    by (auto split: option.splits)
  then show ?case
    using Cons.IH [OF Cons.prems(1)] scan_step_html [OF Cons.prems(1)] by fastforce
qed simp

lemma preview_tags_proper: "tags_proper preview_tags"
  by code_simp

lemma preview_scanned: "scan preview_tags Out (preview e) = Some Out"
proof -
  have 0: "scan preview_tags Out (esc e) = Some Out"
    by (intro scan_text esc_no_markup)
  have 1: "scan preview_tags Out (with_headings s) = Some Out" if "scan preview_tags Out s = Some Out" for s
    unfolding with_headings_def using that by (intro replace_keeps heading_keeps marks_plain tags_scanned)
  have 2: "scan preview_tags Out (with_code s) = Some Out" if "scan preview_tags Out s = Some Out" for s
    unfolding with_code_def using that by (intro replace_keeps code_keeps strong_keeps)
  have 3: "with_fences (with_code s) = with_code s" for s
    unfolding with_code_def by (rule fence_unmatched, rule code_last_tick)
  have 4: "scan preview_tags Out (with_items s) = Some Out" if "scan preview_tags Out s = Some Out" for s
    unfolding with_items_def using that
    by (intro replace_keeps heading_keeps blank_line_keeps marks_plain tags_scanned)
  show ?thesis
    unfolding preview_def by (simp add: 3 0 1 2 4)
qed

section \<open>Properties\<close>

text \<open>
  C12: Whatever a step's Markdown holds, the tags a browser finds in the preview are thirteen fixed
  ones without attributes, and none is left open at the end: markup in the text of a step is
  shown and not executed. \<^verbatim>\<open>pre\<close> is not among the tags: the rewriting of inline code, which
  comes first, takes the backticks of every fence, so no block of code is ever rendered.
\<close>

theorem preview_only_fixed_tags:
  "set (tags (preview e)) \<subseteq>
     {''h1'', ''/h1'', ''h2'', ''/h2'', ''h3'', ''/h3'', ''strong'', ''/strong'', ''code'', ''/code'',
      ''li'', ''/li'', ''br''} \<and>
   fst (html_run Data (preview e)) = Data"
  using scan_html [OF preview_tags_proper preview_scanned [of e]] by (auto simp: tags_def preview_tags_def)

text \<open>The fence of a step as authors write it: its marks stay, with inline code between them.\<close>

theorem fence_shown_as_inline_code:
  "preview ([backtick, backtick, backtick] @ ''sh'' @ [line_feed] @ ''ls'' @ [line_feed, backtick, backtick, backtick]) =
     [backtick, backtick] @ ''<code>sh'' @ [line_feed] @ ''ls'' @ [line_feed] @ ''</code>'' @ [backtick, backtick]"
  by code_simp

end
