(* ===== verification/Scenario_Editor.thy ===== *)
theory Scenario_Editor
  imports Scenario_Files Editor_Preview Routes
begin

text \<open>
  The scenario editor, \<^verbatim>\<open>web/static/ide-assets/scenario-editor.js\<close>: opening, editing, linting and
  saving the files of a scenario, the dialog, and new files. It is a machine as the IDE page is:
  an \<^verbatim>\<open>await\<close> splits a function in two, a request carries what the second half needs, and an event
  is a user action, an answer or a timer. Nothing is known of the server, so an answer may be
  anything. The requests that were sent are kept in their order.

  \<^verbatim>\<open>createModel\<close> throws for the path of the model shown: that one is the only model registered,
  as the one before is disposed of in the same turn. An ellipsis or a dash in a status text is
  written with ASCII characters.
\<close>

section \<open>State\<close>

datatype modal_action = Discard_for string | Create_file

text \<open>An issue of shellcheck; a missing or zero end is \<open>0\<close>.\<close>

record issue =
  is_error :: bool
  is_line :: nat
  is_column :: nat
  is_end_line :: nat
  is_end_column :: nat
  is_code :: nat
  is_message :: string

record marker =
  mk_error :: bool
  mk_start :: "nat \<times> nat"
  mk_end :: "nat \<times> nat"
  mk_message :: string

text \<open>
  What an \<^verbatim>\<open>await\<close> waits for. \<open>List_wait t\<close>, \<open>List_body t\<close>: the list of files; with \<open>Some t\<close> it was
  asked for behind the creation of the file \<open>t\<close>. \<open>Lint_wait c\<close>, \<open>Lint_body c\<close> and \<open>Put_wait\<close>:
  \<^verbatim>\<open>L\<close>, with the text to save.
\<close>

datatype waiting =
    List_wait "string option" | List_body "string option"
  | File_wait string | File_body string
  | Lint_wait string | Lint_body string | Put_wait | Put_issues
  | New_wait string

datatype ed_answer =
    Good | Unprocessable | Refused | Broken
  | Body_text string | Body_files "string list" | Body_issues "issue list" | Body_other

record ed_request =
  rq_method :: string
  rq_url :: string
  rq_body :: string

record sed =
  open_path :: "string option"
  unsaved :: bool
  model_path :: "string option"
  model_text :: string
  model_lang :: lang
  markers :: "marker list"
  editor_shown :: bool
  save_off :: bool
  preview_on :: bool
  preview_html :: string
  preview_due :: bool
  bar_name :: string
  bar_dirty :: bool
  status_line :: string
  clears_due :: nat
  active_row :: "string option"
  tree_shown :: tree_view
  modal_shown :: bool
  modal_text :: string
  ok_does :: "modal_action option"
  ok_label :: string
  ok_off :: bool
  box_shown :: bool
  box_error :: string
  opens_due :: "string list"
  waits :: "waiting list"
  sent :: "ed_request list"

section \<open>Requests\<close>

definition ed_files_url :: "string \<Rightarrow> string" where
  "ed_files_url w = ''/api/admin/scenarios/'' @ w @ ''/files''"

definition file_url :: "string \<Rightarrow> string \<Rightarrow> string" where
  "file_url w p = ed_files_url w @ ''/'' @ p"

definition lint_url :: string where
  "lint_url = ''/api/admin/lint/shell''"

definition ed_ask :: "string \<Rightarrow> string \<Rightarrow> string \<Rightarrow> waiting \<Rightarrow> sed \<Rightarrow> sed" where
  "ed_ask m u c k s =
     s\<lparr>sent := sent s @ [\<lparr>rq_method = m, rq_url = u, rq_body = c\<rparr>], waits := waits s @ [k]\<rparr>"

definition ends_in :: "string \<Rightarrow> string \<Rightarrow> bool" where
  "ends_in p s \<longleftrightarrow> starts_with (rev p) (rev s)"

section \<open>Handlers\<close>

definition update_bar :: "sed \<Rightarrow> sed" where
  "update_bar s =
     s\<lparr>bar_name := (case open_path s of None \<Rightarrow> ''No file open'' | Some p \<Rightarrow> if p = [] then ''No file open'' else p),
       bar_dirty := unsaved s\<rparr>"

definition set_status :: "string \<Rightarrow> sed \<Rightarrow> sed" where
  "set_status m s = s\<lparr>status_line := m\<rparr>"

definition set_preview :: "string \<Rightarrow> sed \<Rightarrow> sed" where
  "set_preview e s = s\<lparr>preview_html := preview e\<rparr>"

text \<open>\<^verbatim>\<open>v\<close>: the issues as markers of the model shown.\<close>

definition marker_of :: "issue \<Rightarrow> marker" where
  "marker_of i =
     \<lparr>mk_error = is_error i, mk_start = (is_line i, is_column i),
      mk_end = (if is_end_line i = 0 then is_line i else is_end_line i,
                if is_end_column i = 0 then is_column i + 1 else is_end_column i),
      mk_message = ''[SC'' @ nat_str (is_code i) @ ''] '' @ is_message i\<rparr>"

definition mark :: "issue list \<Rightarrow> sed \<Rightarrow> sed" where
  "mark is s = s\<lparr>markers := map marker_of is\<rparr>"

text \<open>\<^verbatim>\<open>B\<close>, with what is to be done behind it; the rows of a new tree are not highlighted.\<close>

definition set_tree :: "tree_view \<Rightarrow> sed \<Rightarrow> sed" where
  "set_tree v s = s\<lparr>tree_shown := v, active_row := None\<rparr>"

definition load_files :: "string \<Rightarrow> string option \<Rightarrow> sed \<Rightarrow> sed" where
  "load_files w t s = ed_ask ''GET'' (ed_files_url w) [] (List_wait t) s"

text \<open>\<^verbatim>\<open>g\<close>, \<^verbatim>\<open>U\<close> and \<^verbatim>\<open>q\<close>: one dialog with two uses.\<close>

definition close_modal :: "sed \<Rightarrow> sed" where
  "close_modal s = s\<lparr>modal_shown := False\<rparr>"

definition confirm_discard :: "string \<Rightarrow> string \<Rightarrow> sed \<Rightarrow> sed" where
  "confirm_discard m p s =
     s\<lparr>modal_text := ''Unsaved changes to '' @ base_name m @ '' will be lost.'', box_shown := False,
       box_error := [], ok_label := ''Confirm'', ok_off := False, modal_shown := True,
       ok_does := Some (Discard_for p)\<rparr>"

definition ask_name :: "sed \<Rightarrow> sed" where
  "ask_name s =
     s\<lparr>modal_text := [], box_shown := True, box_error := [], ok_label := ''Create'', ok_off := False,
       modal_shown := True, ok_does := Some Create_file\<rparr>"

text \<open>\<^verbatim>\<open>k\<close> up to its first \<^verbatim>\<open>await\<close>, and \<^verbatim>\<open>$\<close>.\<close>

definition fetch_file :: "string \<Rightarrow> string \<Rightarrow> sed \<Rightarrow> sed" where
  "fetch_file w p s = ed_ask ''GET'' (file_url w p) [] (File_wait p) s"

definition open_file :: "string \<Rightarrow> string \<Rightarrow> sed \<Rightarrow> sed" where
  "open_file w p s =
     (case open_path s of
        Some m \<Rightarrow> if unsaved s \<and> m \<noteq> [] then confirm_discard m p s else fetch_file w p s
      | None \<Rightarrow> fetch_file w p s)"

text \<open>\<^verbatim>\<open>k\<close> behind \<^verbatim>\<open>t.text()\<close>.\<close>

definition show_file :: "string \<Rightarrow> string \<Rightarrow> sed \<Rightarrow> sed" where
  "show_file p t s =
     (let s1 = s\<lparr>open_path := Some p, unsaved := False, editor_shown := True, save_off := False\<rparr>
      in if model_path s1 = Some p then s1
         else (let s2 = s1\<lparr>model_path := Some p, model_text := t, model_lang := editor_lang p, markers := []\<rparr>;
                   md = ends_in ''.md'' p;
                   s3 = s2\<lparr>preview_on := md\<rparr>;
                   s4 = (if md then set_preview t s3 else s3)
               in (update_bar s4)\<lparr>active_row := Some p\<rparr>))"

text \<open>\<^verbatim>\<open>onDidChangeModelContent\<close> after an edit.\<close>

definition edited :: "string \<Rightarrow> sed \<Rightarrow> sed" where
  "edited t s =
     (let s1 = s\<lparr>model_text := t\<rparr>;
          s2 = (if unsaved s1 then s1 else update_bar (s1\<lparr>unsaved := True\<rparr>))
      in (case open_path s2 of
            Some m \<Rightarrow> if ends_in ''.md'' m then s2\<lparr>preview_due := True\<rparr> else s2
          | None \<Rightarrow> s2))"

text \<open>\<^verbatim>\<open>L\<close>: to its first \<^verbatim>\<open>await\<close>, and from behind the linter, where \<^verbatim>\<open>m\<close> is read again.\<close>

definition put_file :: "string \<Rightarrow> string \<Rightarrow> sed \<Rightarrow> sed" where
  "put_file w c s =
     (case open_path s of
        None \<Rightarrow> s
      | Some m \<Rightarrow> ed_ask ''PUT'' (file_url w m) c Put_wait (set_status ''Saving...'' (s\<lparr>save_off := True\<rparr>)))"

definition save_file :: "string \<Rightarrow> sed \<Rightarrow> sed" where
  "save_file w s =
     (case open_path s of
        None \<Rightarrow> s
      | Some m \<Rightarrow>
          if m = [] then s
          else if ends_in ''.sh'' m then ed_ask ''POST'' lint_url (model_text s) (Lint_wait (model_text s)) s
          else put_file w (model_text s) s)"

definition linted :: "string \<Rightarrow> string \<Rightarrow> issue list \<Rightarrow> sed \<Rightarrow> sed" where
  "linted w c is s =
     (if is \<noteq> []
      then set_status (''shellcheck: '' @ nat_str (length is) @ '' issue(s) - fix before saving'') (mark is s)
      else put_file w c (s\<lparr>markers := []\<rparr>))"

definition saved :: "sed \<Rightarrow> sed" where
  "saved s =
     (set_status ''Saved'' (update_bar (s\<lparr>unsaved := False\<rparr>)))\<lparr>clears_due := Suc (clears_due s), save_off := False\<rparr>"

definition save_failed :: "sed \<Rightarrow> sed" where
  "save_failed s = (set_status ''Save failed'' s)\<lparr>save_off := False\<rparr>"

definition save_blocked :: "issue list \<Rightarrow> sed \<Rightarrow> sed" where
  "save_blocked is s = (set_status ''shellcheck: save blocked'' (mark is s))\<lparr>save_off := False\<rparr>"

text \<open>\<^verbatim>\<open>p\<close> of \<^verbatim>\<open>q\<close> with \<^verbatim>\<open>onSubmit\<close> of \<^verbatim>\<open>Y\<close>, for the content of the input.\<close>

definition name_refused :: "string \<Rightarrow> sed \<Rightarrow> sed" where
  "name_refused e s = s\<lparr>box_error := e, ok_off := False, ok_label := ''Create''\<rparr>"

definition submit_name :: "string \<Rightarrow> string \<Rightarrow> sed \<Rightarrow> sed" where
  "submit_name w v s =
     (let d = trim v
      in if d = [] then s\<lparr>box_error := ''Required.''\<rparr>
         else (let t = dropWhile (\<lambda>c. c = CHR ''/'') d;
                   s1 = s\<lparr>box_error := [], ok_off := True, ok_label := ''Creating...''\<rparr>
               in if t = [] then name_refused ''Required.'' s1
                  else ed_ask ''PUT'' (file_url w t) [] (New_wait t) s1))"

section \<open>The machine\<close>

datatype sed_event =
    Click_file string
  | Click_new
  | Click_ok string
  | Press_enter string
  | Click_cancel
  | Type_text string
  | Save_keys
  | Answer nat ed_answer
  | Preview_fires
  | Clear_fires
  | Open_fires nat

definition awaited :: "sed \<Rightarrow> nat \<Rightarrow> waiting option" where
  "awaited s i = (if i < length (waits s) then Some (waits s ! i) else None)"

text \<open>The second half that goes on with an answer; one that cannot come leaves the state.\<close>

definition proceed :: "string \<Rightarrow> waiting \<Rightarrow> ed_answer \<Rightarrow> sed \<Rightarrow> sed" where
  "proceed w k a s =
     (case k of
        List_wait t \<Rightarrow>
          (case a of
             Good \<Rightarrow> s\<lparr>waits := waits s @ [List_body t]\<rparr>
           | Broken \<Rightarrow> s
           | _ \<Rightarrow> (let s1 = set_tree Tree_failed s
                  in (case t of None \<Rightarrow> s1 | Some p \<Rightarrow> close_modal (s1\<lparr>opens_due := opens_due s1 @ [p]\<rparr>))))
      | List_body t \<Rightarrow>
          (case a of
             Body_files ps \<Rightarrow>
               (case show_files ps of
                  None \<Rightarrow> set_tree (Tree_rows [] []) s
                | Some v \<Rightarrow>
                    (let s1 = set_tree v s
                     in (case t of None \<Rightarrow> s1 | Some p \<Rightarrow> close_modal (s1\<lparr>opens_due := opens_due s1 @ [p]\<rparr>))))
           | _ \<Rightarrow> s)
      | File_wait p \<Rightarrow>
          (case a of
             Good \<Rightarrow> s\<lparr>waits := waits s @ [File_body p]\<rparr>
           | Broken \<Rightarrow> s
           | _ \<Rightarrow> set_status (''Cannot open '' @ p) s)
      | File_body p \<Rightarrow> (case a of Body_text t \<Rightarrow> show_file p t s | _ \<Rightarrow> s)
      | Lint_wait c \<Rightarrow> (case a of Broken \<Rightarrow> s | _ \<Rightarrow> s\<lparr>waits := waits s @ [Lint_body c]\<rparr>)
      | Lint_body c \<Rightarrow>
          (case a of
             Body_issues is \<Rightarrow> linted w c is s
           | Body_other \<Rightarrow> linted w c [] s
           | _ \<Rightarrow> s)
      | Put_wait \<Rightarrow>
          (case a of
             Good \<Rightarrow> saved s
           | Unprocessable \<Rightarrow> s\<lparr>waits := waits s @ [Put_issues]\<rparr>
           | _ \<Rightarrow> save_failed s)
      | Put_issues \<Rightarrow>
          (case a of
             Body_issues is \<Rightarrow> save_blocked is s
           | Body_other \<Rightarrow> save_blocked [] s
           | _ \<Rightarrow> save_failed s)
      | New_wait t \<Rightarrow>
          (case a of
             Good \<Rightarrow> load_files w (Some t) s
           | Broken \<Rightarrow> s
           | _ \<Rightarrow> name_refused ''Failed to create file.'' s))"

text \<open>Whether an answer can come: a status to a request, a body to a reader of one.\<close>

fun fits :: "waiting \<Rightarrow> ed_answer \<Rightarrow> bool" where
  "fits (List_body t) a = (case a of Body_files ps \<Rightarrow> True | Broken \<Rightarrow> True | _ \<Rightarrow> False)"
| "fits (File_body p) a = (case a of Body_text t \<Rightarrow> True | Broken \<Rightarrow> True | _ \<Rightarrow> False)"
| "fits (Lint_body c) a = (case a of Body_issues is \<Rightarrow> True | Body_other \<Rightarrow> True | Broken \<Rightarrow> True | _ \<Rightarrow> False)"
| "fits Put_issues a = (case a of Body_issues is \<Rightarrow> True | Body_other \<Rightarrow> True | Broken \<Rightarrow> True | _ \<Rightarrow> False)"
| "fits k a = (a \<in> {Good, Unprocessable, Refused, Broken})"

definition sed_step :: "string \<Rightarrow> sed \<Rightarrow> sed_event \<Rightarrow> sed" where
  "sed_step w s e =
     (case e of
        Click_file p \<Rightarrow> open_file w p s
      | Click_new \<Rightarrow> ask_name s
      | Click_ok v \<Rightarrow>
          (if modal_shown s \<and> \<not> ok_off s
           then (case ok_does s of
                   None \<Rightarrow> s
                 | Some (Discard_for p) \<Rightarrow> fetch_file w p (close_modal s)
                 | Some Create_file \<Rightarrow> submit_name w v s)
           else s)
      | Press_enter v \<Rightarrow> (if modal_shown s \<and> box_shown s then submit_name w v s else s)
      | Click_cancel \<Rightarrow> close_modal s
      | Type_text t \<Rightarrow> (if editor_shown s then edited t s else s)
      | Save_keys \<Rightarrow> save_file w s
      | Answer i a \<Rightarrow>
          (case awaited s i of
             None \<Rightarrow> s
           | Some k \<Rightarrow> if fits k a then proceed w k a (s\<lparr>waits := remove_at i (waits s)\<rparr>) else s)
      | Preview_fires \<Rightarrow> (if preview_due s then set_preview (model_text s) (s\<lparr>preview_due := False\<rparr>) else s)
      | Clear_fires \<Rightarrow> (if clears_due s = 0 then s else set_status [] (s\<lparr>clears_due := clears_due s - 1\<rparr>))
      | Open_fires i \<Rightarrow>
          (if i < length (opens_due s)
           then open_file w (opens_due s ! i) (s\<lparr>opens_due := remove_at i (opens_due s)\<rparr>)
           else s))"

definition sed_boot :: "string \<Rightarrow> sed" where
  "sed_boot w =
     load_files w None
       \<lparr>open_path = None, unsaved = False, model_path = None, model_text = [], model_lang = Lang ''plaintext'',
        markers = [], editor_shown = False, save_off = True, preview_on = False, preview_html = [],
        preview_due = False, bar_name = ''No file open'', bar_dirty = False, status_line = [], clears_due = 0,
        active_row = None, tree_shown = Tree_rows [] [], modal_shown = False, modal_text = [], ok_does = None,
        ok_label = [], ok_off = False, box_shown = False, box_error = [], opens_due = [], waits = [], sent = []\<rparr>"

abbreviation sed_run :: "string \<Rightarrow> sed_event list \<Rightarrow> sed" where
  "sed_run w es \<equiv> foldl (sed_step w) (sed_boot w) es"

lemmas sed_handlers =
  ed_ask_def update_bar_def set_status_def set_preview_def mark_def set_tree_def load_files_def close_modal_def
  confirm_discard_def ask_name_def fetch_file_def open_file_def show_file_def edited_def put_file_def
  save_file_def linted_def saved_def save_failed_def save_blocked_def name_refused_def submit_name_def

section \<open>The model shown is that of the open file\<close>

definition same_file :: "sed \<Rightarrow> bool" where
  "same_file s \<longleftrightarrow> model_path s = open_path s \<and> (editor_shown s \<longleftrightarrow> open_path s \<noteq> None)"

lemma same_file_cong:
  "model_path t = model_path s \<Longrightarrow> open_path t = open_path s \<Longrightarrow> editor_shown t = editor_shown s \<Longrightarrow>
   same_file t \<longleftrightarrow> same_file s"
  by (simp add: same_file_def)

lemma same_file_show: "same_file (show_file p t s)"
  by (simp add: same_file_def show_file_def Let_def update_bar_def set_preview_def)

lemma same_file_handlers [simp]:
  "same_file (open_file w p s) = same_file s" "same_file (fetch_file w p s) = same_file s"
  "same_file (ask_name s) = same_file s" "same_file (close_modal s) = same_file s"
  "same_file (submit_name w v s) = same_file s" "same_file (edited t s) = same_file s"
  "same_file (save_file w s) = same_file s" "same_file (put_file w t s) = same_file s"
  "same_file (linted w t is s) = same_file s" "same_file (saved s) = same_file s"
  "same_file (save_failed s) = same_file s" "same_file (save_blocked is s) = same_file s"
  "same_file (name_refused e s) = same_file s" "same_file (load_files w x s) = same_file s"
  "same_file (set_status m s) = same_file s" "same_file (set_preview m s) = same_file s"
  "same_file (set_tree tv s) = same_file s"
  by (rule same_file_cong; simp add: sed_handlers Let_def split: option.split)+

lemma same_file_fields [simp]:
  "same_file (s\<lparr>waits := x\<rparr>) = same_file s" "same_file (s\<lparr>opens_due := y\<rparr>) = same_file s"
  "same_file (s\<lparr>preview_due := z\<rparr>) = same_file s" "same_file (s\<lparr>clears_due := n\<rparr>) = same_file s"
  by (simp_all add: same_file_def)

lemma same_file_proceed: "same_file s \<Longrightarrow> same_file (proceed w k a s)"
  by (simp add: proceed_def Let_def same_file_show split: waiting.split ed_answer.split option.split)

lemma same_file_step: "same_file s \<Longrightarrow> same_file (sed_step w s e)"
  by (simp add: sed_step_def same_file_proceed split: sed_event.split option.split modal_action.split)

interpretation editor_files: guarded_machine "sed_step w" "\<lambda>_ _. True" same_file for w
  by unfold_locales (rule same_file_step)

lemma same_file_boot: "same_file (sed_boot w)"
  by (simp add: sed_boot_def) (simp add: same_file_def)

lemma same_file_run: "same_file (sed_run w es)"
  by (rule editor_files.run_inv) (simp_all add: same_file_boot)

section \<open>What is written\<close>

text \<open>
  Where a request that writes comes from: a name typed into the dialog, or a save of the text
  shown at that time, to the file open then or, behind the linter, to one open later.
\<close>

definition typed_name :: "sed_event list \<Rightarrow> string \<Rightarrow> bool" where
  "typed_name es v \<longleftrightarrow> Click_ok v \<in> set es \<or> Press_enter v \<in> set es"

definition creates :: "string \<Rightarrow> sed_event list \<Rightarrow> ed_request \<Rightarrow> bool" where
  "creates w es q \<longleftrightarrow>
     (\<exists>v. typed_name es v \<and> rq_url q = file_url w (dropWhile (\<lambda>c. c = CHR ''/'') (trim v)) \<and> rq_body q = [])"

text \<open>A save in a run: the events before it, the file open then and the text shown then.\<close>

definition save_in :: "string \<Rightarrow> sed_event list \<Rightarrow> string \<Rightarrow> string \<Rightarrow> bool" where
  "save_in w es p c \<longleftrightarrow>
     (\<exists>xs ys. es = xs @ Save_keys # ys \<and> open_path (sed_run w xs) = Some p \<and> c = model_text (sed_run w xs))"

definition saves :: "string \<Rightarrow> sed_event list \<Rightarrow> ed_request \<Rightarrow> bool" where
  "saves w es q \<longleftrightarrow>
     (\<exists>p m. save_in w es p (rq_body q) \<and> rq_url q = file_url w m \<and> (m = p \<or> ends_in ''.sh'' p))"

definition put_ok :: "string \<Rightarrow> sed_event list \<Rightarrow> ed_request \<Rightarrow> bool" where
  "put_ok w es q \<longleftrightarrow> rq_method q = ''PUT'' \<longrightarrow> creates w es q \<or> saves w es q"

definition lint_ok :: "string \<Rightarrow> sed_event list \<Rightarrow> waiting \<Rightarrow> bool" where
  "lint_ok w es k \<longleftrightarrow>
     (case k of
        Lint_wait c \<Rightarrow> \<exists>p. save_in w es p c \<and> ends_in ''.sh'' p
      | Lint_body c \<Rightarrow> \<exists>p. save_in w es p c \<and> ends_in ''.sh'' p
      | _ \<Rightarrow> True)"

definition traced :: "string \<Rightarrow> sed_event list \<Rightarrow> sed \<Rightarrow> bool" where
  "traced w es s \<longleftrightarrow> list_all (put_ok w es) (sent s) \<and> list_all (lint_ok w es) (waits s)"

lemma save_in_append: "save_in w es p c \<Longrightarrow> save_in w (es @ fs) p c"
  unfolding save_in_def by (metis append.assoc append_Cons)

lemma put_ok_append: "put_ok w es q \<Longrightarrow> put_ok w (es @ fs) q"
  unfolding put_ok_def creates_def saves_def typed_name_def using save_in_append by fastforce

lemma lint_ok_append: "lint_ok w es k \<Longrightarrow> lint_ok w (es @ fs) k"
  using save_in_append by (auto simp: lint_ok_def split: waiting.splits) blast+

lemma traced_append: "traced w es s \<Longrightarrow> traced w (es @ fs) s"
  using put_ok_append lint_ok_append by (auto simp: traced_def list_all_iff)

lemma traced_cong: "sent t = sent s \<Longrightarrow> waits t = waits s \<Longrightarrow> traced w es t = traced w es s"
  by (simp add: traced_def)

lemma traced_quiet [simp]:
  "traced w es (update_bar s) = traced w es s" "traced w es (set_status m s) = traced w es s"
  "traced w es (set_preview m s) = traced w es s" "traced w es (set_tree tv s) = traced w es s"
  "traced w es (ask_name s) = traced w es s" "traced w es (close_modal s) = traced w es s"
  "traced w es (confirm_discard m p s) = traced w es s" "traced w es (edited m s) = traced w es s"
  "traced w es (saved s) = traced w es s" "traced w es (save_failed s) = traced w es s"
  "traced w es (save_blocked is s) = traced w es s" "traced w es (name_refused m s) = traced w es s"
  "traced w es (mark is s) = traced w es s" "traced w es (show_file p m s) = traced w es s"
  by (rule traced_cong; simp add: sed_handlers Let_def split: option.split)+

lemma traced_fields [simp]:
  "traced w es (s\<lparr>opens_due := y\<rparr>) = traced w es s" "traced w es (s\<lparr>preview_due := z\<rparr>) = traced w es s"
  "traced w es (s\<lparr>clears_due := n\<rparr>) = traced w es s" "traced w es (s\<lparr>save_off := o1\<rparr>) = traced w es s"
  "traced w es (s\<lparr>markers := ms\<rparr>) = traced w es s" "traced w es (s\<lparr>box_error := be\<rparr>) = traced w es s"
  "traced w es (s\<lparr>box_error := be, ok_off := o1, ok_label := lb\<rparr>) = traced w es s"
  by (simp_all add: traced_def)

lemma traced_ask:
  "traced w es s \<Longrightarrow> put_ok w es \<lparr>rq_method = m, rq_url = u, rq_body = c\<rparr> \<Longrightarrow> lint_ok w es k \<Longrightarrow>
   traced w es (ed_ask m u c k s)"
  by (simp add: traced_def ed_ask_def)

lemma traced_get: "traced w es s \<Longrightarrow> lint_ok w es k \<Longrightarrow> m \<noteq> ''PUT'' \<Longrightarrow> traced w es (ed_ask m u c k s)"
  by (rule traced_ask) (simp_all add: put_ok_def)

lemma traced_open: "traced w es s \<Longrightarrow> traced w es (open_file w p s)" "traced w es s \<Longrightarrow> traced w es (fetch_file w p s)"
    "traced w es s \<Longrightarrow> traced w es (load_files w x s)"
  by (simp_all add: open_file_def fetch_file_def load_files_def traced_get lint_ok_def split: option.split)

lemma traced_waits: "traced w es s \<Longrightarrow> lint_ok w es k \<Longrightarrow> traced w es (s\<lparr>waits := waits s @ [k]\<rparr>)"
  by (simp add: traced_def)

lemma traced_put:
  assumes "traced w es s" "save_in w es p c" "open_path s = Some p \<or> ends_in ''.sh'' p"
  shows "traced w es (put_file w c s)"
proof (cases "open_path s")
  case (Some m)
  have "put_ok w es \<lparr>rq_method = ''PUT'', rq_url = file_url w m, rq_body = c\<rparr>"
    using assms(2,3) Some by (auto simp: put_ok_def saves_def)
  then show ?thesis
    using assms(1) Some by (simp add: put_file_def traced_ask lint_ok_def)
qed (use assms in \<open>simp add: put_file_def\<close>)

lemma traced_submit:
  assumes "traced w es s" "typed_name es v"
  shows "traced w es (submit_name w v s)"
proof -
  have "put_ok w es \<lparr>rq_method = ''PUT'', rq_url = file_url w (dropWhile (\<lambda>c. c = CHR ''/'') (trim v)), rq_body = []\<rparr>"
    using assms(2) by (auto simp: put_ok_def creates_def)
  then show ?thesis
    using assms(1) by (simp add: submit_name_def Let_def traced_ask lint_ok_def)
qed

lemma traced_proceed:
  assumes "traced w es s" "lint_ok w es k"
  shows "traced w es (proceed w k a s)"
proof -
  have lint: "traced w es (linted w c is s)" if k: "k = Lint_body c" for c "is"
  proof -
    obtain p where "save_in w es p c" "ends_in ''.sh'' p"
      using assms(2) unfolding k lint_ok_def by auto
    then show ?thesis
      using assms(1) by (auto simp: linted_def intro!: traced_put)
  qed
  show ?thesis
    using assms lint
    by (auto simp: proceed_def Let_def traced_open traced_waits lint_ok_def split: waiting.split ed_answer.split option.split)
qed

lemma traced_save:
  assumes "traced w es (sed_run w es)"
  shows "traced w (es @ [Save_keys]) (save_file w (sed_run w es))"
proof (cases "open_path (sed_run w es)")
  case (Some m)
  then have "save_in w (es @ [Save_keys]) m (model_text (sed_run w es))"
    unfolding save_in_def by blast
  then show ?thesis
    using Some traced_append [OF assms, of "[Save_keys]"]
    by (auto simp: save_file_def lint_ok_def intro!: traced_put traced_get)
qed (use traced_append [OF assms] in \<open>simp add: save_file_def\<close>)

lemma traced_step:
  assumes "traced w es (sed_run w es)"
  shows "traced w (es @ [e]) (sed_step w (sed_run w es) e)"
proof -
  note base = traced_append [OF assms, of "[e]"]
  show ?thesis
  proof (cases e)
    case (Answer i a)
    show ?thesis
    proof (cases "awaited (sed_run w es) i")
      case (Some k)
      let ?s = "(sed_run w es)\<lparr>waits := remove_at i (waits (sed_run w es))\<rparr>"
      have "lint_ok w (es @ [e]) k"
        using Some base by (auto simp: awaited_def traced_def list_all_iff split: if_splits)
      moreover have "traced w (es @ [e]) ?s"
        using base set_remove_at [of i "waits (sed_run w es)"] by (auto simp: traced_def list_all_iff)
      ultimately show ?thesis
        using Some base Answer by (simp add: sed_step_def traced_proceed)
    qed (use base Answer in \<open>simp add: sed_step_def\<close>)
  next
    case Save_keys
    then show ?thesis
      using traced_save [OF assms] by (simp add: sed_step_def)
  qed (use base in \<open>auto simp: sed_step_def traced_open typed_name_def split: option.split modal_action.split
        intro!: traced_submit\<close>)
qed

lemma traced_run: "traced w es (sed_run w es)"
proof (induction es rule: rev_induct)
  case Nil
  show ?case
    by (simp add: sed_boot_def) (intro traced_open; simp add: traced_def)
next
  case (snoc e es)
  then show ?case
    using traced_step by simp
qed

section \<open>Properties\<close>

text \<open>
  C11: In any run, whatever the server answers and in whatever order, a request that writes either
  makes an empty file of a name the user typed, or writes the text that the editor showed when
  the user saved, which was that of the file open then; and it writes to that file, unless the
  file was a shell script: then the linter is asked first and the target is read anew.
\<close>

theorem scenario_saves_shown_text:
  "list_all (\<lambda>q.
       (\<exists>v. (Click_ok v \<in> set es \<or> Press_enter v \<in> set es) \<and> rq_body q = [] \<and>
          rq_url q = file_url w (dropWhile (\<lambda>c. c = CHR ''/'') (trim v))) \<or>
       (\<exists>xs ys p m. es = xs @ Save_keys # ys \<and> open_path (sed_run w xs) = Some p \<and>
          model_path (sed_run w xs) = Some p \<and> rq_body q = model_text (sed_run w xs) \<and>
          rq_url q = file_url w m \<and> (m = p \<or> ends_in ''.sh'' p)))
     (filter (\<lambda>q. rq_method q = ''PUT'') (sent (sed_run w es)))"
proof -
  have "\<And>xs. model_path (sed_run w xs) = open_path (sed_run w xs)"
    using same_file_run by (simp add: same_file_def)
  then show ?thesis
    using traced_run [of w es]
    unfolding traced_def put_ok_def creates_def typed_name_def saves_def save_in_def list_all_iff by fastforce
qed

text \<open>
  The exception is met: a script is saved, another file is opened while the linter works, and the
  script's text is written over the other file.
\<close>

definition to_open :: "string \<Rightarrow> nat \<Rightarrow> string \<Rightarrow> sed_event list" where
  "to_open p i t = [Click_file p, Answer i Good, Answer i (Body_text t)]"

theorem script_written_over_other_file:
  "sent (sed_run ''demo'' ([Answer 0 Broken] @ to_open ''verify/a.sh'' 0 ''ls'' @ [Save_keys] @
       to_open ''steps/b.md'' 1 ''text'' @ [Answer 0 Good, Answer 0 (Body_issues [])])) =
     [\<lparr>rq_method = ''GET'', rq_url = ''/api/admin/scenarios/demo/files'', rq_body = []\<rparr>,
      \<lparr>rq_method = ''GET'', rq_url = ''/api/admin/scenarios/demo/files/verify/a.sh'', rq_body = []\<rparr>,
      \<lparr>rq_method = ''POST'', rq_url = ''/api/admin/lint/shell'', rq_body = ''ls''\<rparr>,
      \<lparr>rq_method = ''GET'', rq_url = ''/api/admin/scenarios/demo/files/steps/b.md'', rq_body = []\<rparr>,
      \<lparr>rq_method = ''PUT'', rq_url = ''/api/admin/scenarios/demo/files/steps/b.md'', rq_body = ''ls''\<rparr>]"
  by code_simp

text \<open>
  Opening the file that is open already: its text is fetched, but \<^verbatim>\<open>createModel\<close> throws; the edited
  text stays, now marked as saved, and the bar still says otherwise.
\<close>

theorem reopened_file_keeps_edits:
  assumes "model_path s = Some p"
  shows "model_text (show_file p t s) = model_text s \<and> \<not> unsaved (show_file p t s) \<and>
     bar_dirty (show_file p t s) = bar_dirty s \<and> open_path (show_file p t s) = Some p"
  using assms by (simp add: show_file_def)

theorem reopened_file_keeps_edits_witness:
  "model_text (show_file ''a.md'' ''old''
       (sed_run ''demo'' ([Answer 0 Broken] @ to_open ''a.md'' 0 ''old'' @ [Type_text ''new'']))) = ''new''"
proof -
  let ?s = "sed_run ''demo'' ([Answer 0 Broken] @ to_open ''a.md'' 0 ''old'' @ [Type_text ''new''])"
  have "model_path ?s = Some ''a.md''" "model_text ?s = ''new''"
    by code_simp+
  then show ?thesis
    using reopened_file_keeps_edits [of ?s "''a.md''" "''old''"] by simp
qed

text \<open>An edit made while a save is under way is marked as saved when the answer comes.\<close>

theorem edit_during_scenario_save:
  "let s = sed_run ''demo'' ([Answer 0 Broken] @ to_open ''a.md'' 0 ''old'' @
       [Type_text ''new'', Save_keys, Type_text ''newer'', Answer 0 Good])
   in model_text s = ''newer'' \<and> \<not> unsaved s \<and> map rq_body (filter (\<lambda>q. rq_method q = ''PUT'') (sent s)) = [''new'']"
  by code_simp

text \<open>
  The dialog is one for both uses: a refused creation gives the button of a question that is
  shown by then the label of the other use.
\<close>

theorem discard_button_relabelled:
  "let s = sed_run ''demo'' ([Answer 0 Broken] @ to_open ''a.md'' 0 ''old'' @
       [Type_text ''new'', Click_new, Click_ok ''b.md'', Click_cancel, Click_file ''c.md'', Answer 0 Refused])
   in modal_shown s \<and> ok_does s = Some (Discard_for ''c.md'') \<and> ok_label s = ''Create''"
  by code_simp

section \<open>The editor and the server of this repository\<close>

text \<open>The segments of the editor's URLs.\<close>

lemma split_word: "CHR ''/'' \<notin> set a \<Longrightarrow> split_on (CHR ''/'') (a @ CHR ''/'' # x) = a # split_on (CHR ''/'') x"
  by simp

lemma dispatch_scenarios: "dispatch m (''/api/admin/scenarios/'' @ x) = Some (E_static, [])"
proof -
  have "segments (''/api/admin/scenarios/'' @ x) = ''api'' # ''admin'' # ''scenarios'' # split_on (CHR ''/'') x"
    by (simp add: segments_def)
  then show ?thesis
    by (simp add: dispatch_def routes_def matches_def pat_def under_def match_method_def below_def below_method_def)
qed

lemma dispatch_lint: "dispatch m lint_url = Some (E_static, [])"
proof -
  have "segments lint_url = [''api'', ''admin'', ''lint'', ''shell'']"
    by code_simp
  then show ?thesis
    by (simp add: dispatch_def routes_def matches_def pat_def under_def match_method_def below_def below_method_def)
qed

text \<open>The URLs it asks for, in any run.\<close>

definition known_url :: "ed_request \<Rightarrow> bool" where
  "known_url q \<longleftrightarrow> rq_url q = lint_url \<or> starts_with ''/api/admin/scenarios/'' (rq_url q)"

definition asks_known :: "sed \<Rightarrow> bool" where
  "asks_known s \<longleftrightarrow> list_all known_url (sent s)"

lemma known_urls:
  "known_url \<lparr>rq_method = m, rq_url = ed_files_url w, rq_body = c\<rparr>"
  "known_url \<lparr>rq_method = m, rq_url = file_url w p, rq_body = c\<rparr>"
  "known_url \<lparr>rq_method = m, rq_url = lint_url, rq_body = c\<rparr>"
  by (simp_all add: known_url_def file_url_def ed_files_url_def starts_with_def)

lemma asks_known_cong: "sent t = sent s \<Longrightarrow> asks_known t = asks_known s"
  by (simp add: asks_known_def)

lemma asks_known_quiet [simp]:
  "asks_known (update_bar s) = asks_known s" "asks_known (set_status m s) = asks_known s"
  "asks_known (set_preview m s) = asks_known s" "asks_known (set_tree tv s) = asks_known s"
  "asks_known (ask_name s) = asks_known s" "asks_known (close_modal s) = asks_known s"
  "asks_known (confirm_discard m p s) = asks_known s" "asks_known (edited m s) = asks_known s"
  "asks_known (saved s) = asks_known s" "asks_known (save_failed s) = asks_known s"
  "asks_known (save_blocked is s) = asks_known s" "asks_known (name_refused m s) = asks_known s"
  "asks_known (mark is s) = asks_known s" "asks_known (show_file p m s) = asks_known s"
  by (rule asks_known_cong; simp add: sed_handlers Let_def split: option.split)+

lemma asks_known_fields [simp]:
  "asks_known (s\<lparr>waits := x\<rparr>) = asks_known s" "asks_known (s\<lparr>opens_due := y\<rparr>) = asks_known s"
  "asks_known (s\<lparr>preview_due := z\<rparr>) = asks_known s" "asks_known (s\<lparr>clears_due := n\<rparr>) = asks_known s"
  "asks_known (s\<lparr>markers := ms\<rparr>) = asks_known s" "asks_known (s\<lparr>save_off := o1\<rparr>) = asks_known s"
  "asks_known (s\<lparr>box_error := be\<rparr>) = asks_known s"
  "asks_known (s\<lparr>box_error := be, ok_off := o1, ok_label := lb\<rparr>) = asks_known s"
  by (simp_all add: asks_known_def)

lemma asks_known_ask [simp]:
  "asks_known (ed_ask m u c k s) = (asks_known s \<and> known_url \<lparr>rq_method = m, rq_url = u, rq_body = c\<rparr>)"
  by (simp add: asks_known_def ed_ask_def)

lemma asks_known_asking [simp]:
  "asks_known (load_files w x s) = asks_known s" "asks_known (fetch_file w p s) = asks_known s"
  "asks_known (open_file w p s) = asks_known s" "asks_known (put_file w c s) = asks_known s"
  "asks_known (save_file w s) = asks_known s" "asks_known (linted w c is s) = asks_known s"
  "asks_known (submit_name w v s) = asks_known s"
  by (simp_all add: load_files_def fetch_file_def open_file_def put_file_def save_file_def linted_def
      submit_name_def Let_def known_urls split: option.split)

lemma asks_known_proceed: "asks_known s \<Longrightarrow> asks_known (proceed w k a s)"
  by (simp add: proceed_def Let_def split: waiting.split ed_answer.split option.split)

lemma asks_known_step: "asks_known s \<Longrightarrow> asks_known (sed_step w s e)"
  by (simp add: sed_step_def asks_known_proceed split: sed_event.split option.split modal_action.split)

interpretation editor_urls: guarded_machine "sed_step w" "\<lambda>_ _. True" asks_known for w
  by unfold_locales (rule asks_known_step)

text \<open>
  Every request of the editor, whatever the scenario and the file, is left to the server of static
  files: the server of this repository has no endpoint for it.
\<close>

theorem editor_has_no_endpoint:
  "list_all (\<lambda>q. dispatch (rq_method q) (rq_url q) = Some (E_static, [])) (sent (sed_run w es))"
proof -
  have "asks_known (sed_boot w)"
    by (simp add: sed_boot_def load_files_def ed_ask_def asks_known_def known_urls)
  then have "asks_known (sed_run w es)"
    by (rule editor_urls.run_inv) simp
  moreover have "dispatch (rq_method q) (rq_url q) = Some (E_static, [])" if "known_url q" for q
  proof (cases "rq_url q = lint_url")
    case False
    then have "starts_with ''/api/admin/scenarios/'' (rq_url q)"
      using that by (simp add: known_url_def)
    then obtain x where "rq_url q = ''/api/admin/scenarios/'' @ x"
      unfolding starts_with_def by (metis append_take_drop_id)
    then show ?thesis
      using dispatch_scenarios by metis
  qed (simp add: dispatch_lint)
  ultimately show ?thesis
    by (simp add: asks_known_def list_all_iff)
qed

text \<open>
  So no file is ever opened, and nothing but new files is asked to be written, in a run in which
  every request is refused.
\<close>

definition refusal :: "sed_event \<Rightarrow> bool" where
  "refusal e \<longleftrightarrow> (case e of Answer i a \<Rightarrow> a = Refused \<or> a = Broken | _ \<Rightarrow> True)"

fun reads_file :: "waiting \<Rightarrow> bool" where
  "reads_file (File_body p) = True"
| "reads_file k = False"

definition shut :: "sed \<Rightarrow> bool" where
  "shut s \<longleftrightarrow> open_path s = None \<and> \<not> editor_shown s \<and> list_all (\<lambda>k. \<not> reads_file k) (waits s)"

lemma shut_step:
  assumes "shut s" "refusal e"
  shows "shut (sed_step w s e)"
proof (cases e)
  case (Answer i a)
  show ?thesis
  proof (cases "awaited s i")
    case (Some k)
    let ?s = "s\<lparr>waits := remove_at i (waits s)\<rparr>"
    have "shut ?s"
      using assms(1) set_remove_at [of i "waits s"] by (auto simp: shut_def list_all_iff)
    moreover have "a = Refused \<or> a = Broken"
      using assms(2) Answer by (simp add: refusal_def)
    ultimately have "shut (proceed w k a ?s)"
      by (auto simp: proceed_def shut_def sed_handlers Let_def split: waiting.split option.splits)
    then show ?thesis
      using Some assms(1) Answer by (simp add: sed_step_def)
  qed (use assms(1) Answer in \<open>simp add: sed_step_def\<close>)
qed (use assms(1) in \<open>auto simp: sed_step_def shut_def sed_handlers Let_def split: option.split modal_action.split\<close>)

interpretation refused_editor: guarded_machine "sed_step w" "\<lambda>_. refusal" shut for w
  by unfold_locales (rule shut_step)

theorem refused_editor_opens_nothing:
  assumes "list_all refusal es"
  shows "open_path (sed_run w es) = None \<and> \<not> editor_shown (sed_run w es)"
proof -
  have "admitted (sed_step w) (\<lambda>_. refusal) s es" for s
    using assms by (induction es arbitrary: s) auto
  moreover have "shut (sed_boot w)"
    by (simp add: sed_boot_def load_files_def ed_ask_def shut_def)
  ultimately show ?thesis
    using refused_editor.run_inv by (auto simp: shut_def)
qed

theorem refused_editor_opens_nothing_witness:
  "open_path (sed_run ''demo'' [Answer 0 Refused, Click_new, Click_ok ''a.md'', Answer 0 Refused]) = None"
  using refused_editor_opens_nothing [of "[Answer 0 Refused, Click_new, Click_ok ''a.md'', Answer 0 Refused]" "''demo''"]
  by (simp add: refusal_def)

end
