(* ===== verification/Start_Up.thy ===== *)
theory Start_Up
  imports Demo_Tokens Csm Vm_Provider
begin

text \<open>
  How the two programs come by their settings: \<^verbatim>\<open>main\<close> of \<^verbatim>\<open>cmd/labserver\<close> (its \<^verbatim>\<open>loadConfig\<close> is in \<open>Csm\<close>),
  \<^verbatim>\<open>main\<close> of \<^verbatim>\<open>cmd/laboperator\<close> and \<^verbatim>\<open>Load\<close> of \<^verbatim>\<open>internal/operator\<close>. The environment gives the
  empty string for a variable that is not set. The YAML parsers, the files that are embedded and
  the connection to Kubernetes are parameters; logging is left out.
\<close>

section \<open>The environment\<close>

type_synonym environ = "string \<Rightarrow> string"

definition envOr :: "environ \<Rightarrow> string \<Rightarrow> string \<Rightarrow> string" where
  "envOr e k d = (if e k \<noteq> [] then e k else d)"

text \<open>\<^verbatim>\<open>strconv.Atoi\<close> on a machine of 64 bits.\<close>

definition atoi :: "string \<Rightarrow> int option" where
  "atoi s =
     (let (neg, ds) = (case s of
            [] \<Rightarrow> (False, [])
          | c # cs \<Rightarrow> if c = CHR ''-'' then (True, cs) else if c = CHR ''+'' then (False, cs) else (False, s))
      in case parse_nat ds of
           None \<Rightarrow> None
         | Some n \<Rightarrow>
             (let v = (if neg then - int n else int n)
              in if - (2 ^ 63) \<le> v \<and> v < 2 ^ 63 then Some v else None))"

section \<open>The server\<close>

text \<open>\<open>None\<close> for a directory is the embedded one.\<close>

record server_settings =
  st_minutes :: int
  st_ttl :: "64 word"
  st_vm_namespace :: string
  st_namespace :: string
  st_port :: string
  st_key :: "string option"
  st_dev :: bool
  st_scenarios :: "string option"
  st_static :: "string option"
  st_config :: lab_config

datatype start_error = Bad_ttl | No_cluster

definition minute_ns :: "64 word" where
  "minute_ns = 60000000000"

definition dir_setting :: "environ \<Rightarrow> string \<Rightarrow> string option" where
  "dir_setting e k = (if e k \<noteq> [] then Some (e k) else None)"

definition server_main ::
  "environ \<Rightarrow> bool \<Rightarrow> string option \<Rightarrow> (string \<Rightarrow> lab_config option) \<Rightarrow> start_error + server_settings" where
  "server_main e cluster file parse =
     (case atoi (envOr e ''SESSION_TTL_MINUTES'' ''60'') of
        None \<Rightarrow> Inl Bad_ttl
      | Some m \<Rightarrow>
          (let vm = envOr e ''VM_NAMESPACE'' ''uds-lab-vms'';
               key = e ''DEMO_TOKEN_HMAC_KEY''
           in if \<not> cluster then Inl No_cluster
              else Inr \<lparr>st_minutes = m, st_ttl = word_of_int m * minute_ns, st_vm_namespace = vm,
                        st_namespace = envOr e ''SERVER_NAMESPACE'' vm, st_port = envOr e ''PORT'' ''8080'',
                        st_key = (if length key < 32 then None else Some key),
                        st_dev = equal_fold (e ''DEV_MODE'') ''true'',
                        st_scenarios = dir_setting e ''SCENARIOS_DIR'', st_static = dir_setting e ''STATIC_DIR'',
                        st_config = loadConfig file parse\<rparr>))"

text \<open>
  The server that runs with the settings; \<open>b\<close> has its claims, scenarios and VM. Its session time is
  that of the manager, in seconds.
\<close>

definition server_of :: "server_settings \<Rightarrow> server \<Rightarrow> server" where
  "server_of st b =
     b\<lparr>ttl := sint (st_ttl st) div 1000000000, aeGroup := ae_group (st_config st), devMode := st_dev st\<rparr>"

text \<open>The code of a demo token under the key, \<open>hm\<close> being HMAC.\<close>

definition mac_of :: "(string \<Rightarrow> string \<Rightarrow> string) \<Rightarrow> server_settings \<Rightarrow> (string \<Rightarrow> string) option" where
  "mac_of hm st = map_option hm (st_key st)"

section \<open>The operator\<close>

record op_config =
  op_provider :: string
  op_sizes :: "(string \<times> spec) list"
  op_golden :: "string \<rightharpoonup> string"
  op_golden_namespace :: string
  op_golden_size :: string

datatype file_read = Content string | Not_there | Unreadable_file

datatype op_error = Cannot_read | Cannot_parse | Bad_sizes size_error | Bad_template | No_manager

definition empty_op_config :: op_config where
  "empty_op_config =
     \<lparr>op_provider = [], op_sizes = [], op_golden = Map.empty, op_golden_namespace = [], op_golden_size = []\<rparr>"

definition Load :: "(string \<Rightarrow> file_read) \<Rightarrow> (string \<Rightarrow> op_config option) \<Rightarrow> string \<Rightarrow> op_error + op_config" where
  "Load read parse path =
     (if path = [] then Inr empty_op_config
      else (case read path of
              Unreadable_file \<Rightarrow> Inl Cannot_read
            | Not_there \<Rightarrow> Inr empty_op_config
            | Content t \<Rightarrow> (case parse t of None \<Rightarrow> Inl Cannot_parse | Some c \<Rightarrow> Inr c)))"

record op_settings =
  os_vm_namespace :: string
  os_server_namespace :: string
  os_storage_class :: string
  os_sizes :: "string \<rightharpoonup> spec"
  os_config :: op_config

definition operator_main ::
  "environ \<Rightarrow> (string \<Rightarrow> file_read) \<Rightarrow> (string \<Rightarrow> op_config option) \<Rightarrow> bool \<Rightarrow> bool \<Rightarrow> op_error + op_settings" where
  "operator_main e read parse template_ok manager_ok =
     (case Load read parse (e ''OPERATOR_CONFIG'') of
        Inl x \<Rightarrow> Inl x
      | Inr c \<Rightarrow>
          (case size_overrides (op_sizes c) of
             Inl x \<Rightarrow> Inl (Bad_sizes x)
           | Inr sz \<Rightarrow>
               (if \<not> template_ok then Inl Bad_template
                else if \<not> manager_ok then Inl No_manager
                else Inr \<lparr>os_vm_namespace = envOr e ''VM_NAMESPACE'' ''uds-lab-vms'',
                          os_server_namespace = envOr e ''SERVER_NAMESPACE'' ''uds-lab-platform'',
                          os_storage_class = e ''STORAGE_CLASS'', os_sizes = sz, os_config = c\<rparr>)))"

text \<open>The configuration the provider gets; loading, rendering and quantities come with \<open>b\<close>.\<close>

definition provider_config :: "op_settings \<Rightarrow> config \<Rightarrow> config" where
  "provider_config os b =
     b\<lparr>namespace := os_vm_namespace os, server_namespace := os_server_namespace os,
       size_overrides_map := os_sizes os, golden_pvcs := op_golden (os_config os),
       disk_size := op_golden_size (os_config os)\<rparr>"

section \<open>Properties\<close>

text \<open>
  A server that was started outside of the development mode, with a configuration that can be
  read: the administrative endpoints run for a request exactly if its token names the
  configured group, and the demo endpoints refuse everything and change nothing unless the key
  has 32 bytes.
\<close>

theorem started_server_guards:
  assumes "server_main e cluster (Some t) parse = Inr st" "parse t = Some c" "\<not> equal_fold (e ''DEV_MODE'') ''true''"
  shows "requireAE (server_of st b) r h k =
      (if (if ae_group c = [] then ''/UDS Core/Admin'' else ae_group c) \<in> set (groupsFromRequest b r)
       then h k else (Status 403, None, k))"
    and "length (e ''DEMO_TOKEN_HMAC_KEY'') < 32 \<Longrightarrow>
      createDemoToken (server_of st b) (mac_of hm st) r req ns i d = (Demo_error 503, d) \<and>
      startDemoSession (server_of st b) (mac_of hm st) form now i d = (Demo_error 503, d) \<and>
      listDemoTokens (server_of st b) (mac_of hm st) r d = (Demo_error 503, d)"
proof -
  have st: "st_dev st = False" "ae_group (st_config st) = (if ae_group c = [] then ''/UDS Core/Admin'' else ae_group c)"
    using assms by (auto simp: server_main_def Let_def loadConfig_def split: option.splits if_splits)
  have "groupsFromRequest (server_of st b) r = groupsFromRequest b r"
    by (simp add: groupsFromRequest_def groupsFromJWT_def server_of_def split: option.split)
  then show "requireAE (server_of st b) r h k =
      (if (if ae_group c = [] then ''/UDS Core/Admin'' else ae_group c) \<in> set (groupsFromRequest b r)
       then h k else (Status 403, None, k))"
    using st by (auto simp: requireAE_def isAE_def server_of_def list_ex_iff)
  assume "length (e ''DEMO_TOKEN_HMAC_KEY'') < 32"
  then have "mac_of hm st = None"
    using assms(1) by (auto simp: server_main_def Let_def mac_of_def split: option.splits if_splits)
  then show "createDemoToken (server_of st b) (mac_of hm st) r req ns i d = (Demo_error 503, d) \<and>
      startDemoSession (server_of st b) (mac_of hm st) form now i d = (Demo_error 503, d) \<and>
      listDemoTokens (server_of st b) (mac_of hm st) r d = (Demo_error 503, d)"
    by (simp add: createDemoToken_def startDemoSession_def listDemoTokens_def)
qed

text \<open>
  Where the configuration cannot be parsed the group is the empty string, not the default: then a
  token whose list of groups has an empty name is that of an administrator.
\<close>

theorem unparsed_config_admits_empty_group:
  assumes "server_main e cluster (Some t) parse = Inr st" "parse t = None" "[] \<in> set (groupsFromRequest b r)"
  shows "requireAE (server_of st b) r h k = h k"
proof -
  have "ae_group (st_config st) = []"
    using assms(1,2) by (auto simp: server_main_def Let_def loadConfig_def split: option.splits if_splits)
  moreover have "groupsFromRequest (server_of st b) r = groupsFromRequest b r"
    by (simp add: groupsFromRequest_def groupsFromJWT_def server_of_def split: option.split)
  ultimately show ?thesis
    using assms(3) by (auto simp: requireAE_def isAE_def server_of_def list_ex_iff)
qed

text \<open>
  The session time: up to 153722867 minutes the server's time is that of the setting; with one more
  the product of the durations wraps around and is negative. A negative setting is accepted.
\<close>

lemma minutes_exact:
  assumes "- 153722867 \<le> m" "m \<le> 153722867"
  shows "sint (word_of_int m * minute_ns) = m * 60000000000"
proof -
  have eq: "word_of_int m * minute_ns = (word_of_int (m * 60000000000) :: 64 word)"
    by (simp add: minute_ns_def)
  have fits: "signed_take_bit 63 (m * 60000000000) = m * 60000000000"
    using assms by (intro signed_take_bit_int_eq_self) simp_all
  show ?thesis
    unfolding eq by (subst sint_sbintrunc') (use fits in simp)
qed

theorem session_time_of_setting:
  assumes "server_main e cluster file parse = Inr st" "- 153722867 \<le> st_minutes st" "st_minutes st \<le> 153722867"
  shows "ttl (server_of st b) = 60 * st_minutes st \<and> atoi (envOr e ''SESSION_TTL_MINUTES'' ''60'') = Some (st_minutes st)"
proof -
  obtain m where m: "atoi (envOr e ''SESSION_TTL_MINUTES'' ''60'') = Some m" "st_minutes st = m"
      "st_ttl st = word_of_int m * minute_ns"
    using assms(1) by (auto simp: server_main_def Let_def split: option.splits if_splits)
  then have "sint (st_ttl st) = 60 * m * 1000000000"
    using minutes_exact [of m] assms(2,3) by simp
  then show ?thesis
    using m by (simp add: server_of_def)
qed

theorem session_time_wraps:
  "sint (word_of_int 153722868 * minute_ns) < 0"
  by (simp add: minute_ns_def)

text \<open>
  Server and operator with one environment: the namespace of the machines is the same; that of the
  server differs when it is not set, so the network policies of the operator do not name the
  namespace in which the server then looks for its tokens.
\<close>

theorem default_namespaces:
  assumes "server_main e cluster file parse = Inr st" "operator_main e read oparse tok mok = Inr os"
  shows "os_vm_namespace os = st_vm_namespace st"
    and "e ''SERVER_NAMESPACE'' \<noteq> [] \<Longrightarrow> os_server_namespace os = st_namespace st"
    and "e ''SERVER_NAMESPACE'' = [] \<Longrightarrow> e ''VM_NAMESPACE'' = [] \<Longrightarrow> os_server_namespace os \<noteq> st_namespace st"
  using assms
  by (auto simp: server_main_def operator_main_def envOr_def Let_def split: option.splits if_splits sum.splits)

text \<open>
  An operator that was started has a definite spec for every size that a session may have: that of
  its configuration or the default; also where there is no configuration at all.
\<close>

lemma size_overrides_valid: "size_overrides es = Inr m \<Longrightarrow> m n = Some z \<Longrightarrow> valid_size n"
proof (induction es arbitrary: m)
  case (Cons x es)
  obtain k v where x: "x = (k, v)"
    by (cases x)
  show ?case
    using Cons x by (auto split: if_splits sum.splits)
qed simp

theorem started_operator_sizes:
  assumes "operator_main e read parse tok mok = Inr os"
  shows "(resolve_size n (os_sizes os) \<noteq> None) = valid_size n"
proof -
  have "\<exists>es. size_overrides es = Inr (os_sizes os)"
    using assms by (auto simp: operator_main_def split: sum.splits if_splits)
  then have "os_sizes os n \<noteq> None \<Longrightarrow> valid_size n"
    using size_overrides_valid by blast
  then show ?thesis
    by (auto simp: resolve_size_def valid_size_def split: option.split)
qed

end
