(* ===== verification/Lab_Tabs.thy ===== *)
theory Lab_Tabs
  imports Lab_Page
begin

text \<open>
  The terminal tabs of the lab page and the IDE beside them: what every run keeps.
\<close>

section \<open>The tabs\<close>

text \<open>What the tabs and the IDE depend on; most handlers leave it alone.\<close>

definition tab_part :: "lab_page \<Rightarrow> string \<times> page_tab list \<times> nat option \<times> bool \<times> bool \<times> bool \<times> string option \<times> bool" where
  "tab_part s = (SESSION s, tabs s, activeTab s, ideOpen s, ide_shown s, ide_lit s, ide_loaded s, labReady s)"

definition tab_ok :: "bool \<Rightarrow> nat \<Rightarrow> page_tab \<Rightarrow> bool" where
  "tab_ok seen i t \<longleftrightarrow>
     t_label t = i + 1 \<and> t_close t = i \<and> t_click t = i \<and> t_shown t = seen \<and> t_lit t = seen"

definition tabs_wf :: "lab_page \<Rightarrow> bool" where
  "tabs_wf s \<longleftrightarrow>
     length (tabs s) \<le> MAX_TABS \<and>
     (activeTab s = None \<longrightarrow> tabs s = []) \<and> (\<forall>a. activeTab s = Some a \<longrightarrow> a < length (tabs s)) \<and>
     (\<forall>i < length (tabs s). tab_ok (\<not> ideOpen s \<and> activeTab s = Some i) i (tabs s ! i)) \<and>
     (\<forall>i < length (tabs s). 0 < i \<longrightarrow> t_src (tabs s ! i) = ''/t/'' @ SESSION s @ ''/shell/'') \<and>
     ide_shown s = ideOpen s \<and> ide_lit s = ideOpen s \<and>
     (ideOpen s \<longrightarrow> ide_loaded s = Some (''/ide/'' @ SESSION s)) \<and>
     (ide_loaded s \<in> {None, Some (''/ide/'' @ SESSION s)})"

definition tabs_ok :: "lab_page \<Rightarrow> bool" where
  "tabs_ok s \<longleftrightarrow> tabs_wf s \<and> (labReady s \<longrightarrow> tabs s \<noteq> [])"

lemma tabs_wf_frame: "tab_part t = tab_part s \<Longrightarrow> tabs_wf t = tabs_wf s"
  by (simp add: tabs_wf_def tab_part_def del: append_Cons)

lemma tabs_ok_frame: "tab_part t = tab_part s \<Longrightarrow> tabs_ok t = tabs_ok s"
  using tabs_wf_frame [of t s] by (simp add: tabs_ok_def) (simp add: tab_part_def)

lemma length_light [simp]: "length (light a ts) = length ts"
  by (simp add: light_def)

lemma nth_light [simp]: "i < length ts \<Longrightarrow> light a ts ! i = (ts ! i)\<lparr>t_shown := Some i = a, t_lit := Some i = a\<rparr>"
  by (simp add: light_def)

lemma length_renumber [simp]: "length (renumber ts) = length ts"
  by (simp add: renumber_def)

lemma renumber_Nil [simp]: "renumber ts = [] \<longleftrightarrow> ts = []"
  by (metis length_0_conv length_renumber)

lemma nth_renumber [simp]:
  "i < length ts \<Longrightarrow> renumber ts ! i = (ts ! i)\<lparr>t_label := i + 1, t_close := i, t_click := i\<rparr>"
  by (simp add: renumber_def)

lemma light_Nil [simp]: "light a ts = [] \<longleftrightarrow> ts = []"
  by (metis length_0_conv length_light)

text \<open>Frames.\<close>

lemma tab_part_step [simp]: "tab_part (showStep n s) = tab_part s"
proof -
  have "tab_part (step_buttons st b t) = tab_part t" for st b t
    by (simp add: step_buttons_def tab_part_def)
  moreover have "tab_part (updateDots t) = tab_part t" "tab_part (t\<lparr>next_is_finish := b\<rparr>) = tab_part t" for t b
    by (simp_all add: updateDots_def tab_part_def)
  ultimately show ?thesis
    by (simp add: showStep_def Let_def) (simp add: tab_part_def)
qed

lemma tab_part_end [simp]:
  "tab_part (endLab s) = tab_part s" "tab_part (pauseLab s) = tab_part s" "tab_part (resumeLab s) = tab_part s"
  by (simp_all add: endLab_def pauseLab_def resumeLab_def clear_intervals_def ask_def tab_part_def)

lemma tab_part_timer [simp]: "tab_part (timerTick now s) = tab_part s"
  by (simp add: timerTick_def Let_def split: option.split) (simp add: tab_part_def)

lemma tab_part_services [simp]:
  "tab_part (startServicesPoll s) = tab_part s" "tab_part (fetchServices s) = tab_part s"
  "tab_part (renderServices svs s) = tab_part s" "tab_part (openBrowser s) = tab_part s"
  "tab_part (navigate url s) = tab_part s" "tab_part (toggleServices s) = tab_part s"
  by (simp_all add: startServicesPoll_def fetchServices_def ask_def renderServices_def openBrowser_def
      ensureVNCOpen_def navigate_def toggleServices_def tab_part_def Let_def)

lemma tab_part_check [simp]:
  "tab_part (checkStep s) = tab_part s" "tab_part (check_answered b s) = tab_part s"
  "tab_part (check_reset s) = tab_part s" "tab_part (check_failed s) = tab_part s"
  "tab_part (nextStep s) = tab_part s" "tab_part (prevStep s) = tab_part s"
  by (simp_all add: checkStep_def ask_def check_answered_def check_reset_def check_failed_def nextStep_def
      prevStep_def) (simp_all add: tab_part_def)

lemma tab_part_session [simp]:
  "tab_part (init_answered sc s) = tab_part s"
  "tab_part (answered i s) = tab_part s" "tab_part (verify_answered i n b s) = tab_part s"
  "tab_part (startTimer now s) = tab_part s" "tab_part (ask r s) = tab_part s" "tab_part (tell r s) = tab_part s"
proof -
  show "tab_part (init_answered sc s) = tab_part s"
  proof -
    have "tab_part (t\<lparr>polling := True\<rparr>) = tab_part t" for t
      by (simp add: tab_part_def)
    moreover have "tab_part (renderDots (s\<lparr>steps := x\<rparr>)) = tab_part s" for x
      by (simp add: tab_part_def renderDots_def)
    ultimately show ?thesis
      by (simp add: init_answered_def Let_def)
  qed
  show "tab_part (startTimer now s) = tab_part s"
    using tab_part_timer [of now s] by (simp add: startTimer_def tab_part_def)
  show "tab_part (verify_answered i n b s) = tab_part s"
    by (simp add: verify_answered_def) (simp add: tab_part_def answered_def)
qed (simp_all add: answered_def ask_def tell_def tab_part_def)

text \<open>The operations on tabs.\<close>

lemma tabs_wf_switch: "tabs_wf s \<Longrightarrow> i < length (tabs s) \<Longrightarrow> tabs_wf (switchTab i s)"
  by (auto simp: tabs_wf_def switchTab_def tab_ok_def Let_def)

lemma tabs_wf_add: "tabs_wf s \<Longrightarrow> tabs_wf (addTab s)"
  by (auto simp: tabs_wf_def addTab_def switchTab_def tab_ok_def Let_def nth_append new_tab_def terminal_src_def
      less_Suc_eq split: option.splits)

lemma nth_remove_at: "i < length xs \<Longrightarrow> j < length xs - 1 \<Longrightarrow>
    remove_at i xs ! j = (if j < i then xs ! j else xs ! Suc j)"
  by (auto simp: remove_at_def nth_append min_def)

lemma tabs_wf_close: "tabs_wf s \<Longrightarrow> tabs_wf (closeTab i s)"
proof (cases "length (tabs s) = 1 \<or> i \<ge> length (tabs s)")
  case False
  then have i: "i < length (tabs s)" "length (tabs s) > 1"
    by auto
  assume "tabs_wf s"
  with i show ?thesis
    by (auto simp: tabs_wf_def closeTab_def switchTab_def tab_ok_def Let_def nth_remove_at length_remove_at min_def)
qed (auto simp: closeTab_def)

lemma tabs_wf_ide: "tabs_wf s \<Longrightarrow> tabs_wf (toggleIDE s)"
  by (auto simp: tabs_wf_def toggleIDE_def switchTab_def tab_ok_def Let_def split: option.splits)

lemma tabs_addTab: "tabs (addTab s) \<noteq> []"
  by (auto simp: addTab_def switchTab_def Let_def MAX_TABS_def)

lemma tabs_closeTab: "tabs s \<noteq> [] \<Longrightarrow> tabs (closeTab i s) \<noteq> []"
proof (cases "length (tabs s) = 1 \<or> i \<ge> length (tabs s)")
  case False
  then have "length (renumber (remove_at i (tabs s))) \<noteq> 0"
    by (simp add: length_remove_at)
  then show ?thesis
    using False by (simp add: closeTab_def switchTab_def Let_def)
qed (auto simp: closeTab_def)

lemma tabs_ok_ops:
  "tabs_ok s \<Longrightarrow> i < length (tabs s) \<Longrightarrow> tabs_ok (switchTab i s)" "tabs_ok s \<Longrightarrow> tabs_ok (addTab s)"
  "tabs_ok s \<Longrightarrow> tabs_ok (closeTab j s)" "tabs_ok s \<Longrightarrow> tabs_ok (toggleIDE s)"
proof -
  show "tabs_ok s \<Longrightarrow> i < length (tabs s) \<Longrightarrow> tabs_ok (switchTab i s)"
    using tabs_wf_switch [of s i] by (auto simp: tabs_ok_def switchTab_def Let_def)
  show "tabs_ok s \<Longrightarrow> tabs_ok (addTab s)"
    by (simp add: tabs_ok_def tabs_wf_add tabs_addTab)
  show "tabs_ok s \<Longrightarrow> tabs_ok (toggleIDE s)"
    using tabs_wf_ide [of s] by (auto simp: tabs_ok_def toggleIDE_def switchTab_def Let_def split: option.splits)
  have "labReady (closeTab j s) = labReady s"
    by (simp add: closeTab_def switchTab_def Let_def)
  then show "tabs_ok s \<Longrightarrow> tabs_ok (closeTab j s)"
    by (simp add: tabs_ok_def tabs_wf_close tabs_closeTab)
qed

lemma tabs_ok_ready: "tabs_ok s \<Longrightarrow> tabs_ok (on_ready sess s)"
proof -
  assume s: "tabs_ok s"
  define s1 where "s1 = s\<lparr>polling := False, labReady := True, locked := False, loading_hidden := True,
      terminal := Connected, add_disabled := False, ide_disabled := False,
      browser_shown := browser_shown s \<or> s_browserEnabled sess, resume_shown := False\<rparr>"
  have "tabs_wf s1"
    using s by (simp add: s1_def tabs_ok_def tabs_wf_def del: append_Cons)
  then have "tabs_wf (showStep (int (currentStep s1)) s1)"
    using tabs_wf_frame [OF tab_part_step] by blast
  then have "tabs_ok (addTab (showStep (int (currentStep s1)) s1))"
    by (simp add: tabs_ok_def tabs_wf_add tabs_addTab)
  then show ?thesis
    using tabs_ok_frame [OF tab_part_services(1)] by (simp add: on_ready_def Let_def flip: s1_def)
qed

lemma tabs_ok_paused: "tabs_ok s \<Longrightarrow> tabs_ok (on_paused s)"
  by (simp add: tabs_ok_def tabs_wf_def on_paused_def del: append_Cons)

lemma tabs_ok_polled: "tabs_ok s \<Longrightarrow> tabs_ok (polled a now s)"
proof (cases a)
  case (Some sess)
  define s1 where "s1 = (if page_expires s = None
      then startTimer now (s\<lparr>page_expires := Some (date_ms (s_expiresAt sess))\<rparr>) else s)"
  have "tab_part s1 = tab_part s"
    by (simp add: s1_def) (simp add: tab_part_def)
  moreover assume "tabs_ok s"
  ultimately have "tabs_ok s1" "tabs_ok (s1\<lparr>long_wait := True\<rparr>)"
    using tabs_ok_frame [of s1 s] tabs_ok_frame [of "s1\<lparr>long_wait := True\<rparr>" s]
    by (simp_all add: tab_part_def)
  then show ?thesis
    using Some tabs_ok_ready tabs_ok_paused by (simp add: polled_def flip: s1_def)
next
  case None
  assume "tabs_ok s"
  moreover have "tab_part (s\<lparr>polling := False\<rparr>) = tab_part s"
    by (simp add: tab_part_def)
  ultimately show ?thesis
    using None tabs_ok_frame [of "s\<lparr>polling := False\<rparr>" s] by (simp add: polled_def)
qed

lemma tabs_ok_code: "tabs_ok s \<Longrightarrow> tabs_ok (code_click code s)"
proof (cases "labReady s")
  case True
  assume s: "tabs_ok s"
  with True have "tabs_ok (if activeTab s \<noteq> Some 0 then switchTab 0 s else s)"
    using tabs_ok_ops(1) [of s 0] by (auto simp: tabs_ok_def)
  then show ?thesis
    using s tabs_ok_frame [OF tab_part_session(6)] by (simp add: code_click_def Let_def)
qed (simp add: code_click_def)

lemma tab_part_fields [simp]:
  "tab_part (s\<lparr>confirm_shown := b\<rparr>) = tab_part s" "tab_part (s\<lparr>completion_shown := b\<rparr>) = tab_part s"
  "tab_part (s\<lparr>vnc_open := b\<rparr>) = tab_part s" "tab_part (s\<lparr>left_page := b\<rparr>) = tab_part s"
  "tab_part (s\<lparr>terminal := x\<rparr>) = tab_part s" "tab_part (s\<lparr>reset_timers := n\<rparr>) = tab_part s"
  "tab_part (s\<lparr>nav_timers := ns\<rparr>) = tab_part s"
  "tab_part (confirm_shown_update f s) = tab_part s" "tab_part (completion_shown_update f s) = tab_part s"
  by (simp_all add: tab_part_def)

lemmas tabs_ok_frames =
  tab_part_fields tab_part_end tab_part_timer tab_part_services tab_part_check tab_part_session tab_part_step

lemma tabs_ok_nth: "tabs_ok s \<Longrightarrow> i < length (tabs s) \<Longrightarrow> t_click (tabs s ! i) = i \<and> t_close (tabs s ! i) = i"
  by (simp add: tabs_ok_def tabs_wf_def tab_ok_def)

lemmas tabs_ok_kept = tabs_ok_frames [THEN tabs_ok_frame]

lemma tabs_ok_answer: "tabs_ok s \<Longrightarrow> tabs_ok (on_answer s e)"
  by (cases e) (simp_all add: on_answer_def enabled_def tabs_ok_polled tabs_ok_kept split: option.split page_request.split)

lemma tabs_ok_timer: "tabs_ok s \<Longrightarrow> tabs_ok (on_timer s e)"
  by (cases e) (simp_all add: on_timer_def enabled_def tabs_ok_kept)

lemma tabs_ok_click: "tabs_ok s \<Longrightarrow> tabs_ok (on_click s e)"
  by (cases e) (simp_all add: on_click_def enabled_def tabs_ok_kept tabs_ok_ops tabs_ok_code tabs_ok_nth)

lemma tabs_ok_event: "tabs_ok s \<Longrightarrow> tabs_ok (page_step s e)"
  by (simp add: page_step_def tabs_ok_answer tabs_ok_timer tabs_ok_click)

interpretation page_tabs: guarded_machine page_step "\<lambda>_ _. True" tabs_ok
  by unfold_locales (rule tabs_ok_event)

lemma tabs_ok_open: "tabs_ok (open_page i)"
  by (simp add: tabs_ok_def tabs_wf_def open_page_def)

lemma filter_none: "(\<And>i. i < length xs \<Longrightarrow> \<not> P (xs ! i)) \<Longrightarrow> filter P xs = []"
  unfolding filter_empty_conv by (metis in_set_conv_nth)

lemma filter_one:
  "a < length xs \<Longrightarrow> (\<And>i. i < length xs \<Longrightarrow> P (xs ! i) \<longleftrightarrow> i = a) \<Longrightarrow> filter P xs = [xs ! a]"
proof (induction xs arbitrary: a)
  case (Cons x xs)
  have "P x \<longleftrightarrow> a = 0" "P (xs ! i) \<longleftrightarrow> Suc i = a" if "i < length xs" for i
    using that Cons.prems(2) [of 0] Cons.prems(2) [of "Suc i"] by auto
  moreover have "P x \<longleftrightarrow> a = 0"
    using Cons.prems(2) [of 0] by auto
  ultimately show ?case
    using Cons.IH [of "a - 1"] Cons.prems(1) filter_none [of xs P] by (cases a) auto
qed simp

lemma tabs_lit_once:
  assumes "tabs_ok s"
  shows "filter t_shown (tabs s) = (if ideOpen s \<or> tabs s = [] then [] else [tabs s ! the (activeTab s)])"
    and "filter t_lit (tabs s) = filter t_shown (tabs s)"
proof -
  have seen: "t_shown (tabs s ! i) \<longleftrightarrow> \<not> ideOpen s \<and> activeTab s = Some i"
    "t_lit (tabs s ! i) = t_shown (tabs s ! i)" if "i < length (tabs s)" for i
    using assms that by (auto simp: tabs_ok_def tabs_wf_def tab_ok_def)
  show "filter t_shown (tabs s) = (if ideOpen s \<or> tabs s = [] then [] else [tabs s ! the (activeTab s)])"
  proof (cases "ideOpen s \<or> tabs s = []")
    case True
    then have "filter t_shown (tabs s) = []"
      using seen(1) by (intro filter_none) auto
    then show ?thesis
      using True by simp
  next
    case False
    then obtain a where "activeTab s = Some a" "a < length (tabs s)"
      using assms unfolding tabs_ok_def tabs_wf_def by (elim conjE) (cases "activeTab s"; blast)
    moreover from this have "filter t_shown (tabs s) = [tabs s ! a]"
      using False seen(1) by (intro filter_one) auto
    ultimately show ?thesis
      using False by simp
  qed
  show "filter t_lit (tabs s) = filter t_shown (tabs s)"
    using seen(2) by (intro filter_cong) (auto simp: in_set_conv_nth)
qed

text \<open>
  C15: Whatever the user clicks and however the answers and timers fall: the page has at most
  four tabs, labelled in order; the buttons of a tab act on that very tab; exactly the active
  one is shown and lit, none while the IDE is open, and the IDE is shown only then. A page that
  is connected has a tab.
\<close>

theorem tabs_stay_consistent:
  "let s = page_run session es in
     length (tabs s) \<le> 4 \<and>
     list_all2 (\<lambda>t i. t_label t = i + 1 \<and> t_close t = i \<and> t_click t = i) (tabs s) [0..<length (tabs s)] \<and>
     filter t_shown (tabs s) = (if ideOpen s \<or> tabs s = [] then [] else [tabs s ! the (activeTab s)]) \<and>
     filter t_lit (tabs s) = filter t_shown (tabs s) \<and>
     ide_shown s = ideOpen s \<and> labReady s \<le> (tabs s \<noteq> [])"
proof -
  have "tabs_ok (page_run session es)"
    using page_tabs.run_inv [OF tabs_ok_open] by simp
  then show ?thesis
    using tabs_lit_once [of "page_run session es"]
    by (simp add: Let_def list_all2_conv_all_nth) (simp add: tabs_ok_def tabs_wf_def tab_ok_def MAX_TABS_def)
qed

section \<open>The setup terminal\<close>

text \<open>
  Only the first tab is the terminal of the setup, the one that clicks on code are sent to. Once
  that tab was closed no tab is it again.
\<close>

lemma SESSION_frame: "tab_part t = tab_part s \<Longrightarrow> SESSION t = SESSION s"
  by (simp add: tab_part_def)

lemma SESSION_tabs [simp]:
  "SESSION (switchTab i s) = SESSION s" "SESSION (addTab s) = SESSION s" "SESSION (closeTab i s) = SESSION s"
  "SESSION (toggleIDE s) = SESSION s" "SESSION (code_click c s) = SESSION s"
  by (simp_all add: switchTab_def addTab_def closeTab_def toggleIDE_def code_click_def tell_def Let_def
      split: option.split)

lemmas SESSION_kept [simp] = tabs_ok_frames [THEN SESSION_frame]

lemma SESSION_polled [simp]: "SESSION (polled a now s) = SESSION s"
proof -
  have "SESSION (on_ready sess t) = SESSION t" for sess t
    by (simp add: on_ready_def Let_def)
  moreover have "SESSION (on_paused t) = SESSION t" for t
    by (simp add: on_paused_def)
  ultimately show ?thesis
    by (simp add: polled_def Let_def split: option.split)
qed

lemma SESSION_step [simp]: "SESSION (page_step s e) = SESSION s"
proof -
  have "SESSION (on_answer s e) = SESSION s" for s
    by (cases e) (simp_all add: on_answer_def enabled_def split: option.split page_request.split)
  moreover have "SESSION (on_timer s e) = SESSION s" for s
    by (cases e) (simp_all add: on_timer_def enabled_def)
  moreover have "SESSION (on_click s e) = SESSION s" for s
    by (cases e) (simp_all add: on_click_def enabled_def)
  ultimately show ?thesis
    by (simp add: page_step_def)
qed

lemma SESSION_run: "SESSION (foldl page_step s es) = SESSION s"
  by (induction es arbitrary: s) simp_all

end
