(* ===== verification/Server_Runs.thy ===== *)
theory Server_Runs
  imports Demo_Tokens
begin

text \<open>
  The server as a machine: requests of any users in any order, one at a time, and between them
  the operator, which writes statuses and finalizers. The invariant of its resources is the
  contract that the handlers and the operator rely on.
\<close>

section \<open>The machine\<close>

datatype srv_event =
    On_session http_request string route
  | Create_session http_request "string option" string string int
  | My_session http_request string
  | Demo_visit "(string \<times> string) option" int string
  | Demo_token http_request "(string \<times> int) option" int string
  | Demo_list http_request
  | Admin_delete http_request string int
  | Admin_list http_request
  | Operator_status string lab_status
  | Operator_finalizers string "string list"

definition on_sessions :: "handler \<Rightarrow> demo_state \<Rightarrow> demo_state" where
  "on_sessions h d = d\<lparr>dk := snd (snd (h (dk d)))\<rparr>"

definition for_admin ::
  "server \<Rightarrow> http_request \<Rightarrow> (demo_state \<Rightarrow> demo_reply \<times> demo_state) \<Rightarrow> demo_state \<Rightarrow> demo_state" where
  "for_admin s r h d =
     (if \<not> isAE s (groupsFromRequest s r) (authedEmail s r) then d else snd (h d))"

definition srv_step :: "server \<Rightarrow> (string \<Rightarrow> string) option \<Rightarrow> demo_state \<Rightarrow> srv_event \<Rightarrow> demo_state" where
  "srv_step s mac d ev =
     (case ev of
        On_session r i rt \<Rightarrow> on_sessions (serve s r i rt) d
      | Create_session r sid i j now \<Rightarrow> on_sessions (createSession s r sid i j now) d
      | My_session r j \<Rightarrow> on_sessions (getMySession s r j) d
      | Demo_visit req now i \<Rightarrow> snd (startDemoSession s mac req now i d)
      | Demo_token r req now_ns i \<Rightarrow> for_admin s r (createDemoToken s mac r req now_ns i) d
      | Demo_list r \<Rightarrow> for_admin s r (listDemoTokens s mac r) d
      | Admin_delete r i now \<Rightarrow> on_sessions (requireAE s r (adminDeleteSession i now)) d
      | Admin_list r \<Rightarrow> on_sessions (requireAE s r adminListSessions) d
      | Operator_status n st \<Rightarrow> d\<lparr>dk := snd (cr_patch n (ls_status_update (\<lambda>_. st)) (dk d))\<rparr>
      | Operator_finalizers n fs \<Rightarrow> d\<lparr>dk := snd (cr_patch n (ls_finalizers_update (\<lambda>_. fs)) (dk d))\<rparr>)"

text \<open>The operator gives no finished session an active phase again.\<close>

definition srv_guard :: "demo_state \<Rightarrow> srv_event \<Rightarrow> bool" where
  "srv_guard d ev =
     (case ev of
        Operator_status n st \<Rightarrow>
          (active_phase (ph st) \<longrightarrow>
             list_all (\<lambda>l. ls_name l = n \<longrightarrow> active_phase (ph (ls_status l))) (crs (dk d)))
      | _ \<Rightarrow> True)"

definition sound :: "demo_state \<Rightarrow> bool" where
  "sound d \<longleftrightarrow> none_gone (dk d) \<and> labelled (dk d) \<and> one_active (dk d)"

section \<open>The invariant\<close>

lemma sound_crs: "crs (dk d') = crs (dk d) \<Longrightarrow> sound d' = sound d"
  using one_active_crs [of "dk d'" "dk d"] by (simp add: sound_def none_gone_def labelled_def)

lemma one_active_ident:
  assumes "map ident (crs k') = map ident (crs k)"
  shows "one_active k' = one_active k"
proof -
  define P where "P = (\<lambda>c (n :: string, m :: string \<rightharpoonup> string, i :: string, cl :: string, e :: string, sc :: string, p).
    m client_label = Some c \<and> active_phase p)"
  have n: "length (actives c k) = length (filter (P c) (map ident (crs k)))" for c k
    by (simp add: actives_def filter_map comp_def P_def ident_def of_client_def)
  have "length (actives c k') = length (actives c k)" for c
    unfolding n assms by (rule refl)
  then show ?thesis
    by (simp add: one_active_def)
qed

text \<open>A patch leaves no resource that is gone.\<close>

lemma none_gone_patch: "none_gone k \<Longrightarrow> none_gone (snd (cr_patch n f k))"
  using crs_patch [of n f k] by (auto simp: none_gone_def list_all_iff)

lemma none_gone_get_then:
  "none_gone k \<Longrightarrow> (\<And>l k. none_gone k \<Longrightarrow> none_gone (snd (h l k))) \<Longrightarrow> none_gone (snd (get_then i h k))"
  by (auto simp: get_then_def none_gone_def split: prod.split sum.split dest!: crs_get)

lemma none_gone_requests:
  assumes "none_gone k"
  shows "none_gone (snd (Expire i now k))" "none_gone (snd (Pause i k))" "none_gone (snd (Resume i k))"
    "none_gone (snd (MarkStepComplete i st now k))"
  unfolding Expire_def Pause_def Resume_def MarkStepComplete_def
  by (rule none_gone_get_then [OF assms]; simp add: mark_after_read_def none_gone_patch)+

text \<open>Requests about a session.\<close>

lemma none_gone_same: "crs k' = crs k \<Longrightarrow> none_gone k' = none_gone k"
  by (simp add: none_gone_def)

definition keeps_gone :: "handler \<Rightarrow> bool" where
  "keeps_gone h \<longleftrightarrow> (\<forall>k. none_gone k \<longrightarrow> none_gone (snd (snd (h k))))"

lemma keeps_gone_same: "(\<And>k. snd (snd (h k)) = k) \<Longrightarrow> keeps_gone h"
  by (simp add: keeps_gone_def)

lemma keeps_gone_checked: "keeps_gone h \<Longrightarrow> keeps_gone (checked b n h)"
  by (simp add: keeps_gone_def checked_def)

lemma keeps_gone_changing: "(\<And>k. none_gone k \<Longrightarrow> none_gone (snd (m k))) \<Longrightarrow> keeps_gone (changing m)"
  unfolding keeps_gone_def changing_def by (simp add: split_beta split: sum.split)

lemma keeps_gone_verify: "keeps_gone (verify_body s i st now sess)"
  unfolding verify_body_def
  by (intro keeps_gone_checked)
    (simp add: keeps_gone_def Let_def none_gone_requests split: verify_answer.split)

lemma keeps_gone_body: "keeps_gone (body_of s i rt sess)"
  by (cases rt)
    (simp_all add: body_of_def keeps_gone_verify keeps_gone_changing none_gone_requests keeps_gone_checked
      keeps_gone_same same_post proxied_def services_body_def Let_def)

lemma serve_none_gone:
  assumes "none_gone k"
  shows "none_gone (snd (snd (serve s r i rt k)))"
proof -
  obtain rep c k' where k': "serve s r i rt k = (rep, c, k')"
    by (cases "serve s r i rt k") auto
  from this [unfolded serve_body] show ?thesis
  proof (cases rule: owned_session_cases)
    case 1
    then show ?thesis
      using assms k' by (simp add: none_gone_def)
  next
    case (2 l k1)
    then have "none_gone k1"
      using assms by (simp add: none_gone_def)
    then show ?thesis
      using 2(5) keeps_gone_body [of s i rt "lsToSession l"] k' by (auto simp: keeps_gone_def)
  qed
qed

lemma sound_serve: "sound d \<Longrightarrow> sound (on_sessions (serve s r i rt) d)"
proof -
  assume s: "sound d"
  obtain rep c k' where k': "serve s r i rt (dk d) = (rep, c, k')"
    by (cases "serve s r i rt (dk d)") auto
  have ids: "map ident (crs k') = map ident (crs (dk d))"
    using s serve_cases [OF _ k'] by (simp add: sound_def)
  show ?thesis
    using s k' serve_none_gone [of "dk d" s r i rt] labelled_ident [OF ids] one_active_ident [OF ids]
    by (simp add: sound_def on_sessions_def)
qed

text \<open>New sessions.\<close>

lemma sound_Create:
  assumes "sound d" and "list_all (\<lambda>m. m client_label = None) xs"
  shows "sound (d\<lparr>dk := snd (Create ld t c sid e xs i now (dk d))\<rparr>)"
proof -
  let ?k = "snd (Create ld t c sid e xs i now (dk d))"
  have "crs ?k = crs (dk d) \<or> (\<exists>sz b. crs ?k = crs (dk d) @ [new_session c sid e xs i now t sz b])"
  proof (cases rule: create_check_cases [of c "dk d"])
    case (1 x k1)
    then show ?thesis
      by (simp add: Create_def)
  next
    case (2 k1)
    then show ?thesis
      using create_commit_crs [of ld t c sid e xs i now k1] by (simp add: Create_def)
  qed
  moreover have "ls_labels (new_session c sid e xs i now t sz b) client_label = Some c" for sz b
    using label_of_extras [OF assms(2)] by (simp add: new_session_def)
  ultimately have "none_gone ?k \<and> labelled ?k"
    using assms(1) by (auto simp: sound_def none_gone_def labelled_def gone_def new_session_def)
  then show ?thesis
    using assms Create_one_active by (simp add: sound_def)
qed

lemma sound_createSession: "sound d \<Longrightarrow> sound (on_sessions (createSession s r sid i j now) d)"
proof -
  assume s: "sound d"
  have "snd (snd (createSession s r sid i j now (dk d))) =
      (case sid of None \<Rightarrow> dk d | Some x \<Rightarrow>
         if x = [] then dk d
         else snd (Create (load s) (ttl s) (client_of s r j) x (authedEmail s r) [] i now (dk d)))"
    by (auto simp: createSession_def split: option.split prod.split sum.split mgr_error.split)
  then show ?thesis
    using s sound_Create [OF s, of "[]"] by (auto simp: on_sessions_def split: option.split)
qed

lemma GetActive_crs: "GetActive c k = (x, k1) \<Longrightarrow> crs k1 = crs k"
  by (auto simp: GetActive_def crs_list split: prod.splits sum.splits)

lemma demo_session_crs:
  "crs (dk (snd (demo_session s c email now i d))) =
   crs (snd (Create (load s) (ttl s) (demoClientID s (dc_token c) email) (dc_scenario c) email
              [demo_labels (dc_token c)] i now (dk d)))"
  by (auto simp: demo_session_def Let_def patchDemoToken_crs GetActive_crs
      split: prod.split sum.split mgr_error.split option.split)

lemma sound_demo_session: "sound d \<Longrightarrow> sound (snd (demo_session s c email now i d))"
proof -
  assume s: "sound d"
  let ?d = "d\<lparr>dk := snd (Create (load s) (ttl s) (demoClientID s (dc_token c) email) (dc_scenario c) email
              [demo_labels (dc_token c)] i now (dk d))\<rparr>"
  have "sound ?d"
    using sound_Create [OF s] by (simp add: client_label_demo)
  then show ?thesis
    using sound_crs [of "snd (demo_session s c email now i d)" ?d] by (simp add: demo_session_crs)
qed

lemma sound_startDemoSession: "sound d \<Longrightarrow> sound (snd (startDemoSession s mac req now i d))"
  by (auto simp: startDemoSession_def sound_demo_session split: option.split sum.split token_error.split)

text \<open>Handlers that leave the sessions alone.\<close>

lemma demo_api_crs: "demo_api d = (b, d1) \<Longrightarrow> crs (dk d1) = crs (dk d)"
  by (auto simp: demo_api_def api_call_crs split: prod.splits)

lemma readTokenStore_crs: "readTokenStore d = (x, d1) \<Longrightarrow> crs (dk d1) = crs (dk d)"
  by (auto simp: readTokenStore_def demo_api_crs split: prod.splits if_splits option.splits)

lemma patch_store_crs: "patch_store i rec d = (x, d1) \<Longrightarrow> crs (dk d1) = crs (dk d)"
  by (auto simp: patch_store_def demo_api_crs split: prod.splits if_splits option.splits)

lemma writeTokenRecord_crs: "writeTokenRecord i rec d = (x, d1) \<Longrightarrow> crs (dk d1) = crs (dk d)"
  by (auto simp: writeTokenRecord_def demo_api_crs patch_store_crs split: prod.splits if_splits option.splits)

lemma createDemoToken_crs: "crs (dk (snd (createDemoToken s mac r req now_ns i d))) = crs (dk d)"
  by (auto simp: createDemoToken_def Let_def writeTokenRecord_crs split: option.split prod.split sum.split)

lemma All_sessions_crs: "All_sessions k = (ss, k1) \<Longrightarrow> crs k1 = crs k"
  by (auto simp: All_sessions_def crs_list split: prod.splits sum.splits)

lemma listDemoTokens_crs: "crs (dk (snd (listDemoTokens s mac r d))) = crs (dk d)"
proof -
  obtain res d1 where d1: "readTokenStore d = (res, d1)"
    by (cases "readTokenStore d") auto
  obtain ss k1 where k1: "All_sessions (dk d1) = (ss, k1)"
    by (cases "All_sessions (dk d1)") auto
  show ?thesis
    using readTokenStore_crs [OF d1] All_sessions_crs [OF k1]
    by (auto simp: listDemoTokens_def Let_def d1 k1 split: option.split sum.split api_error.split)
qed

lemma adminListSessions_crs: "crs (dk (d\<lparr>dk := snd (snd (adminListSessions (dk d)))\<rparr>)) = crs (dk d)"
  by (cases "All_sessions (dk d)") (simp add: adminListSessions_def All_sessions_crs)

lemma getMySession_crs: "crs (dk (on_sessions (getMySession s r j) d)) = crs (dk d)"
  by (cases "GetActive (client_of s r j) (dk d)")
    (simp add: on_sessions_def getMySession_def GetActive_crs split: option.split)

text \<open>The operator.\<close>

lemma sound_patch:
  assumes "sound d" and "\<And>l. ls_name (f l) = ls_name l \<and> ls_labels (f l) = ls_labels l \<and> ls_spec (f l) = ls_spec l"
    and "\<And>l. l \<in> set (crs (dk d)) \<Longrightarrow> ls_name l = n \<Longrightarrow> active_phase (ph (ls_status (f l))) \<Longrightarrow>
      active_phase (ph (ls_status l))"
  shows "sound (d\<lparr>dk := snd (cr_patch n f (dk d))\<rparr>)"
proof -
  have "labelled (snd (cr_patch n f (dk d)))"
    using assms(1,2) crs_patch [of n f "dk d"] by (auto simp: sound_def labelled_def list_all_iff)
  then show ?thesis
    using assms none_gone_patch patch_one_active [of "dk d" n f] by (simp add: sound_def)
qed

lemma srv_step_sound: "sound d \<Longrightarrow> srv_guard d ev \<Longrightarrow> sound (srv_step s mac d ev)"
proof (cases ev)
  case (Admin_delete r i now)
  have "none_gone (snd (Expire i now k))" "map ident (crs (snd (Expire i now k))) = map ident (crs k)"
    if "none_gone k" for k
    using that none_gone_requests(1) manager_only_touches(1) [of i now] by (auto simp: only_touches_def)
  moreover assume "sound d"
  ultimately have "sound (on_sessions (adminDeleteSession i now) d)"
    using labelled_ident [of "snd (Expire i now (dk d))" "dk d"] one_active_ident [of "snd (Expire i now (dk d))" "dk d"]
    by (simp add: on_sessions_def adminDeleteSession_def changing_def sound_def split_beta split: sum.split)
  then show ?thesis
    using \<open>sound d\<close> Admin_delete by (simp add: srv_step_def on_sessions_def requireAE_def)
next
  case (Admin_list r)
  assume "sound d"
  then show ?thesis
    using Admin_list sound_crs [OF adminListSessions_crs] by (simp add: srv_step_def on_sessions_def requireAE_def)
next
  case (My_session r j)
  assume "sound d"
  then show ?thesis
    using My_session sound_crs [OF getMySession_crs] by (simp add: srv_step_def)
next
  case (Demo_token r req now_ns i)
  assume "sound d"
  then show ?thesis
    using Demo_token sound_crs [OF createDemoToken_crs] by (simp add: srv_step_def for_admin_def)
next
  case (Demo_list r)
  assume "sound d"
  then show ?thesis
    using Demo_list sound_crs [OF listDemoTokens_crs] by (simp add: srv_step_def for_admin_def)
next
  case (Operator_status n st)
  assume "sound d" "srv_guard d ev"
  then show ?thesis
    using Operator_status sound_patch [of d "ls_status_update (\<lambda>_. st)" n]
    by (simp add: srv_step_def srv_guard_def list_all_iff)
next
  case (Operator_finalizers n fs)
  assume "sound d"
  then show ?thesis
    using Operator_finalizers sound_patch [of d "ls_finalizers_update (\<lambda>_. fs)" n] by (simp add: srv_step_def)
qed (simp_all add: srv_step_def sound_serve sound_createSession sound_startDemoSession)

interpretation server_runs: guarded_machine "srv_step s mac" srv_guard sound for s mac
  by unfold_locales (rule srv_step_sound)

definition no_sessions :: "bool list \<Rightarrow> demo_state" where
  "no_sessions fs = \<lparr>dk = \<lparr>crs = [], faults = fs\<rparr>, store = None\<rparr>"



end
