(* ===== verification/Lab_Runs.thy ===== *)
theory Lab_Runs
  imports Lab_Steps Lab_Tabs Routes Server_Runs
begin

text \<open>
  How the lab page follows and ends its session, with sample runs and the way from the page to
  the terminal of the VM.
\<close>

section \<open>A sample lab\<close>

definition sample_lab :: scenario where
  "sample_lab =
     \<lparr>sc_id = ''a'', sc_title = ''A'', sc_description = [], sc_duration = 0, sc_difficulty = [],
      sc_steps =
        [\<lparr>step_title = ''One'', step_file = [], step_verify = ''v'', step_content = [], has_verify = True\<rparr>,
         \<lparr>step_title = ''Two'', step_file = [], step_verify = ''w'', step_content = [], has_verify = True\<rparr>],
      sc_browser = False, sc_playground = False, sc_image = [], sc_size = []\<rparr>"

definition sample_session :: "status \<Rightarrow> session" where
  "sample_session st =
     \<lparr>s_id = ''i'', s_scenario = ''a'', s_userEmail = ''u'', s_clientID = ''c'', s_serviceDNS = ''d'',
      s_status = st, s_paused = False, s_browserEnabled = False, s_sessionType = [],
      s_aeToken = [], s_createdAt = 0, s_expiresAt = Some 9, s_completedSteps = []\<rparr>"

definition sample_start :: "page_event list" where
  "sample_start = [Scenario_answer 0 sample_lab, Poll_tick, Session_answer 0 (Some (sample_session Status_ready)) 0]"

lemmas page_eval =
  page_step_def on_answer_def on_timer_def on_click_def enabled_def in_flight_def answered_def ask_def tell_def
  init_answered_def renderDots_def showStep_def step_buttons_def updateDots_def polled_def startTimer_def
  timerTick_def timer_of_def pad2_def on_ready_def on_paused_def addTab_def switchTab_def light_def new_tab_def
  terminal_src_def MAX_TABS_def checkStep_def verify_answered_def check_answered_def check_failed_def check_reset_def
  startServicesPoll_def fetchServices_def endLab_def pauseLab_def resumeLab_def clear_intervals_def date_ms_def
  nextStep_def prevStep_def closeTab_def toggleIDE_def code_click_def navigate_def ensureVNCOpen_def openBrowser_def
  remove_at_def renumber_def open_page_def sample_lab_def sample_session_def sample_start_def check_waits_def nat_str.simps
  digit_char_def


text \<open>
  An impatient user: the check of the first step is answered while the second is shown, and the
  second counts as passed.
\<close>

theorem check_marks_shown_step:
  "let s = page_run ''i'' (sample_start @ [Check_click, Dot_click 1, Verify_answer 0 True])
   in stepVerified s 1 \<and> \<not> stepVerified s 0 \<and> env_passed s 0 \<and> \<not> env_passed s 1 \<and> \<not> next_disabled s"
  by (simp add: page_eval Let_def)

text \<open>Two answers that arrive late open two terminals.\<close>

theorem late_answers_open_two_tabs:
  "length (tabs (page_run ''i'' [Scenario_answer 0 sample_lab, Poll_tick, Poll_tick,
     Session_answer 0 (Some (sample_session Status_ready)) 0, Session_answer 0 (Some (sample_session Status_ready)) 0])) = 2"
  by (simp add: page_eval Let_def)

section \<open>What the page does to its session\<close>

text \<open>
  The page deletes its session for two reasons: its user discards it, or the expiry the server
  named has passed on the clock of the browser. \<open>quiet T e\<close>: neither happens in \<open>e\<close>.
\<close>

fun quiet :: "int \<Rightarrow> page_event \<Rightarrow> bool" where
  "quiet T Discard_click = False"
| "quiet T (Timer_fires now) = (now < T)"
| "quiet T (Session_answer i a now) =
     (now < T \<and> (case a of None \<Rightarrow> True | Some sess \<Rightarrow> date_ms (s_expiresAt sess) = T))"
| "quiet T e = True"

definition kept_alive :: "int \<Rightarrow> lab_page \<Rightarrow> bool" where
  "kept_alive T s \<longleftrightarrow> Send_delete \<notin> set (sent s) \<and> page_expires s \<in> {None, Some T}"

lemma kept_alive_same [simp]:
  "kept_alive T (switchTab i s) = kept_alive T s" "kept_alive T (addTab s) = kept_alive T s"
  "kept_alive T (closeTab i s) = kept_alive T s" "kept_alive T (toggleIDE s) = kept_alive T s"
  "kept_alive T (navigate u s) = kept_alive T s" "kept_alive T (openBrowser s) = kept_alive T s"
  "kept_alive T (renderServices svs s) = kept_alive T s" "kept_alive T (answered i s) = kept_alive T s"
  "kept_alive T (check_reset s) = kept_alive T s" "kept_alive T (check_failed s) = kept_alive T s"
  "kept_alive T (toggleServices s) = kept_alive T s" "kept_alive T (showStep n s) = kept_alive T s"
  by (simp_all add: kept_alive_def)

lemma kept_alive_sends [simp]:
  "kept_alive T (ask r s) = (r \<noteq> Send_delete \<and> kept_alive T s)"
  "kept_alive T (tell r s) = (r \<noteq> Send_delete \<and> kept_alive T s)"
  by (auto simp: kept_alive_def)

lemma kept_alive_fields [simp]:
  "kept_alive T (s\<lparr>ticking := b\<rparr>) = kept_alive T s" "kept_alive T (s\<lparr>long_wait := b\<rparr>) = kept_alive T s"
  "kept_alive T (s\<lparr>polling := b\<rparr>) = kept_alive T s" "kept_alive T (s\<lparr>left_page := b\<rparr>) = kept_alive T s"
  "kept_alive T (s\<lparr>vnc_open := b\<rparr>) = kept_alive T s" "kept_alive T (s\<lparr>terminal := x\<rparr>) = kept_alive T s"
  "kept_alive T (s\<lparr>reset_timers := n\<rparr>) = kept_alive T s" "kept_alive T (s\<lparr>nav_timers := ns\<rparr>) = kept_alive T s"
  "kept_alive T (s\<lparr>completion_shown := b\<rparr>) = kept_alive T s" "kept_alive T (s\<lparr>env_passed := f\<rparr>) = kept_alive T s"
  "kept_alive T (confirm_shown_update g s) = kept_alive T s"
  "kept_alive T (completion_shown_update g s) = kept_alive T s"
  "kept_alive T (s\<lparr>leaked_polls := n, service_poll := b\<rparr>) = kept_alive T s"
  "kept_alive T (s\<lparr>page_expires := Some T\<rparr>) = (Send_delete \<notin> set (sent s))"
  "kept_alive T (s\<lparr>steps := st\<rparr>) = kept_alive T s" "kept_alive T (renderDots s) = kept_alive T s"
  "kept_alive T (s\<lparr>check_disabled := a, check_text := l, check_class := m\<rparr>) = kept_alive T s"
  "kept_alive T (s\<lparr>resume_disabled := a, resuming := b\<rparr>) = kept_alive T s"
  by (simp_all add: kept_alive_def renderDots_def)

lemma kept_alive_handlers [simp]:
  "kept_alive T (code_click c s) = kept_alive T s" "kept_alive T (checkStep s) = kept_alive T s"
  "kept_alive T (resumeLab s) = kept_alive T s" "kept_alive T (nextStep s) = kept_alive T s"
  "kept_alive T (prevStep s) = kept_alive T s" "kept_alive T (fetchServices s) = kept_alive T s"
  "kept_alive T (startServicesPoll s) = kept_alive T s" "kept_alive T (init_answered sc s) = kept_alive T s"
  by (simp_all add: code_click_def checkStep_def resumeLab_def nextStep_def prevStep_def fetchServices_def
      startServicesPoll_def init_answered_def Let_def)

lemma kept_alive_rest [simp]:
  "kept_alive T (pauseLab s) = kept_alive T s" "kept_alive T (on_paused s) = kept_alive T s"
  "kept_alive T (check_answered b s) = kept_alive T s" "kept_alive T (verify_answered i n b s) = kept_alive T s"
proof -
  show check: "kept_alive T (check_answered b s) = kept_alive T s" for s
    by (simp add: check_answered_def) (simp add: kept_alive_def)
  show "kept_alive T (verify_answered i n b s) = kept_alive T s"
    unfolding verify_answered_def check by simp
qed (simp_all add: pauseLab_def clear_intervals_def on_paused_def, simp_all add: kept_alive_def)

lemma kept_alive_tick: "kept_alive T s \<Longrightarrow> now < T \<Longrightarrow> kept_alive T (timerTick now s)"
  by (auto simp: timerTick_def Let_def split: option.split) (simp_all add: kept_alive_def)

lemma kept_alive_ready [simp]: "kept_alive T (on_ready sess s) = kept_alive T s"
  by (simp add: on_ready_def Let_def) (simp add: kept_alive_def)

lemma kept_alive_polled:
  assumes "kept_alive T s" and "quiet T (Session_answer i a now)"
  shows "kept_alive T (polled a now s)"
proof (cases a)
  case (Some sess)
  then have "kept_alive T (timerTick now (s\<lparr>page_expires := Some (date_ms (s_expiresAt sess))\<rparr>))"
    using assms by (intro kept_alive_tick) (auto simp: kept_alive_def)
  then show ?thesis
    using assms Some by (simp add: polled_def startTimer_def Let_def)
qed (use assms in \<open>simp add: polled_def\<close>)

lemma kept_alive_event: "kept_alive T s \<Longrightarrow> quiet T e \<Longrightarrow> kept_alive T (page_step s e)"
proof -
  assume s: "kept_alive T s" "quiet T e"
  have "kept_alive T (on_answer s e)"
  proof (cases e)
    case (Session_answer i a now)
    then show ?thesis
      using s kept_alive_polled [of T "answered i s" i a now] by (simp add: on_answer_def enabled_def)
  qed (use s in \<open>simp_all add: on_answer_def enabled_def split: option.split page_request.split\<close>)
  moreover have "kept_alive T (on_timer s e)"
    using s by (cases e) (simp_all add: on_timer_def enabled_def kept_alive_tick)
  moreover have "kept_alive T (on_click s e)"
    using s by (cases e) (simp_all add: on_click_def enabled_def)
  ultimately show ?thesis
    using s page_step_one [of s e] by auto
qed

interpretation page_session: guarded_machine page_step "\<lambda>_. quiet T" "kept_alive T" for T
  by unfold_locales (rule kept_alive_event)

lemma admitted_list_all: "admitted step (\<lambda>_. P) s es = list_all P es"
  by (induction es arbitrary: s) auto

text \<open>
  C19: The page never deletes its session by itself before the time the server named: in a run in
  which the user does not discard the lab, and the clock of the browser has not reached the
  session's expiry, no request to delete it is sent, whatever else is clicked, answered or lost.
\<close>

theorem lab_ended_only_by_user_or_time:
  assumes "list_all (quiet T) es"
  shows "Send_delete \<notin> set (sent (page_run session es))"
proof -
  have "kept_alive T (open_page session)"
    by (simp add: kept_alive_def open_page_def)
  then have "kept_alive T (page_run session es)"
    using page_session.run_inv assms by (simp add: admitted_list_all)
  then show ?thesis
    by (simp add: kept_alive_def)
qed

theorem lab_ended_only_by_user_or_time_witness:
  "Send_delete \<notin> set (sent (page_run ''i'' (sample_start @ [Timer_fires 8999, End_click, Save_click])))"
  by (rule lab_ended_only_by_user_or_time [of 9000])
    (simp add: sample_start_def sample_session_def date_ms_def)

text \<open>At the expiry itself the page deletes the session.\<close>

theorem lab_ended_at_expiry:
  "Send_delete \<in> set (sent (page_run ''i'' (sample_start @ [Timer_fires 9000])))"
  by (simp add: page_eval Let_def)

section \<open>After a pause\<close>

text \<open>
  The answer that the session is paused stops the polling. \<open>stalled q s\<close>: nothing is asked
  about the session any more, and it was asked \<open>q\<close> times.
\<close>

definition stalled :: "page_request list \<Rightarrow> lab_page \<Rightarrow> bool" where
  "stalled q s \<longleftrightarrow>
     \<not> labReady s \<and> \<not> polling s \<and> set (waiting s) \<inter> {Ask_session, Ask_scenario} = {} \<and>
     filter (\<lambda>r. r = Ask_session) (sent s) = q"

lemma stalled_same [simp]:
  "stalled q (switchTab i s) = stalled q s" "stalled q (addTab s) = stalled q s"
  "stalled q (closeTab i s) = stalled q s" "stalled q (toggleIDE s) = stalled q s"
  "stalled q (navigate u s) = stalled q s" "stalled q (openBrowser s) = stalled q s"
  "stalled q (renderServices svs s) = stalled q s" "stalled q (check_reset s) = stalled q s"
  "stalled q (check_failed s) = stalled q s" "stalled q (toggleServices s) = stalled q s"
  "stalled q (showStep n s) = stalled q s"
  by (simp_all add: stalled_def)

lemma stalled_sends [simp]:
  "r \<notin> {Ask_session, Ask_scenario} \<Longrightarrow> stalled q (ask r s) = stalled q s"
  "r \<noteq> Ask_session \<Longrightarrow> stalled q (tell r s) = stalled q s"
  by (auto simp: stalled_def)

lemma stalled_fields [simp]:
  "stalled q (s\<lparr>ticking := b\<rparr>) = stalled q s" "stalled q (s\<lparr>left_page := b\<rparr>) = stalled q s"
  "stalled q (s\<lparr>vnc_open := b\<rparr>) = stalled q s" "stalled q (s\<lparr>terminal := x\<rparr>) = stalled q s"
  "stalled q (s\<lparr>reset_timers := n\<rparr>) = stalled q s" "stalled q (s\<lparr>nav_timers := ns\<rparr>) = stalled q s"
  "stalled q (s\<lparr>completion_shown := b\<rparr>) = stalled q s" "stalled q (s\<lparr>env_passed := f\<rparr>) = stalled q s"
  "stalled q (confirm_shown_update g s) = stalled q s"
  "stalled q (completion_shown_update g s) = stalled q s"
  "stalled q (s\<lparr>leaked_polls := n, service_poll := b\<rparr>) = stalled q s"
  "stalled q (s\<lparr>check_disabled := a, check_text := l, check_class := m\<rparr>) = stalled q s"
  "stalled q (s\<lparr>resume_disabled := a, resuming := b\<rparr>) = stalled q s"
  "stalled q (s\<lparr>timer_text := t, timer_look := y\<rparr>) = stalled q s"
  "stalled q (s\<lparr>timer_text := t, timer_look := y, ticking := b\<rparr>) = stalled q s"
  by (simp_all add: stalled_def)

lemma stalled_handlers [simp]:
  "stalled q (checkStep s) = stalled q s" "stalled q (resumeLab s) = stalled q s"
  "stalled q (nextStep s) = stalled q s" "stalled q (prevStep s) = stalled q s"
  "stalled q (fetchServices s) = stalled q s"
  by (simp_all add: checkStep_def resumeLab_def nextStep_def prevStep_def fetchServices_def Let_def)

lemma stalled_answered: "stalled q s \<Longrightarrow> stalled q (answered i s)"
  using set_remove_at [of i "waiting s"] by (auto simp: stalled_def)

lemma stalled_ends: "stalled q s \<Longrightarrow> stalled q (endLab s)" "stalled q s \<Longrightarrow> stalled q (pauseLab s)"
  unfolding endLab_def pauseLab_def clear_intervals_def by simp_all (simp_all add: stalled_def)

lemma stalled_tick: "stalled q s \<Longrightarrow> stalled q (timerTick now s)"
  by (simp add: timerTick_def Let_def stalled_ends split: option.split)

lemma stalled_verify: "stalled q s \<Longrightarrow> stalled q (verify_answered i n b s)"
proof -
  have check: "stalled q (check_answered b s) = stalled q s" for s
    by (simp add: check_answered_def) (simp add: stalled_def)
  show "stalled q s \<Longrightarrow> stalled q (verify_answered i n b s)"
    unfolding verify_answered_def check by (simp add: stalled_answered)
qed

lemma stalled_in_flight: "stalled q s \<Longrightarrow> in_flight s i \<notin> {Some Ask_session, Some Ask_scenario}"
  using in_flight_waiting [of s i] unfolding stalled_def by blast

lemma stalled_event: "stalled q s \<Longrightarrow> stalled q (page_step s e)"
proof -
  assume s: "stalled q s"
  have "stalled q (on_answer s e)"
    using s stalled_in_flight [OF s]
    by (cases e) (simp_all add: on_answer_def enabled_def stalled_answered stalled_verify split: option.split page_request.split)
  moreover have "stalled q (on_timer s e)"
    using s by (cases e) (simp_all add: on_timer_def enabled_def stalled_tick, simp_all add: stalled_def)
  moreover have "stalled q (on_click s e)"
    using s by (cases e) (simp_all add: on_click_def enabled_def stalled_ends, simp_all add: stalled_def code_click_def)
  ultimately show ?thesis
    using s page_step_one [of s e] by auto
qed

interpretation page_stalled: guarded_machine page_step "\<lambda>_ _. True" "stalled q" for q
  by unfold_locales (rule stalled_event)

text \<open>
  C21: After the only request in flight was answered with a paused session the page never
  asks about the session again and never becomes ready: not after Resume was clicked and
  answered either, although the code expects the polling to notice the VM. Only loading the page
  anew reaches the terminal.
\<close>

theorem resumed_page_never_connects:
  assumes "waiting s = [Ask_session]" and "\<not> left_page s" and "s_status sess = Status_paused"
    and "t = page_step s (Session_answer 0 (Some sess) now)"
  shows "\<not> labReady (foldl page_step t es) \<and>
    filter (\<lambda>r. r = Ask_session) (sent (foldl page_step t es)) = filter (\<lambda>r. r = Ask_session) (sent s)"
proof -
  let ?q = "filter (\<lambda>r. r = Ask_session) (sent s)"
  have paused: "stalled ?q (on_paused u)"
    if "set (waiting u) \<inter> {Ask_session, Ask_scenario} = {}" "filter (\<lambda>r. r = Ask_session) (sent u) = ?q" for u
    using that by (simp add: stalled_def on_paused_def)
  have "stalled ?q (polled (Some sess) now (answered 0 s))"
  proof -
    have "set (waiting u) \<inter> {Ask_session, Ask_scenario} = {} \<and> filter (\<lambda>r. r = Ask_session) (sent u) = ?q"
      if "u = (if page_expires (answered 0 s) = None
        then startTimer now ((answered 0 s)\<lparr>page_expires := Some (date_ms (s_expiresAt sess))\<rparr>) else answered 0 s)" for u
      using that assms(1)
      by (auto simp: startTimer_def timerTick_def Let_def endLab_def clear_intervals_def)
    then show ?thesis
      using assms(3) paused by (simp add: polled_def Let_def del: frame_answered)
  qed
  moreover have "t = polled (Some sess) now (answered 0 s)"
    using assms(1,2,4)
    by (simp add: page_step_def on_answer_def on_timer_def on_click_def enabled_def in_flight_def)
  ultimately have "stalled ?q (foldl page_step t es)"
    using page_stalled.run_inv by simp
  then show ?thesis
    by (simp add: stalled_def)
qed

theorem resumed_page_never_connects_witness:
  "let s = page_run ''i'' [Scenario_answer 0 sample_lab, Poll_tick];
       t = page_step s (Session_answer 0 (Some (sample_session Status_paused)) 0)
   in \<not> labReady (foldl page_step t [Resume_click, Resume_answer 0, Poll_tick, Session_answer 0 (Some (sample_session Status_ready)) 0])"
proof -
  have "waiting (page_run ''i'' [Scenario_answer 0 sample_lab, Poll_tick]) = [Ask_session]"
    "\<not> left_page (page_run ''i'' [Scenario_answer 0 sample_lab, Poll_tick])"
    by (simp_all add: page_eval Let_def)
  then show ?thesis
    unfolding Let_def
    by (rule resumed_page_never_connects [THEN conjunct1]) (simp_all add: sample_session_def)
qed

section \<open>From the page to the terminal\<close>

lemma tabs_frame: "tab_part t = tab_part s \<Longrightarrow> tabs t = tabs s"
  by (simp add: tab_part_def)

lemma ready_tabs:
  assumes "tabs p = []"
  shows "tabs (on_ready sess p) = [(new_tab (SESSION p) 1)\<lparr>t_shown := True, t_lit := True\<rparr>]"
    and "labReady (on_ready sess p)" "\<not> locked (on_ready sess p)"
proof -
  define p1 where "p1 = p\<lparr>polling := False, labReady := True, locked := False, loading_hidden := True,
      terminal := Connected, add_disabled := False, ide_disabled := False,
      browser_shown := browser_shown p \<or> s_browserEnabled sess, resume_shown := False\<rparr>"
  define p2 where "p2 = showStep (int (currentStep p1)) p1"
  have p2: "tabs p2 = []" "SESSION p2 = SESSION p" "labReady p2"
    using assms tabs_frame [OF tab_part_step, of "int (currentStep p1)" p1]
    by (simp_all add: p2_def p1_def)
  have "\<not> locked p2"
    by (simp add: p2_def showStep_def Let_def step_buttons_def updateDots_def) (simp add: p1_def)
  moreover have "tabs (addTab p2) = [(new_tab (SESSION p) 1)\<lparr>t_shown := True, t_lit := True\<rparr>]"
    using p2 by (simp add: addTab_def switchTab_def light_def Let_def MAX_TABS_def)
  ultimately show "tabs (on_ready sess p) = [(new_tab (SESSION p) 1)\<lparr>t_shown := True, t_lit := True\<rparr>]"
    "labReady (on_ready sess p)" "\<not> locked (on_ready sess p)"
    using p2 by (simp_all add: on_ready_def startServicesPoll_def fetchServices_def ask_def Let_def
        flip: p1_def p2_def) (simp_all add: addTab_def switchTab_def Let_def)
qed

lemma polled_ready:
  assumes "tabs p = []" and "s_status sess = Status_ready"
  shows "tabs (polled (Some sess) now p) = [(new_tab (SESSION p) 1)\<lparr>t_shown := True, t_lit := True\<rparr>] \<and>
    labReady (polled (Some sess) now p) \<and> \<not> locked (polled (Some sess) now p)"
proof -
  define p1 where "p1 = (if page_expires p = None
      then startTimer now (p\<lparr>page_expires := Some (date_ms (s_expiresAt sess))\<rparr>) else p)"
  have "tab_part p1 = tab_part p"
    by (simp add: p1_def) (simp add: tab_part_def)
  then have "tabs p1 = []" "SESSION p1 = SESSION p"
    using assms(1) by (simp_all add: tab_part_def)
  then show ?thesis
    using assms(2) ready_tabs [of p1 sess] by (simp add: polled_def flip: p1_def)
qed

text \<open>
  C3: The owner of a session whose VM the operator called ready gets to its terminal: the page
  asks for the session, the answer makes it show its first tab and unlocks the steps, and the
  request of that tab is passed on to the VM, at the service and a port the provider opened. The
  router, the handlers and the page are composed as the code composes them.
\<close>

theorem owner_connects:
  assumes "faults k = []" and "find (\<lambda>l. ls_name l = i) (crs k) = Some l"
    and "ownsSession s r (lsToSession l)" and "ph (ls_status l) = Ready"
    and "serviceDNS (ls_status l) = serviceDNS_of cfg (resourceName l)"
    and "dns_part (sessionID (ls_spec l))" and "dns_part (namespace cfg)"
    and "plain_segment i" and "plain_segment sc"
    and "SESSION p = i" and "tabs p = []" and "in_flight p j = Some Ask_session" and "\<not> left_page p"
  shows "\<exists>sess t.
    session_request s r (fst (page_url i sc Ask_session)) (snd (page_url i sc Ask_session)) None 0 k =
      Some (Session_reply 200 sess, None, k) \<and>
    labReady (page_step p (Session_answer j (Some sess) now)) \<and>
    \<not> locked (page_step p (Session_answer j (Some sess) now)) \<and>
    tabs (page_step p (Session_answer j (Some sess) now)) = [t] \<and> t_shown t \<and>
    session_request s r ''GET'' (t_src t) None 0 k =
      Some (Proxied, Some (Call (serviceDNS_of cfg (resourceName l)) 7681 (''/t/'' @ i)), k) \<and>
    7681 \<in> set (vm_ports l)"
proof -
  let ?sess = "lsToSession l"
  have "Get i k = (Some ?sess, k)"
    using assms by (simp add: Get_def cr_get_def)
  then have "serve s r i Get_session k = (Session_reply 200 ?sess, None, k)"
    using assms(3) by (simp add: serve_def getSession_def owned_session_def)
  then have ask: "session_request s r (fst (page_url i sc Ask_session)) (snd (page_url i sc Ask_session)) None 0 k =
      Some (Session_reply 200 ?sess, None, k)"
    using dispatch_page [OF assms(8,9), of Ask_session] by (simp add: session_request_def route_of_def)
  have reach: "session_request s r ''GET'' (terminal_src i 1) None 0 k =
      Some (Proxied, Some (Call (serviceDNS_of cfg (resourceName l)) 7681 (''/t/'' @ i)), k)" "7681 \<in> set (vm_ports l)"
    using owner_reaches_terminal [OF assms(1-7)] dispatch_terminals(1) [OF assms(8)]
    by (simp_all add: session_request_def route_of_def)
  define p' where "p' = page_step p (Session_answer j (Some ?sess) now)"
  have "s_status ?sess = Status_ready"
    using assms(4) by (simp add: lsToSession_def status_of_phase_def)
  moreover have "p' = polled (Some ?sess) now (answered j p)"
    using assms(12,13) unfolding p'_def
    by (simp add: page_step_def on_answer_def on_timer_def on_click_def enabled_def)
  moreover have "tabs (answered j p) = []" "SESSION (answered j p) = i"
    using assms(10,11) by (simp_all add: answered_def)
  ultimately have "tabs p' = [(new_tab i 1)\<lparr>t_shown := True, t_lit := True\<rparr>]" "labReady p'" "\<not> locked p'"
    using polled_ready [of "answered j p" ?sess now] by simp_all
  then show ?thesis
    using ask reach unfolding p'_def
    by (intro exI [of _ ?sess] exI [of _ "(new_tab i 1)\<lparr>t_shown := True, t_lit := True\<rparr>"])
      (simp add: new_tab_def)
qed

theorem owner_connects_witness:
  "\<exists>sess t.
    session_request sample_server (request_of ''Ann@X.io'')
      (fst (page_url ''1234567890'' ''intro'' Ask_session)) (snd (page_url ''1234567890'' ''intro'' Ask_session)) None 0 one_session =
      Some (Session_reply 200 sess, None, one_session) \<and>
    tabs (page_step (page_run ''1234567890'' [Scenario_answer 0 sample_lab, Poll_tick]) (Session_answer 0 (Some sess) 0)) = [t] \<and>
    session_request sample_server (request_of ''Ann@X.io'') ''GET'' (t_src t) None 0 one_session =
      Some (Proxied, Some (Call (serviceDNS_of access_config (resourceName ready_session)) 7681 (''/t/'' @ ''1234567890'')), one_session)"
proof -
  let ?p = "page_run ''1234567890'' [Scenario_answer 0 sample_lab, Poll_tick]"
  have k: "faults one_session = []"
    "find (\<lambda>l. ls_name l = ''1234567890'') (crs one_session) = Some ready_session"
    "ph (ls_status ready_session) = Ready"
    by (simp_all add: one_session_def ready_session_def new_session_def)
  have d: "serviceDNS (ls_status ready_session) = serviceDNS_of access_config (resourceName ready_session)"
    "dns_part (sessionID (ls_spec ready_session))" "dns_part (namespace access_config)"
    by code_simp+
  have u: "plain_segment ''1234567890''" "plain_segment ''intro''"
    by (simp_all add: plain_segment_def)
  have p: "SESSION ?p = ''1234567890''" "tabs ?p = []" "in_flight ?p 0 = Some Ask_session" "\<not> left_page ?p"
    by (simp_all add: page_eval Let_def)
  show ?thesis
    using owner_connects [OF k(1,2) ann_owns k(3) d u p, of 0] by blast
qed

section \<open>The terminal that clicks on code go to\<close>

text \<open>
  A click on a block of code sends it to the terminal of the setup, which is the first tab as
  long as that tab was not closed.
\<close>

definition first_kept :: "page_event \<Rightarrow> bool" where
  "first_kept e \<longleftrightarrow> e \<noteq> Tab_close 0"

definition setup_first :: "lab_page \<Rightarrow> bool" where
  "setup_first s \<longleftrightarrow> tabs_ok s \<and> (tabs s \<noteq> [] \<longrightarrow> t_src (hd (tabs s)) = terminal_src (SESSION s) 1)"

lemma hd_light: "ts \<noteq> [] \<Longrightarrow> t_src (hd (light a ts)) = t_src (hd ts)"
  using nth_light [of 0 ts a] by (simp add: hd_conv_nth)

lemma hd_renumber: "ts \<noteq> [] \<Longrightarrow> t_src (hd (renumber ts)) = t_src (hd ts)"
  using nth_renumber [of 0 ts] by (simp add: hd_conv_nth)

lemma setup_ops:
  "setup_first s \<Longrightarrow> i < length (tabs s) \<Longrightarrow> setup_first (switchTab i s)" "setup_first s \<Longrightarrow> setup_first (addTab s)"
  "setup_first s \<Longrightarrow> 0 < j \<Longrightarrow> setup_first (closeTab j s)" "setup_first s \<Longrightarrow> setup_first (toggleIDE s)"
proof -
  have switch: "t_src (hd (tabs (switchTab i t))) = t_src (hd (tabs t))" if "tabs t \<noteq> []" for i t
    using that by (simp add: switchTab_def Let_def hd_light)
  show "setup_first s \<Longrightarrow> i < length (tabs s) \<Longrightarrow> setup_first (switchTab i s)"
    by (cases "tabs s = []") (simp_all add: setup_first_def tabs_ok_ops switch)
  have "t_src (hd (tabs (addTab s))) = (if tabs s = [] then terminal_src (SESSION s) 1 else t_src (hd (tabs s)))"
    by (auto simp: addTab_def Let_def switch new_tab_def MAX_TABS_def)
  then show "setup_first s \<Longrightarrow> setup_first (addTab s)"
    by (auto simp: setup_first_def tabs_ok_ops)
  have "t_src (hd (tabs (toggleIDE s))) = t_src (hd (tabs s))" if "tabs s \<noteq> []"
    using that by (simp add: toggleIDE_def Let_def hd_light switch split: option.split)
  moreover have "tabs (toggleIDE s) = []" if "tabs s = []"
    using that by (simp add: toggleIDE_def switchTab_def light_def Let_def split: option.split)
  ultimately show "setup_first s \<Longrightarrow> setup_first (toggleIDE s)"
    by (cases "tabs s = []") (simp_all add: setup_first_def tabs_ok_ops)
  have "t_src (hd (tabs (closeTab j s))) = t_src (hd (tabs s))" if "0 < j" "tabs s \<noteq> []"
  proof (cases "length (tabs s) = 1 \<or> j \<ge> length (tabs s)")
    case False
    then have "remove_at j (tabs s) \<noteq> []"
      using that by (auto simp: remove_at_def)
    then show ?thesis
      using False that by (simp add: closeTab_def Let_def switch hd_renumber hd_remove_at)
  qed (auto simp: closeTab_def)
  moreover have "tabs (closeTab j s) = []" if "tabs s = []"
    using that by (simp add: closeTab_def)
  ultimately show "setup_first s \<Longrightarrow> 0 < j \<Longrightarrow> setup_first (closeTab j s)"
    by (cases "tabs s = []") (simp_all add: setup_first_def tabs_ok_ops)
qed

lemma setup_frame: "tab_part t = tab_part s \<Longrightarrow> setup_first t = setup_first s"
  using tabs_ok_frame [of t s] by (simp add: setup_first_def) (simp add: tab_part_def)

lemmas setup_kept = tabs_ok_frames [THEN setup_frame]

lemma setup_ready: "setup_first s \<Longrightarrow> setup_first (on_ready sess s)"
proof -
  assume s: "setup_first s"
  define s1 where "s1 = s\<lparr>polling := False, labReady := True, locked := False, loading_hidden := True,
      terminal := Connected, add_disabled := False, ide_disabled := False,
      browser_shown := browser_shown s \<or> s_browserEnabled sess, resume_shown := False\<rparr>"
  define s2 where "s2 = showStep (int (currentStep s1)) s1"
  have s2: "tabs s2 = tabs s" "SESSION s2 = SESSION s"
    using tabs_frame [OF tab_part_step, of "int (currentStep s1)" s1] by (simp_all add: s2_def s1_def)
  have "t_src (hd (tabs (addTab s2))) = terminal_src (SESSION s) 1"
    using s s2 by (cases "tabs s2 = []")
      (auto simp: setup_first_def addTab_def switchTab_def Let_def hd_light new_tab_def MAX_TABS_def)
  then have "t_src (hd (tabs (on_ready sess s))) = terminal_src (SESSION s) 1" "SESSION (on_ready sess s) = SESSION s"
    using s2 by (simp_all add: on_ready_def startServicesPoll_def fetchServices_def ask_def Let_def flip: s1_def s2_def)
  then show ?thesis
    using s tabs_ok_ready by (simp add: setup_first_def)
qed

lemma setup_polled: "setup_first s \<Longrightarrow> setup_first (polled a now s)"
proof (cases a)
  case None
  assume "setup_first s"
  moreover have "tab_part (s\<lparr>polling := False\<rparr>) = tab_part s"
    by (simp add: tab_part_def)
  ultimately show ?thesis
    using None setup_frame [of "s\<lparr>polling := False\<rparr>" s] by (simp add: polled_def)
next
  case (Some sess)
  define s1 where "s1 = (if page_expires s = None
      then startTimer now (s\<lparr>page_expires := Some (date_ms (s_expiresAt sess))\<rparr>) else s)"
  have "tab_part s1 = tab_part s" "tab_part (s1\<lparr>long_wait := True\<rparr>) = tab_part s1"
    by (simp add: s1_def) (simp_all add: tab_part_def)
  moreover assume "setup_first s"
  ultimately have s1: "setup_first s1" "setup_first (s1\<lparr>long_wait := True\<rparr>)"
    using setup_frame [of s1 s] setup_frame [of "s1\<lparr>long_wait := True\<rparr>" s1] by simp_all
  then have "setup_first (on_paused s1)"
    using tabs_ok_paused by (simp add: setup_first_def) (simp add: on_paused_def)
  then show ?thesis
    using Some s1 setup_ready by (simp add: polled_def flip: s1_def)
qed

lemma setup_code: "setup_first s \<Longrightarrow> setup_first (code_click c s)"
proof (cases "labReady s \<and> tabs s \<noteq> []")
  case True
  assume s: "setup_first s"
  with True have "setup_first (if activeTab s \<noteq> Some 0 then switchTab 0 s else s)"
    using setup_ops(1) [of s 0] by auto
  then show ?thesis
    using True setup_frame [OF tab_part_session(6)] by (simp add: code_click_def Let_def)
qed (auto simp: code_click_def setup_first_def tabs_ok_def)

lemma setup_event: "setup_first s \<Longrightarrow> first_kept e \<Longrightarrow> setup_first (page_step s e)"
proof -
  assume s: "setup_first s" "first_kept e"
  then have ok: "tabs_ok s"
    by (simp add: setup_first_def)
  have "setup_first (on_answer s e)"
    using s by (cases e)
      (simp_all add: on_answer_def enabled_def setup_polled setup_kept split: option.split page_request.split)
  moreover have "setup_first (on_timer s e)"
    using s by (cases e) (simp_all add: on_timer_def enabled_def setup_kept)
  moreover have "setup_first (on_click s e)"
    using s tabs_ok_nth [OF ok]
    by (cases e) (simp_all add: on_click_def enabled_def setup_kept setup_ops setup_code first_kept_def)
  ultimately show ?thesis
    using s page_step_one [of s e] by auto
qed

interpretation page_setup: guarded_machine page_step "\<lambda>_. first_kept" setup_first
  by unfold_locales (rule setup_event)

text \<open>
  As long as the first tab was never closed and the IDE is not open, a click on a block of
  code sends the code once and ends with the terminal it runs in as the one tab that is shown.
\<close>

theorem code_click_shows_its_terminal:
  assumes "list_all first_kept es" and "s = page_run session es"
    and "labReady s" and "\<not> ideOpen s" and "step_shown s \<noteq> None" and "\<not> left_page s"
  shows "sent (page_step s (Code_click c)) = sent s @ [Send_cmd (trim_end c)] \<and>
    (\<exists>t. filter t_shown (tabs (page_step s (Code_click c))) = [t] \<and> t_src t = ''/t/'' @ session @ ''/'')"
proof -
  have "setup_first (open_page session)"
    using tabs_ok_open by (simp add: setup_first_def) (simp add: open_page_def)
  then have s: "setup_first s"
    using page_setup.run_inv assms(1,2) by (simp add: admitted_list_all)
  have sess: "SESSION s = session"
    using assms(2) SESSION_run by (simp add: open_page_def)
  define u where "u = (if activeTab s \<noteq> Some 0 then switchTab 0 s else s)"
  have ne: "tabs s \<noteq> []"
    using s assms(3) by (simp add: setup_first_def tabs_ok_def)
  have u: "setup_first u" "activeTab u = Some 0" "\<not> ideOpen u" "tabs u \<noteq> []" "sent u = sent s" "SESSION u = session"
    using s ne assms(4) setup_ops(1) [of s 0] sess by (auto simp: u_def switchTab_def Let_def)
  have step: "page_step s (Code_click c) = tell (Send_cmd (trim_end c)) u"
    using assms(3,5,6) u(4) by (simp add: page_step_def on_answer_def on_timer_def on_click_def enabled_def
        code_click_def Let_def flip: u_def)
  have "filter t_shown (tabs u) = [tabs u ! 0]"
    using tabs_lit_once(1) [of u] u by (simp add: setup_first_def)
  moreover have "t_src (tabs u ! 0) = ''/t/'' @ session @ ''/''"
    using u by (simp add: setup_first_def hd_conv_nth terminal_src_def)
  ultimately show ?thesis
    using u(5) unfolding step by (simp add: tell_def)
qed

theorem code_click_shows_its_terminal_witness:
  "sent (page_step (page_run ''i'' (sample_start @ [Add_click])) (Code_click ''ls '')) =
     sent (page_run ''i'' (sample_start @ [Add_click])) @ [Send_cmd (trim_end ''ls '')]"
proof -
  let ?s = "page_run ''i'' (sample_start @ [Add_click])"
  have "list_all first_kept (sample_start @ [Add_click])" "labReady ?s" "\<not> ideOpen ?s" "step_shown ?s \<noteq> None" "\<not> left_page ?s"
    by (simp_all add: page_eval Let_def first_kept_def)
  from code_click_shows_its_terminal [OF this(1) refl this(2-5), of "''ls ''"] show ?thesis
    by blast
qed

text \<open>With the IDE open over the first tab the code runs unseen; after the first tab was closed, too.\<close>

theorem code_runs_unseen:
  "let s = page_run ''i'' (sample_start @ [Ide_click, Code_click ''ls'']) in
     last (sent s) = Send_cmd ''ls'' \<and> filter t_shown (tabs s) = []"
  "let s = page_run ''i'' (sample_start @ [Add_click, Tab_close 0, Code_click ''ls'']) in
     last (sent s) = Send_cmd ''ls'' \<and> map t_src (filter t_shown (tabs s)) = [''/t/i/shell/'']"
  by (simp_all add: page_eval Let_def trim_end_def is_space_def char_code_def)

end
