(* ===== verification/Lifecycle.thy ===== *)
theory Lifecycle
  imports Reconciler
begin

text \<open>
  What a session goes through, seen from outside: an abstract machine on its phase alone, driven
  by whether its time is over and whether its user wants it paused; and the proof that one
  call of the reconciler, whatever fails in it, is one step of that machine for the session it
  is called for and none for the others.
\<close>

section \<open>The abstract machine\<close>

inductive lifecycle :: "bool \<Rightarrow> bool \<Rightarrow> phase \<Rightarrow> phase \<Rightarrow> bool" for over pause where
  stay: "lifecycle over pause p p"
| observe: "\<not> over \<Longrightarrow> \<not> pause \<Longrightarrow> p \<noteq> Paused \<Longrightarrow> q \<in> {Provisioning, Running, Ready, Failed} \<Longrightarrow>
    lifecycle over pause p q"
| suspend: "\<not> over \<Longrightarrow> pause \<Longrightarrow> p \<noteq> Paused \<Longrightarrow> lifecycle over pause p Paused"
| resume: "\<not> over \<Longrightarrow> \<not> pause \<Longrightarrow> lifecycle over pause Paused Provisioning"
| expire: "over \<Longrightarrow> lifecycle over pause p Expired"

code_pred (modes: i \<Rightarrow> i \<Rightarrow> i \<Rightarrow> i \<Rightarrow> bool) lifecycle .

inductive_cases lifecycle_toE: "lifecycle over pause p q"
inductive_simps from_paused: "lifecycle over pause Paused q"

text \<open>A session whose time is over only ever becomes expired, and a paused one only resumes.\<close>

lemma over_is_final: "lifecycle True pause p q \<Longrightarrow> q = p \<or> q = Expired"
  by (auto elim: lifecycle_toE)

lemma ready_only_unpaused: "lifecycle over pause p Ready \<Longrightarrow> p = Ready \<or> p \<noteq> Paused \<and> \<not> over \<and> \<not> pause"
  by (auto elim: lifecycle_toE)

section \<open>Steps of the reconciler\<close>

definition kept :: "(lab_status \<Rightarrow> bool) \<Rightarrow> string \<Rightarrow> 'p world \<Rightarrow> bool" where
  "kept Q m w \<longleftrightarrow> names_distinct w \<and> status_ok Q m w"

lemma kept_vms [intro]: "keeps (kept Q m) (on_vms f)"
  unfolding kept_def by (rule vms_keeps_status)

lemma kept_finalizers [intro]: "keeps (kept Q m) (update_finalizers l fs)"
  unfolding kept_def by (rule finalizers_keep_status)

lemma kept_patch:
  assumes "ls_name l = m \<Longrightarrow> \<forall>s. Q s \<longrightarrow> Q (f s)"
  shows "keeps (kept Q m) (patchStatus l f)"
  unfolding kept_def patchStatus_def
  by (rule patch_keeps_status) (use assms in auto)

definition step_of :: "env \<Rightarrow> lab_session \<Rightarrow> phase \<Rightarrow> bool" where
  "step_of e l = lifecycle (is_expired e l) (paused (ls_spec l)) (ph (ls_status l))"

lemma kept_rec_deleted: "keeps (kept Q m) (rec_deleted P l)"
  unfolding rec_deleted_def by (intro keeps_if keeps_andthen kept_vms kept_finalizers keeps_give)

lemma kept_rec_add_finalizer: "keeps (kept Q m) (rec_add_finalizer l)"
  unfolding rec_add_finalizer_def by (intro keeps_andthen kept_finalizers keeps_give)

lemma kept_rec_expired:
  assumes "ls_name l = m \<Longrightarrow> \<forall>s. Q s \<longrightarrow> Q (s\<lparr>ph := Expired, snapshotName := []\<rparr>)"
  shows "keeps (kept Q m) (rec_expired P l)"
  unfolding rec_expired_def
  by (intro keeps_if keeps_andthen kept_vms kept_patch keeps_give) (rule assms)

lemma kept_rec_pause:
  assumes "ls_name l = m \<Longrightarrow> \<forall>s. Q s \<longrightarrow> Q (s\<lparr>ph := Paused\<rparr>)"
    and "ls_name l = m \<Longrightarrow> \<forall>s n. Q s \<longrightarrow> Q (s\<lparr>snapshotName := n, serviceDNS := []\<rparr>)"
  shows "keeps (kept Q m) (rec_pause P l)"
  unfolding rec_pause_def
  by (intro keeps_if keeps_recovering keeps_andthen kept_vms kept_patch keeps_give) (use assms in auto)

lemma kept_rec_resume:
  assumes "ls_name l = m \<Longrightarrow> \<forall>s. Q s \<longrightarrow> Q (s\<lparr>ph := Provisioning\<rparr>)"
  shows "keeps (kept Q m) (rec_resume l)"
  unfolding rec_resume_def by (intro keeps_andthen kept_patch keeps_give) (rule assms)

lemma kept_observed:
  assumes "ls_name l = m \<Longrightarrow> \<forall>s d t. Q s \<longrightarrow> Q (s\<lparr>ph := p, serviceDNS := d, message := t\<rparr>)"
  shows "keeps (kept Q m) (patch_observed l p r)"
  unfolding patch_observed_def
  by (intro keeps_if keeps_andthen kept_patch keeps_give) (use assms in auto)

lemma kept_clean:
  assumes "ls_name l = m \<Longrightarrow> \<forall>s. Q s \<longrightarrow> Q (s\<lparr>snapshotName := []\<rparr>)"
  shows "keeps (kept Q m) (clean_snapshot P l p)"
  unfolding clean_snapshot_def
  by (intro keeps_if keeps_recovering keeps_andthen kept_vms kept_patch keeps_give) (use assms in auto)

text \<open>The phases that the provider observes.\<close>

lemma Reconcile_phases:
  assumes "Reconcile cfg l c = (Inr r, c')"
  shows "r_phase r \<in> {Provisioning, Running, Failed}"
proof (cases rule: Reconcile_cases [of cfg l c])
  case (1 x)
  then show ?thesis using assms by (simp add: give_def failed_def)
next
  case (2 g sp u)
  then have "\<exists>c5. vmi_result cfg (resourceName l) c5 = (Inr r, c')"
    using assms unfolding 2 converge_def by (elim andthen_InrE) blast
  then show ?thesis
    by (auto simp: vmi_result_def provisioning_def failed_def elim!: attempt_Inr
        split: option.splits vmi_phase.splits)
qed

lemma ready_phase_observed:
  "r_phase r \<in> {Provisioning, Running, Failed} \<Longrightarrow> ready_phase e r \<in> {Provisioning, Running, Ready, Failed}"
  by (auto simp: ready_phase_def)

lemma kept_converge:
  fixes P :: "'p provider"
  assumes "\<And>r p p'. pr_reconcile P l p = (Inr r, p') \<Longrightarrow> ls_name l = m \<Longrightarrow>
      \<forall>s d t. Q s \<longrightarrow> Q (s\<lparr>ph := ready_phase e r, serviceDNS := d, message := t\<rparr>)"
    and "ls_name l = m \<Longrightarrow> \<forall>s. Q s \<longrightarrow> Q (s\<lparr>snapshotName := []\<rparr>)"
  shows "keeps (kept Q m) (rec_converge P e l)"
proof (rule keepsI)
  fix w :: "'p world" assume w: "kept Q m w"
  have w1: "kept Q m (snd (on_vms (pr_reconcile P l) w))"
    using w by (rule keepsD [OF kept_vms])
  show "kept Q m (snd (rec_converge P e l w))"
  proof (cases "pr_reconcile P l (vms w)")
    case (Pair x p)
    show ?thesis
    proof (cases x)
      case (Inl y)
      then show ?thesis
        using w1 Pair by (simp add: rec_converge_def andthen_def on_vms_def)
    next
      case (Inr r)
      let ?rest = "andthen (patch_observed l (ready_phase e r) r) (\<lambda>_.
        andthen (clean_snapshot P l (ready_phase e r)) (\<lambda>pending.
        give (if pending then Requeue_after requeueWhilePending
              else if ready_phase e r \<noteq> Ready then Requeue_after requeueWhilePending
              else Requeue_after (requeueUntilExpiry e l))))"
      have "snd (rec_converge P e l w) = snd (?rest (snd (on_vms (pr_reconcile P l) w)))"
        using Pair Inr by (simp add: rec_converge_def andthen_def on_vms_def)
      moreover have "keeps (kept Q m) ?rest"
        using assms Pair Inr by (intro keeps_andthen kept_observed kept_clean keeps_give) blast+
      ultimately show ?thesis
        using keepsD [of "kept Q m" ?rest] w1 by simp
    qed
  qed
qed

lemma kept_rec_session:
  assumes "ls_name l = m \<Longrightarrow> Q = (\<lambda>s. step_of e l (ph s))"
  shows "keeps (kept Q m) (rec_session (kubevirt cfg :: 'd cluster provider) e l)"
  unfolding rec_session_def
proof (intro keeps_if kept_rec_deleted kept_rec_add_finalizer keeps_give)
  assume "is_expired e l"
  then show "keeps (kept Q m) (rec_expired (kubevirt cfg :: 'd cluster provider) l)"
    using assms by (intro kept_rec_expired) (simp add: step_of_def lifecycle.expire)
next
  assume "\<not> is_expired e l" "paused (ls_spec l) \<and> ph (ls_status l) \<noteq> Paused"
  then show "keeps (kept Q m) (rec_pause (kubevirt cfg :: 'd cluster provider) l)"
    using assms by (intro kept_rec_pause) (simp_all add: step_of_def lifecycle.suspend)
next
  assume "\<not> is_expired e l" "\<not> paused (ls_spec l) \<and> ph (ls_status l) = Paused"
  then show "keeps (kept Q m) (rec_resume l)"
    using assms by (intro kept_rec_resume) (simp add: step_of_def lifecycle.resume)
next
  assume a: "\<not> is_expired e l" "\<not> (paused (ls_spec l) \<and> ph (ls_status l) \<noteq> Paused)" "ph (ls_status l) \<noteq> Paused"
  show "keeps (kept Q m) (rec_converge (kubevirt cfg :: 'd cluster provider) e l)"
  proof (rule kept_converge)
    fix r and p p' :: "'d cluster"
    assume r: "pr_reconcile (kubevirt cfg) l p = (Inr r, p')" and m: "ls_name l = m"
    have "Reconcile cfg l p = (Inr r, p')"
      using r by (simp add: kubevirt_def)
    then have "ready_phase e r \<in> {Provisioning, Running, Ready, Failed}"
      by (rule ready_phase_observed [OF Reconcile_phases])
    then have "lifecycle False False (ph (ls_status l)) (ready_phase e r)"
      using a(3) by (intro lifecycle.observe) simp_all
    then show "\<forall>s d t. Q s \<longrightarrow> Q (s\<lparr>ph := ready_phase e r, serviceDNS := d, message := t\<rparr>)"
      using assms a m by (simp add: step_of_def)
  qed (use assms in simp)
qed

section \<open>Refinement\<close>

definition find_session :: "string \<Rightarrow> 'p world \<Rightarrow> lab_session option" where
  "find_session n w = find (\<lambda>l. ls_name l = n) (crs (kube w))"

text \<open>
  C6: The reconciler refines the lifecycle: whatever calls fail in it, one call of \<^verbatim>\<open>Reconcile\<close>
  for a session changes its phase by at most one step of the abstract machine, as its
  expiry and the pause its user asked for allow, and leaves the status of every other
  session as it is.
\<close>

theorem reconcile_refines_lifecycle:
  assumes "names_distinct w" and "find_session n w = Some l" and "reconcile (kubevirt cfg) e n w = (res, w')"
  shows "(case find_session n w' of
            None \<Rightarrow> True
          | Some l' \<Rightarrow> lifecycle (is_expired e l) (paused (ls_spec l)) (ph (ls_status l)) (ph (ls_status l'))) \<and>
         (\<forall>m l' x. m = n \<or> find_session m w' \<noteq> Some l' \<or> find_session m w \<noteq> Some x \<or> ls_status l' = ls_status x)"
proof -
  obtain r k where k: "cr_get n (kube w) = (r, k)"
    by (cases "cr_get n (kube w)") auto
  have same: "crs k = crs (kube w)"
    using crs_get [OF k] .
  have name: "ls_name l = n"
    using assms(2) find_name by (fastforce simp: find_session_def)
  have kept_k: "kept Q m w \<Longrightarrow> kept Q m (w\<lparr>kube := k\<rparr>)" for Q m
    by (simp add: kept_def names_distinct_def status_ok_def status_of_def same)
  have kept_run: "kept Q m w \<Longrightarrow> (n = m \<Longrightarrow> Q = (\<lambda>s. step_of e l (ph s))) \<Longrightarrow> kept Q m w'" for Q m
  proof (cases r)
    case (Inl x)
    assume "kept Q m w"
    then show ?thesis
      using kept_k assms(3) k Inl by (cases x) (auto simp: reconcile_def)
  next
    case (Inr l2)
    then have "l2 = l"
      using k assms(2) same by (auto simp: cr_get_def find_session_def api_call_crs split: prod.splits if_splits option.splits)
    moreover assume "kept Q m w" "n = m \<Longrightarrow> Q = (\<lambda>s. step_of e l (ph s))"
    ultimately show ?thesis
      using keepsD [OF kept_rec_session [of l m Q e cfg] kept_k] assms(3) k Inr name by (simp add: reconcile_def)
  qed
  have "kept (\<lambda>s. step_of e l (ph s)) n w"
    using assms(1,2) by (simp add: kept_def status_ok_def status_of_def find_session_def step_of_def lifecycle.stay)
  then have "kept (\<lambda>s. step_of e l (ph s)) n w'"
    by (rule kept_run) simp
  then have first: "case find_session n w' of None \<Rightarrow> True
      | Some l' \<Rightarrow> lifecycle (is_expired e l) (paused (ls_spec l)) (ph (ls_status l)) (ph (ls_status l'))"
    by (simp add: kept_def status_ok_def status_of_def find_session_def step_of_def split: option.splits)
  have "ls_status l' = ls_status x" if "m \<noteq> n" "find_session m w' = Some l'" "find_session m w = Some x" for m l' x
  proof -
    have "kept (\<lambda>s. s = ls_status x) m w"
      using that assms(1) by (simp add: kept_def status_ok_def status_of_def find_session_def)
    then have "kept (\<lambda>s. s = ls_status x) m w'"
      by (rule kept_run) (use that in simp)
    then show ?thesis
      using that by (simp add: kept_def status_ok_def status_of_def find_session_def)
  qed
  then show ?thesis
    using first by blast
qed

theorem reconcile_refines_lifecycle_witness:
  "\<exists>res w'. reconcile (kubevirt sample_config) \<lparr>now = 200, later = 201, probe = (\<lambda>_. True)\<rparr> ''0123456789''
       (single (sample_session ''0123456789'') empty_cluster) = (res, w') \<and>
     (case find_session ''0123456789'' w' of
        None \<Rightarrow> True
      | Some l' \<Rightarrow> lifecycle (is_expired \<lparr>now = 200, later = 201, probe = (\<lambda>_. True)\<rparr> (sample_session ''0123456789''))
                    (paused (ls_spec (sample_session ''0123456789'')))
                    (ph (ls_status (sample_session ''0123456789''))) (ph (ls_status l')))"
proof -
  let ?w = "single (sample_session ''0123456789'') empty_cluster"
  let ?e = "\<lparr>now = 200, later = 201, probe = (\<lambda>_. True)\<rparr>"
  obtain res w' where r: "reconcile (kubevirt sample_config) ?e ''0123456789'' ?w = (res, w')"
    by (cases "reconcile (kubevirt sample_config) ?e ''0123456789'' ?w") auto
  have "names_distinct ?w" "find_session ''0123456789'' ?w = Some (sample_session ''0123456789'')"
    by (simp_all add: names_distinct_def find_session_def single_def sample_session_def new_session_def)
  from reconcile_refines_lifecycle [OF this r] r show ?thesis
    by blast
qed

end
