(* ===== verification/Spec2Isabelle.thy ===== *)
theory Spec2Isabelle
  imports Ide_Client Ide_Tree Ide_Requests Wgsl_Grammar Menu_Style Catalog Platform Vm_Files Check_Chain Ws_Proxy User_Data Demo_Page Csm_Page Wgsl_Lexer Scenario_Editor Start_Up Lab_Runs Lifecycle
begin

text \<open>
  A verification development for the UDS lab platform.

  The platform gives each user a virtual machine with a guided lab. The browser pages talk to
  the server (\<^verbatim>\<open>cmd/labserver\<close>), which keeps no state of its own: a session is a LabSession
  resource of Kubernetes that the server's manager creates, patches and reads. The operator
  (\<^verbatim>\<open>internal/controller\<close>) watches those resources and drives the KubeVirt provider, which makes
  the disk, the machine, its service and its network policy, and takes them down again. In
  the VM \<^verbatim>\<open>vm/lab-inject.py\<close> serves files, which the web IDE of the browser opens and saves
  through the server's proxy.

  \<^bold>\<open>Theories and sources.\<close>

  \<^item> \<open>Lab_Prelude\<close>: strings of JavaScript and Go, operations that may fail with an error and a
    state (\<open>give\<close>, \<open>fail\<close>, \<open>andthen\<close>), their triples, and the locale \<open>guarded_machine\<close> of
    machines whose admitted steps keep an invariant.
  \<^item> \<open>File_Kinds\<close>, \<open>Ide_Client\<close>, \<open>Ide_Tree\<close>, \<open>Ide_Requests\<close>: the web IDE,
    \<^verbatim>\<open>web/ide-src/src/main.js\<close> and \<^verbatim>\<open>vite.config.js\<close>. The page is a machine: its state holds the
    editor, the models Monaco has registered and the requests that are not answered; its
    events are user actions and answers, in any order.
  \<^item> \<open>Js_Regex\<close>: the regular expressions of JavaScript that the next theories use, as lists of the
    ends a backtracking engine tries.
  \<^item> \<open>Wgsl_Grammar\<close>, \<open>Wgsl_Lexer\<close>, \<open>Menu_Style\<close>: parts of the editor bundle the server ships,
    \<^verbatim>\<open>web/static/ide-assets\<close>: the word lists of the shading language, its rules with the
    tokenizer that runs them, and the style sheet of the menus.
  \<^item> \<open>Scenario_Files\<close>, \<open>Editor_Preview\<close>, \<open>Scenario_Editor\<close>: the editor of scenarios in
    \<^verbatim>\<open>web/static/ide-assets/scenario-editor.js\<close>: its list of files, its preview of Markdown, and
    the module as a machine whose server may answer anything.
  \<^item> \<open>Catalog\<close>: sizes and scenarios, \<^verbatim>\<open>internal/sizing\<close>, \<^verbatim>\<open>internal/scenario\<close> and the choice of
    the golden disk in \<^verbatim>\<open>internal/provider/kubevirt\<close>.
  \<^item> \<open>Lab_Sessions\<close>: the LabSession resource (\<^verbatim>\<open>api/v1alpha1\<close>), the API server it lives in, and
    the session manager (\<^verbatim>\<open>internal/session\<close>).
  \<^item> \<open>Vm_Provider\<close>: the provider, over a cluster of volumes, machines, services, policies,
    secrets and snapshots; the content of a disk is a type parameter.
  \<^item> \<open>Reconciler\<close>: the operator's \<^verbatim>\<open>Reconcile\<close>, with one definition for each of its sections.
  \<^item> \<open>Lifecycle\<close>: the phases of a session as an abstract machine, which the reconciler refines.
  \<^item> \<open>Platform\<close>: manager, operator and provider together as one machine, with users who work
    on their disks; an interpretation of \<open>guarded_machine\<close>.
  \<^item> \<open>Base64url\<close>, \<open>Access\<close>, \<open>Demo_Tokens\<close>, \<open>Csm\<close>: the handlers of \<^verbatim>\<open>cmd/labserver/main.go\<close>:
    identity and the guards before a session or an administrative page, demo links, and the
    customer dashboard.
  \<^item> \<open>Server_Runs\<close>: the server as a machine: all its requests, with the operator in between.
  \<^item> \<open>Start_Up\<close>: the settings both programs take from their environment and their files.
  \<^item> \<open>Routes\<close>: the table of patterns in \<^verbatim>\<open>main\<close> of \<^verbatim>\<open>cmd/labserver\<close> and how the router of Go chooses among
    them.
  \<^item> \<open>Lab_Page\<close>, \<open>Lab_Tabs\<close>, \<open>Lab_Steps\<close>, \<open>Lab_Runs\<close>: the script of \<^verbatim>\<open>web/static/lab.html\<close>, a
    machine as the IDE is: its tabs, the steps and their checks, and how it follows its session; the
    last theory leads from the page through routes and handlers to the terminal of the VM.
  \<^item> \<open>Html_Text\<close>: the function \<^verbatim>\<open>esc\<close> of the pages and the tags a browser finds in what they build.
  \<^item> \<open>Start_Page\<close>, \<open>Demo_Page\<close>, \<open>Admin_Page\<close>, \<open>Csm_Page\<close>: the scripts of \<^verbatim>\<open>index.html\<close>,
    \<^verbatim>\<open>demo.html\<close>, \<^verbatim>\<open>admin.html\<close> and \<^verbatim>\<open>csm.html\<close> in \<^verbatim>\<open>web/static\<close>, each a machine that works with the
    handlers it asks.
  \<^item> \<open>Ws_Proxy\<close>: the WebSocket side of \<^verbatim>\<open>internal/proxy\<close>: the test of the origin, and the two
    goroutines that copy messages as a step relation with all their interleavings.
  \<^item> \<open>Vm_Files\<close>, \<open>Vm_Commands\<close>: \<^verbatim>\<open>vm/lab-inject.py\<close>: its file service over a file system with
    links, and its commands: keys, checks, services, and the navigation of the browser.
  \<^item> \<open>User_Data\<close>: \<^verbatim>\<open>internal/cloudinit\<close> with the template \<^verbatim>\<open>vm/user-data.sh.gotmpl\<close>, and the
    files the shell of the VM writes from the script.
  \<^item> \<open>Check_Chain\<close>: the check of a step through page, routes, server and VM.

  A definition has the name of the function it models where that name is free; the manifest
  names the lines of every one.

  \<^bold>\<open>What is shown.\<close>

  \<^item> The IDE writes the shown text to the file that is shown, keeps one model registered, and
    a page that shows no unsaved mark shows what is on the disk, as long as no edit falls into a
    running save; where it does, and in two more orders of events, theorems show what is lost.
    The tree stays well formed and lists every directory once for a calm user.
  \<^item> The path the IDE asks for is the path the VM reads, through URL, proxy and query string.
    A write answered with 200 is read back, and without a loop of links it stays below
    \<^verbatim>\<open>/root\<close>; a listing is complete, sorted, and opens what it names.
  \<^item> A client has one active session as long as its requests do not overlap; a step is
    recorded once; overlapping requests break both, as two theorems show.
  \<^item> The operator deletes a disk only after its content was saved, removes its finalizer only
    after the teardown, calls a session ready only after the probe, and is called again
    while anything is left to do. One run of the provider gives all the objects, and a further
    one changes nothing.
  \<^item> Over whole runs of the platform the work of a user survives pauses, and a pause followed
    by a resume restores the disk, when a pause is not begun before the last was finished; else
    a theorem shows the loss.
  \<^item> A VM is reached by the owner of its session only, requests of others change nothing, and
    the owner of a ready session does reach it. A demo token gives back what was signed, only
    signed ones are accepted, and its visitor owns the session it starts.
  \<^item> The table of routes has no conflicts; what the lab page asks for reaches the handler that is
    meant. The page keeps its tabs and buttons consistent, lets a patient user go on only from
    steps the server passed, deletes its session only when the user or the time says so, and opens
    the terminal of a ready session. Theorems show where it fails: a check answered while another
    step is shown, answers that arrive late, a paused session that is resumed.
  \<^item> The check of a step is the exit status of the script with its number, from the button of the
    page to the VM and back into the session; the VM has the scripts of the scenario. The pump
    of the terminal delivers in order and without gaps, only to pages of the server's own host, and
    its goroutines end. The navigation of the browser ends, except where the browser closes
    the socket during the handshake: then the service hangs.
  \<^item> A click on a card of the catalogue leads to an active session of the caller, the demo form to one
    of the visitor's own, and a start that fails leaves no trace; theorems show what a double
    click, a stale page or Enter do. No text of a user becomes markup of the administrator's
    table, whose page deletes only what was confirmed.
  \<^item> The dashboard counts each session once and shows the most advanced of each group, and its page
    says of a group how far that session is; theorems show that it takes names for markup, and
    which of its labels mislead.

  \<^item> The lexer of the shading language reads every text: the tokens of a line are the line, no
    turn fails or stands still, and only a stack of a hundred states stops it; a theorem shows
    which names it takes for directives.
  \<^item> The scenario editor writes the text that was shown when the user saved, to the file open then,
    and its preview has a fixed set of tags whatever the Markdown; theorems show the one order
    of events that writes over another file, that blocks of code are never rendered, and that the
    server has no endpoint for the editor.
  \<^item> A server started outside of the development mode admits administrators by the configured group
    only, and its demo endpoints refuse without a key of 32 bytes; theorems show where the
    session time wraps around and what a configuration that cannot be parsed admits.

  \<^bold>\<open>Assumptions, bounds and fuel.\<close> Calls of the Kubernetes API fail as a list of faults in the state
  says; theorems hold for every such list unless they name it. Clocks, UUIDs, the parsers of
  JSON and YAML, HMAC and SHA-256 are parameters. Characters are bytes and case mapping is that of
  ASCII. All functions but one are total: recursion is structural or has a termination proof. Fuel
  is in two places: the tokenizer gets two turns more than the line has characters, which
  \<open>wgsl_text_covered\<close> shows to be enough, and includes of lexer rules are followed as deep as there
  are states. The loop of \<^verbatim>\<open>cdp_navigate\<close> that may run for ever is a partial function, and
  \<open>navigation_ends_iff\<close> says when it ends. The number of links that the kernel follows (40) is the
  kernel's own; the number that \<^verbatim>\<open>realpath\<close> follows is an argument and arbitrary.

  \<^bold>\<open>Not modelled.\<close> Styles and effects that fade by themselves; the handshake of the WebSocket
  library; the lines of the user data that write no
  file; what tmux, the scripts of a scenario, kubectl and the browser do, which are parameters
  (the provider takes the rendered script as one, too); the images, charts, scenarios and scripts, which
  are data and shell. The rest of the editor bundle is minified third-party code (Monaco and its
  language workers) that the repository ships and does not maintain.
\<close>

end
